(* ===== verification/Prelude.thy ===== *)
theory Prelude
  imports Main "HOL-Library.Word" "HOL-Library.Monad_Syntax"
begin

unbundle bit_operations_syntax

section \<open>Shared vocabulary of the kernel model\<close>

text \<open>
  This theory holds what every component of the model uses: the way a kernel function that does
  not return normally is written (\<open>None\<close>), the error numbers, the numeric constants that come from
  headers outside the repository, and generic lemmas on lists, maps and words.

  Kernel functions are state transformers of type \<open>'s \<Rightarrow> ('r \<times> 's) option\<close>. The result \<open>None\<close> means
  that the C function does not return normally from that state: a \<^verbatim>\<open>KASSERT\<close> fails (the kernel
  panics), an invalid pointer is dereferenced, or the processor waits for an interrupt that never
  comes. The error returns of the source are ordinary values: a negative \<open>int\<close>.
\<close>

named_theorems kdefs "definitions of kernel operations, to be unfolded one level"
named_theorems kinv "preservation lemmas of the kernel invariants"

type_synonym ptr = nat
type_synonym u32 = "32 word"

subsection \<open>Assertions\<close>

definition kassert :: "bool \<Rightarrow> unit option" where
  "kassert b = (if b then Some () else None)"

lemma kassert_bind [simp]: "Option.bind (kassert b) f = (if b then f () else None)"
  by (simp add: kassert_def)

lemma kassert_eq_Some [simp]: "kassert b = Some u \<longleftrightarrow> b"
  by (simp add: kassert_def)

lemmas bind_SomeD = Option.bind_eq_Some_conv [THEN iffD1]

subsection \<open>Error numbers and constants of headers outside the repository\<close>

text \<open>
  The sources use the names of \<^verbatim>\<open>errno.h\<close>; their numeric values are not in the repository, so
  they are a parameter (\<open>errno_of\<close>) of every definition that returns one. What the code relies on is
  that they are positive and distinct.
\<close>

datatype errno = EPERM | ENOENT | EINTR | EBADF | ECHILD | ENOMEM | EFAULT | EBUSY | EEXIST
  | ENODEV | ENOTDIR | EISDIR | EINVAL | EMFILE | ENAMETOOLONG | ENOTEMPTY | ENOTSUP | ENOSYS
  | ENXIO

definition errno_ok :: "(errno \<Rightarrow> int) \<Rightarrow> bool" where
  "errno_ok E \<longleftrightarrow> (\<forall>e. 0 < E e) \<and> inj E"

lemma errno_pos: "errno_ok E \<Longrightarrow> 0 < E e"
  by (simp add: errno_ok_def)

lemma errno_eq_iff: "errno_ok E \<Longrightarrow> E a = E b \<longleftrightarrow> a = b"
  by (auto simp: errno_ok_def inj_def)

text \<open>One numbering of the error names, used where a statement is evaluated on concrete values.\<close>

fun errno_std :: "errno \<Rightarrow> int" where
  "errno_std EPERM = 1"
| "errno_std ENOENT = 2"
| "errno_std EINTR = 4"
| "errno_std EBADF = 9"
| "errno_std ECHILD = 10"
| "errno_std ENOMEM = 12"
| "errno_std EFAULT = 14"
| "errno_std EBUSY = 16"
| "errno_std EEXIST = 17"
| "errno_std ENODEV = 19"
| "errno_std ENOTDIR = 20"
| "errno_std EISDIR = 21"
| "errno_std EINVAL = 22"
| "errno_std EMFILE = 24"
| "errno_std ENAMETOOLONG = 36"
| "errno_std ENOTEMPTY = 39"
| "errno_std ENOTSUP = 95"
| "errno_std ENOSYS = 38"
| "errno_std ENXIO = 6"

lemma errno_std_ok: "errno_ok errno_std"
proof -
  have "0 < errno_std e" for e by (cases e) simp_all
  moreover have "inj errno_std"
  proof (rule injI)
    fix a b assume "errno_std a = errno_std b"
    then show "a = b" by (cases a; cases b) simp_all
  qed
  ultimately show ?thesis by (simp add: errno_ok_def)
qed

subsection \<open>Lists\<close>

lemma butlast_last_snoc: "xs \<noteq> [] \<Longrightarrow> butlast xs @ [last xs] = xs"
  by simp

lemma distinct_last_notin_butlast: "distinct xs \<Longrightarrow> xs \<noteq> [] \<Longrightarrow> last xs \<notin> set (butlast xs)"
  by (metis append_butlast_last_id distinct_append disjoint_iff list.set_intros(1))

lemma set_butlast_distinct: "distinct xs \<Longrightarrow> xs \<noteq> [] \<Longrightarrow> set (butlast xs) = set xs - {last xs}"
  using append_butlast_last_id [of xs] distinct_last_notin_butlast [of xs]
  by (metis Diff_insert_absorb Un_insert_right insert_is_Un list.simps(15) set_append
      sup_bot_right list.set(1))

lemma length_remove1_mem: "x \<in> set xs \<Longrightarrow> length (remove1 x xs) = length xs - 1"
  by (simp add: length_remove1)

subsection \<open>Interfaces: step systems with an invariant\<close>

text \<open>
  A component whose operations are the steps of a relation provides this interface by proving that
  every step keeps its invariant; what holds along a run then follows once for all components.
\<close>

locale step_system =
  fixes step :: "'s \<Rightarrow> 's \<Rightarrow> bool" and inv :: "'s \<Rightarrow> bool"
  assumes step_inv: "inv s \<Longrightarrow> step s s' \<Longrightarrow> inv s'"
begin

lemma run_inv:
  assumes "step\<^sup>*\<^sup>* s s'" "inv s"
  shows "inv s'"
  using assms by (induction rule: rtranclp_induct) (auto intro: step_inv)

lemma run_shrinks:
  assumes "step\<^sup>*\<^sup>* s s'" "inv s" and f: "\<And>a b. inv a \<Longrightarrow> step a b \<Longrightarrow> f b \<subseteq> f a"
  shows "f s' \<subseteq> f s"
  using assms(1)
proof (induction rule: rtranclp_induct)
  case (step b c)
  with run_inv [OF step.hyps(1) assms(2)] f [of b c] show ?case by blast
qed simp

end

subsection \<open>Interfaces: first-in first-out queues\<close>

text \<open>
  The contract of a queue that lives inside a larger state: \<open>contents\<close> lists its elements in the
  order they will leave.
\<close>

locale fifo_queue =
  fixes enq :: "'x \<Rightarrow> 's \<Rightarrow> 's option" and deq :: "'s \<Rightarrow> ('x option \<times> 's) option"
    and contents :: "'s \<Rightarrow> 'x list" and inv :: "'s \<Rightarrow> bool" and idle :: "'x \<Rightarrow> 's \<Rightarrow> bool"
  assumes enq_idle: "inv s \<Longrightarrow> idle x s \<Longrightarrow> \<exists>s'. enq x s = Some s' \<and> contents s' = contents s @ [x] \<and> inv s'"
    and deq_empty: "contents s = [] \<Longrightarrow> deq s = Some (None, s)"
    and deq_first: "inv s \<Longrightarrow> contents s = x # xs \<Longrightarrow> \<exists>s'. deq s = Some (Some x, s') \<and> contents s' = xs \<and> inv s'"
begin

fun deq_n :: "nat \<Rightarrow> 's \<Rightarrow> ('x list \<times> 's) option" where
  "deq_n 0 s = Some ([], s)"
| "deq_n (Suc n) s = do {
     (x, s) \<leftarrow> deq s;
     y \<leftarrow> x;
     (ys, s) \<leftarrow> deq_n n s;
     Some (y # ys, s)
   }"

lemma deq_n_order:
  assumes "inv s" "contents s = xs @ ys"
  shows "\<exists>s'. deq_n (length xs) s = Some (xs, s') \<and> contents s' = ys \<and> inv s'"
  using assms
proof (induction xs arbitrary: s)
  case (Cons x xs)
  from deq_first [OF Cons.prems(1)] Cons.prems(2) obtain s1
    where s1: "deq s = Some (Some x, s1)" "contents s1 = xs @ ys" "inv s1" by auto
  from Cons.IH [OF s1(3,2)] s1(1) show ?case by auto
qed simp

lemma enq_then_served:
  assumes "inv s" "idle x s" "enq x s = Some s1"
  shows "\<exists>s2. deq_n (Suc (length (contents s))) s1 = Some (contents s @ [x], s2) \<and> inv s2"
proof -
  from enq_idle [OF assms(1,2)] assms(3) have "contents s1 = (contents s @ [x]) @ []" "inv s1" by auto
  from deq_n_order [OF this(2,1)] show ?thesis by auto
qed

end

end
