(* ===== verification/Sched.thy ===== *)
theory Sched
  imports Prelude
begin

section \<open>Thread queues and the scheduler\<close>

text \<open>
  The model of \<^verbatim>\<open>K1/sched.c\<close> and \<^verbatim>\<open>K1/sched_helper.c\<close>: the queue manipulation functions, the
  sleep and wake-up functions, cancellation, and the switch to the next runnable thread.

  A thread is a key of the store \<open>threads\<close>; a \<^verbatim>\<open>ktqueue_t\<close> is named by the structure it is embedded
  in (\<open>qaddr\<close>), and its intrusive list is the HOL list of the threads linked on it, head first. The
  link field \<open>kt_qlink\<close> records the list it is linked on, and is \<open>None\<close> when both link pointers are
  \<^verbatim>\<open>NULL\<close>.

  A function that switches to another thread is modelled up to the switch: the state it returns is
  the one in which the next thread runs. What the caller does when it is switched back in is a
  definition of its own (a resume point). The local variable \<^verbatim>\<open>ipl\<close> of a suspended
  \<^verbatim>\<open>sched_switch\<close> call lives on the kernel stack of its thread, here the field \<open>kt_stk_ipl\<close>.
\<close>

subsection \<open>State\<close>

type_synonym tid = ptr

datatype kthread_state = KT_NO_STATE | KT_RUN | KT_SLEEP | KT_SLEEP_CANCELLABLE | KT_EXITED

datatype qaddr = Kt_runq | P_wait ptr | Km_waitq ptr | Pf_waitq ptr | Vn_waitq ptr
  | Alloc_waitq | Pageoutd_waitq

datatype ipl_t = IPL_LOW | IPL_HIGH | IPL_DEVICE "8 word"

record context_t =
  c_eip :: ptr
  c_esp :: u32
  c_pdptr :: "ptr option"

record kthread =
  kt_kstack :: "ptr option"
  kt_ctx :: context_t
  kt_retval :: int
  kt_errno :: int
  kt_proc :: "ptr option"
  kt_cancelled :: bool
  kt_wchan :: "qaddr option"
  kt_state :: kthread_state
  kt_qlink :: "qaddr option"
  kt_plink :: "ptr option"
  kt_stk_ipl :: "ipl_t option"

record ktqueue =
  tq_list :: "tid list"
  tq_size :: int

record sched_st =
  threads :: "tid \<Rightarrow> kthread option"
  queues :: "qaddr \<Rightarrow> ktqueue"
  curthr :: "tid option"
  curproc :: "ptr option"
  ipl :: ipl_t

definition thr_upd :: "tid \<Rightarrow> (kthread \<Rightarrow> kthread) \<Rightarrow> 'a sched_st_scheme \<Rightarrow> 'a sched_st_scheme option" where
  "thr_upd t f s = do {
     thr \<leftarrow> threads s t;
     Some (s\<lparr>threads := (threads s)(t \<mapsto> f thr)\<rparr>)
   }"

subsection \<open>Queue manipulation functions\<close>

definition sched_queue_init :: "qaddr \<Rightarrow> 'a sched_st_scheme \<Rightarrow> 'a sched_st_scheme" where
  "sched_queue_init q s = s\<lparr>queues := (queues s)(q := \<lparr>tq_list = [], tq_size = 0\<rparr>)\<rparr>"

definition sched_init :: "'a sched_st_scheme \<Rightarrow> 'a sched_st_scheme" where
  "sched_init s = sched_queue_init Kt_runq s"

definition sched_queue_empty :: "qaddr \<Rightarrow> 'a sched_st_scheme \<Rightarrow> bool" where
  "sched_queue_empty q s \<longleftrightarrow> tq_list (queues s q) = []"

definition ktqueue_enqueue :: "qaddr \<Rightarrow> tid \<Rightarrow> 'a sched_st_scheme \<Rightarrow> 'a sched_st_scheme option" where
  "ktqueue_enqueue q t s = do {
     thr \<leftarrow> threads s t;
     _ \<leftarrow> kassert (kt_wchan thr = None);
     let qu = queues s q;
     Some (s\<lparr>queues := (queues s)(q := \<lparr>tq_list = t # tq_list qu, tq_size = tq_size qu + 1\<rparr>),
             threads := (threads s)(t \<mapsto> thr\<lparr>kt_qlink := Some q, kt_wchan := Some q\<rparr>)\<rparr>)
   }"

definition ktqueue_dequeue :: "qaddr \<Rightarrow> 'a sched_st_scheme \<Rightarrow> (tid option \<times> 'a sched_st_scheme) option" where
  "ktqueue_dequeue q s =
     (let qu = queues s q in
      if tq_list qu = [] then Some (None, s)
      else let t = last (tq_list qu) in do {
        thr \<leftarrow> threads s t;
        Some (Some t,
          s\<lparr>queues := (queues s)(q := \<lparr>tq_list = butlast (tq_list qu), tq_size = tq_size qu - 1\<rparr>),
            threads := (threads s)(t \<mapsto> thr\<lparr>kt_qlink := None, kt_wchan := None\<rparr>)\<rparr>)
      })"

text \<open>
  \<^verbatim>\<open>list_remove\<close> unlinks the thread from the list its link is on, whichever queue was passed; the
  size of the queue that was passed is decremented.
\<close>

definition ktqueue_remove :: "qaddr \<Rightarrow> tid \<Rightarrow> 'a sched_st_scheme \<Rightarrow> 'a sched_st_scheme option" where
  "ktqueue_remove q t s = do {
     thr \<leftarrow> threads s t;
     lq \<leftarrow> kt_qlink thr;
     let qs = (queues s)(lq := (queues s lq)\<lparr>tq_list := remove1 t (tq_list (queues s lq))\<rparr>);
     Some (s\<lparr>queues := qs(q := (qs q)\<lparr>tq_size := tq_size (qs q) - 1\<rparr>),
             threads := (threads s)(t \<mapsto> thr\<lparr>kt_qlink := None, kt_wchan := None\<rparr>)\<rparr>)
   }"

subsection \<open>Making a thread runnable, and switching\<close>

definition sched_make_runnable :: "tid \<Rightarrow> 'a sched_st_scheme \<Rightarrow> 'a sched_st_scheme option" where
  "sched_make_runnable t s = do {
     thr \<leftarrow> threads s t;
     _ \<leftarrow> kassert (kt_wchan thr \<noteq> Some Kt_runq);
     let old = ipl s;
     let s = s\<lparr>ipl := IPL_HIGH\<rparr>;
     s \<leftarrow> thr_upd t (\<lambda>k. k\<lparr>kt_state := KT_RUN\<rparr>) s;
     s \<leftarrow> ktqueue_enqueue Kt_runq t s;
     Some (s\<lparr>ipl := old\<rparr>)
   }"

text \<open>
  The waiting loop of \<^verbatim>\<open>sched_switch\<close>. The interrupts that arrive while the processor waits are the
  argument \<open>irqs\<close>: each is the effect of one \<^verbatim>\<open>intr_wait\<close> call, that is of the handlers that run
  in it (device code outside the repository). \<open>None\<close> when no further interrupt arrives.
\<close>

fun sched_switch_wait ::
  "('a sched_st_scheme \<Rightarrow> 'a sched_st_scheme option) list \<Rightarrow> 'a sched_st_scheme \<Rightarrow> 'a sched_st_scheme option" where
  "sched_switch_wait irqs s =
     (let s = s\<lparr>ipl := IPL_HIGH\<rparr>;
          queueEmpty = sched_queue_empty Kt_runq s;
          s = s\<lparr>ipl := IPL_LOW\<rparr>
      in if \<not> queueEmpty then Some s
         else case irqs of
             [] \<Rightarrow> None
           | intr_wait # irqs' \<Rightarrow> do { s \<leftarrow> intr_wait s; sched_switch_wait irqs' s })"

declare sched_switch_wait.simps [simp del]

definition sched_switch ::
  "('a sched_st_scheme \<Rightarrow> 'a sched_st_scheme option) list \<Rightarrow> 'a sched_st_scheme \<Rightarrow> 'a sched_st_scheme option" where
  "sched_switch irqs s = do {
     let old = ipl s;
     s \<leftarrow> sched_switch_wait irqs s;
     (threadToRun, s) \<leftarrow> ktqueue_dequeue Kt_runq (s\<lparr>ipl := IPL_HIGH\<rparr>);
     oldthr \<leftarrow> curthr s;
     newthr \<leftarrow> threadToRun;
     s \<leftarrow> thr_upd oldthr (\<lambda>k. k\<lparr>kt_stk_ipl := Some old\<rparr>) s;
     new \<leftarrow> threads s newthr;
     let s = s\<lparr>curthr := Some newthr, curproc := kt_proc new\<rparr>;
     \<comment> \<open>\<^verbatim>\<open>context_switch\<close>: from here on the new thread runs, at the end of its own call of
        \<^verbatim>\<open>sched_switch\<close> if it has one pending\<close>
     Some (case kt_stk_ipl new of
         Some i \<Rightarrow> s\<lparr>ipl := i, threads := (threads s)(newthr \<mapsto> new\<lparr>kt_stk_ipl := None\<rparr>)\<rparr>
       | None \<Rightarrow> s)
   }"

subsection \<open>Sleeping, waking up, cancelling\<close>

text \<open>How a call that may block ends: it returns, or its thread has been switched away.\<close>

datatype 'r outcome = Returned 'r | Blocked

definition sched_sleep_on ::
  "('a sched_st_scheme \<Rightarrow> 'a sched_st_scheme option) list \<Rightarrow> qaddr \<Rightarrow> 'a sched_st_scheme \<Rightarrow> 'a sched_st_scheme option" where
  "sched_sleep_on irqs q s = do {
     t \<leftarrow> curthr s;
     s \<leftarrow> thr_upd t (\<lambda>k. k\<lparr>kt_state := KT_SLEEP\<rparr>) s;
     s \<leftarrow> ktqueue_enqueue q t s;
     sched_switch irqs s
   }"

definition sched_cancellable_sleep_on ::
  "(errno \<Rightarrow> int) \<Rightarrow> ('a sched_st_scheme \<Rightarrow> 'a sched_st_scheme option) list \<Rightarrow> qaddr \<Rightarrow> 'a sched_st_scheme
    \<Rightarrow> (int outcome \<times> 'a sched_st_scheme) option" where
  "sched_cancellable_sleep_on E irqs q s = do {
     t \<leftarrow> curthr s;
     thr \<leftarrow> threads s t;
     if kt_cancelled thr then Some (Returned (- E EINTR), s)
     else do {
       s \<leftarrow> thr_upd t (\<lambda>k. k\<lparr>kt_state := KT_SLEEP_CANCELLABLE\<rparr>) s;
       s \<leftarrow> ktqueue_enqueue q t s;
       s \<leftarrow> sched_switch irqs s;
       Some (Blocked, s)
     }
   }"

text \<open>The rest of \<^verbatim>\<open>sched_cancellable_sleep_on\<close>, run when its thread is switched back in.\<close>

definition sched_cancellable_sleep_on_resume :: "(errno \<Rightarrow> int) \<Rightarrow> 'a sched_st_scheme \<Rightarrow> int option" where
  "sched_cancellable_sleep_on_resume E s = do {
     t \<leftarrow> curthr s;
     thr \<leftarrow> threads s t;
     Some (if kt_cancelled thr then - E EINTR else 0)
   }"

definition sched_cancel :: "tid \<Rightarrow> 'a sched_st_scheme \<Rightarrow> 'a sched_st_scheme option" where
  "sched_cancel t s = do {
     thr \<leftarrow> threads s t;
     if kt_state thr \<noteq> KT_NO_STATE \<or> kt_state thr \<noteq> KT_EXITED then do {
       s \<leftarrow> thr_upd t (\<lambda>k. k\<lparr>kt_cancelled := True\<rparr>) s;
       if kt_state thr = KT_SLEEP_CANCELLABLE then do {
         q \<leftarrow> kt_wchan thr;
         s \<leftarrow> ktqueue_remove q t s;
         sched_make_runnable t s
       } else Some s
     } else Some s
   }"

definition sched_wakeup_on :: "qaddr \<Rightarrow> 'a sched_st_scheme \<Rightarrow> (tid option \<times> 'a sched_st_scheme) option" where
  "sched_wakeup_on q s =
     (if \<not> sched_queue_empty q s then do {
        (kthread, s) \<leftarrow> ktqueue_dequeue q s;
        t \<leftarrow> kthread;
        thr \<leftarrow> threads s t;
        _ \<leftarrow> kassert (kt_state thr = KT_SLEEP \<or> kt_state thr = KT_SLEEP_CANCELLABLE);
        s \<leftarrow> sched_make_runnable t s;
        Some (Some t, s)
      } else Some (None, s))"

text \<open>The loop of \<^verbatim>\<open>sched_broadcast_on\<close> does not end when it is called on the run queue itself.\<close>

partial_function (option) sched_broadcast_on :: "qaddr \<Rightarrow> 'a sched_st_scheme \<Rightarrow> 'a sched_st_scheme option" where
  "sched_broadcast_on q s =
     (if \<not> sched_queue_empty q s then do {
        (kthread, s) \<leftarrow> ktqueue_dequeue q s;
        t \<leftarrow> kthread;
        s \<leftarrow> sched_make_runnable t s;
        sched_broadcast_on q s
      } else Some s)"

subsection \<open>Well-formed queues\<close>

text \<open>
  The structural invariant relates the thread store and the queues: sizes are exact, no thread is
  linked twice, a thread is on the list of a queue exactly when its \<open>kt_wchan\<close> names that queue (so
  it is on at most one), and the link field agrees with \<open>kt_wchan\<close>.
\<close>

definition qwf :: "(tid \<Rightarrow> kthread option) \<Rightarrow> (qaddr \<Rightarrow> ktqueue) \<Rightarrow> bool" where
  "qwf T Q \<longleftrightarrow>
     (\<forall>q. tq_size (Q q) = int (length (tq_list (Q q)))) \<and>
     (\<forall>q. distinct (tq_list (Q q))) \<and>
     (\<forall>q t. t \<in> set (tq_list (Q q)) \<longleftrightarrow> (\<exists>k. T t = Some k \<and> kt_wchan k = Some q)) \<and>
     (\<forall>t k. T t = Some k \<longrightarrow> kt_qlink k = kt_wchan k)"

text \<open>The state field of a thread agrees with the queue it is on.\<close>

definition state_ok :: "kthread \<Rightarrow> bool" where
  "state_ok k \<longleftrightarrow> (case kt_wchan k of
       None \<Rightarrow> kt_state k \<noteq> KT_SLEEP \<and> kt_state k \<noteq> KT_SLEEP_CANCELLABLE
     | Some q \<Rightarrow> if q = Kt_runq then kt_state k = KT_RUN
                 else kt_state k = KT_SLEEP \<or> kt_state k = KT_SLEEP_CANCELLABLE)"

definition twf :: "(tid \<Rightarrow> kthread option) \<Rightarrow> bool" where
  "twf T \<longleftrightarrow> (\<forall>t k. T t = Some k \<longrightarrow> state_ok k)"

definition sched_inv :: "'a sched_st_scheme \<Rightarrow> bool" where
  "sched_inv s \<longleftrightarrow> qwf (threads s) (queues s) \<and> twf (threads s)"

text \<open>The current thread runs: it is on no queue, and \<open>curproc\<close> is its process.\<close>

definition running :: "'a sched_st_scheme \<Rightarrow> bool" where
  "running s \<longleftrightarrow> (case curthr s of None \<Rightarrow> False | Some t \<Rightarrow>
     (case threads s t of None \<Rightarrow> False
      | Some k \<Rightarrow> kt_wchan k = None \<and> kt_state k = KT_RUN \<and> curproc s = kt_proc k))"

lemma runningE [elim?]:
  assumes "running s"
  obtains t k where "curthr s = Some t" "threads s t = Some k" "kt_wchan k = None"
    "kt_state k = KT_RUN" "curproc s = kt_proc k"
  using assms by (auto simp: running_def split: option.splits)

lemma qwf_queue:
  assumes "qwf T Q"
  shows "tq_size (Q q) = int (length (tq_list (Q q)))" "distinct (tq_list (Q q))"
  using assms by (auto simp: qwf_def)

lemma qwf_mem: "qwf T Q \<Longrightarrow> t \<in> set (tq_list (Q q)) \<longleftrightarrow> (\<exists>k. T t = Some k \<and> kt_wchan k = Some q)"
  by (simp add: qwf_def)

lemma qwf_link: "qwf T Q \<Longrightarrow> T t = Some k \<Longrightarrow> kt_qlink k = kt_wchan k"
  by (simp add: qwf_def)

lemma qwf_last:
  assumes "qwf T Q" "tq_list (Q q) \<noteq> []"
  obtains k where "T (last (tq_list (Q q))) = Some k" "kt_wchan k = Some q"
proof -
  have "last (tq_list (Q q)) \<in> set (tq_list (Q q))"
    using assms(2) by (rule last_in_set)
  then show thesis
    using that qwf_mem [OF assms(1)] by blast
qed

lemma qwfI:
  assumes "\<And>q. tq_size (Q q) = int (length (tq_list (Q q)))" "\<And>q. distinct (tq_list (Q q))"
    "\<And>q t. t \<in> set (tq_list (Q q)) \<longleftrightarrow> (\<exists>k. T t = Some k \<and> kt_wchan k = Some q)"
    "\<And>t k. T t = Some k \<Longrightarrow> kt_qlink k = kt_wchan k"
  shows "qwf T Q"
  unfolding qwf_def using assms by blast

text \<open>
  Adding or removing one thread keeps the queues well-formed. Both are instances of this lemma: the
  list of one queue and the thread store change at one thread only.
\<close>

lemma qwf_change:
  assumes wf: "qwf T Q" and sz: "n = int (length xs)" and d: "distinct xs"
    and k': "kt_qlink k' = kt_wchan k'" "t \<in> set xs \<longleftrightarrow> kt_wchan k' = Some q"
    and rest: "\<And>u. u \<noteq> t \<Longrightarrow> u \<in> set xs \<longleftrightarrow> u \<in> set (tq_list (Q q))"
    and other: "\<And>q'. q' \<noteq> q \<Longrightarrow> t \<in> set (tq_list (Q q')) \<longleftrightarrow> kt_wchan k' = Some q'"
  shows "qwf (T(t \<mapsto> k')) (Q(q := \<lparr>tq_list = xs, tq_size = n\<rparr>))"
proof (rule qwfI)
  fix q' u
  have m: "v \<in> set (tq_list (Q p)) \<longleftrightarrow> (\<exists>k. T v = Some k \<and> kt_wchan k = Some p)" for p v
    by (rule qwf_mem [OF wf])
  show "u \<in> set (tq_list ((Q(q := \<lparr>tq_list = xs, tq_size = n\<rparr>)) q')) \<longleftrightarrow>
      (\<exists>k. (T(t \<mapsto> k')) u = Some k \<and> kt_wchan k = Some q')"
    using k'(2) rest [of u] other [of q'] m [of u q'] by (cases "u = t"; cases "q' = q") simp_all
next
  fix u k assume "(T(t \<mapsto> k')) u = Some k"
  then show "kt_qlink k = kt_wchan k"
    using k'(1) qwf_link [OF wf, of u k] by (simp split: if_splits)
qed (simp_all add: qwf_queue [OF wf] sz d)

lemma qwf_enqueue [kinv]:
  assumes wf: "qwf T Q" and t: "T t = Some k" "kt_wchan k = None"
    and k': "kt_wchan k' = Some q" "kt_qlink k' = Some q"
  shows "qwf (T(t \<mapsto> k')) (Q(q := \<lparr>tq_list = t # tq_list (Q q), tq_size = tq_size (Q q) + 1\<rparr>))"
proof -
  have "t \<notin> set (tq_list (Q q'))" for q'
    using t by (simp add: qwf_mem [OF wf])
  then show ?thesis
    by (intro qwf_change [OF wf]) (simp_all add: k' qwf_queue [OF wf])
qed

lemma qwf_dequeue [kinv]:
  assumes wf: "qwf T Q" and ne: "tq_list (Q q) \<noteq> []"
    and k': "kt_wchan k' = None" "kt_qlink k' = None"
  shows "qwf (T(last (tq_list (Q q)) \<mapsto> k'))
     (Q(q := \<lparr>tq_list = butlast (tq_list (Q q)), tq_size = tq_size (Q q) - 1\<rparr>))"
proof -
  let ?l = "last (tq_list (Q q))"
  have d: "distinct (tq_list (Q q))" by (rule qwf_queue [OF wf])
  obtain k where k: "T ?l = Some k" "kt_wchan k = Some q" by (rule qwf_last [OF wf ne])
  have other: "?l \<notin> set (tq_list (Q q'))" if "q' \<noteq> q" for q'
    using k that by (simp add: qwf_mem [OF wf])
  have "0 < length (tq_list (Q q))" using ne by simp
  moreover have "length (butlast (tq_list (Q q))) = length (tq_list (Q q)) - 1" by simp
  ultimately have sz: "tq_size (Q q) - 1 = int (length (butlast (tq_list (Q q))))"
    using qwf_queue(1) [OF wf, of q] by linarith
  show ?thesis
    by (intro qwf_change [OF wf sz]) (simp_all add: k' other d distinct_butlast set_butlast_distinct [OF d ne])
qed

lemma qwf_remove [kinv]:
  assumes wf: "qwf T Q" and t: "T t = Some k" "kt_wchan k = Some q"
    and k': "kt_wchan k' = None" "kt_qlink k' = None"
  shows "qwf (T(t \<mapsto> k'))
     (Q(q := \<lparr>tq_list = remove1 t (tq_list (Q q)), tq_size = tq_size (Q q) - 1\<rparr>))"
proof -
  have d: "distinct (tq_list (Q q))" by (rule qwf_queue [OF wf])
  have m: "t \<in> set (tq_list (Q q))" using t by (simp add: qwf_mem [OF wf])
  have other: "t \<notin> set (tq_list (Q q'))" if "q' \<noteq> q" for q'
    using t that by (simp add: qwf_mem [OF wf])
  have "0 < length (tq_list (Q q))" using m by (rule length_pos_if_in_set)
  moreover have "length (remove1 t (tq_list (Q q))) = length (tq_list (Q q)) - 1"
    using m by (rule length_remove1_mem)
  ultimately have sz: "tq_size (Q q) - 1 = int (length (remove1 t (tq_list (Q q))))"
    using qwf_queue(1) [OF wf, of q] by linarith
  show ?thesis
    by (intro qwf_change [OF wf sz]) (simp_all add: k' other d)
qed

lemma qwf_upd [kinv]:
  assumes wf: "qwf T Q" and t: "T t = Some k"
    and k': "kt_wchan k' = kt_wchan k" "kt_qlink k' = kt_qlink k"
  shows "qwf (T(t \<mapsto> k')) Q"
  using wf t k' by (auto simp: qwf_def)

lemma qwf_fresh [kinv]:
  assumes wf: "qwf T Q" and t: "T t = None" and k': "kt_wchan k' = None" "kt_qlink k' = None"
  shows "qwf (T(t \<mapsto> k')) Q"
proof -
  have "t \<notin> set (tq_list (Q q))" for q using t by (simp add: qwf_mem [OF wf])
  then show ?thesis using wf k' by (auto simp: qwf_def)
qed

lemma qwf_free [kinv]:
  assumes wf: "qwf T Q" and t: "T t = Some k" and k: "kt_wchan k = None"
  shows "qwf (T(t := None)) Q"
proof -
  have "t \<notin> set (tq_list (Q q))" for q using t k by (simp add: qwf_mem [OF wf])
  then show ?thesis using wf by (auto simp: qwf_def)
qed

lemma twf_upd [kinv]: "twf T \<Longrightarrow> state_ok k' \<Longrightarrow> twf (T(t \<mapsto> k'))"
  by (simp add: twf_def)

lemma twf_free [kinv]: "twf T \<Longrightarrow> twf (T(t := None))"
  by (simp add: twf_def)

lemma twfD: "twf T \<Longrightarrow> T t = Some k \<Longrightarrow> state_ok k"
  by (simp add: twf_def)

lemma state_ok_None: "kt_wchan k = None \<Longrightarrow>
    state_ok k \<longleftrightarrow> kt_state k \<noteq> KT_SLEEP \<and> kt_state k \<noteq> KT_SLEEP_CANCELLABLE"
  by (simp add: state_ok_def)

lemma state_ok_runq: "kt_wchan k = Some Kt_runq \<Longrightarrow> state_ok k \<longleftrightarrow> kt_state k = KT_RUN"
  by (simp add: state_ok_def)

lemma state_ok_waitq: "kt_wchan k = Some q \<Longrightarrow> q \<noteq> Kt_runq \<Longrightarrow>
    state_ok k \<longleftrightarrow> kt_state k = KT_SLEEP \<or> kt_state k = KT_SLEEP_CANCELLABLE"
  by (simp add: state_ok_def)

lemmas state_ok_simps = state_ok_None state_ok_runq state_ok_waitq

subsection \<open>What each operation does to a well-formed state\<close>

definition on_runq :: "kthread \<Rightarrow> kthread" where
  "on_runq k = k\<lparr>kt_state := KT_RUN, kt_qlink := Some Kt_runq, kt_wchan := Some Kt_runq\<rparr>"

definition push_runq :: "tid \<Rightarrow> kthread \<Rightarrow> 'a sched_st_scheme \<Rightarrow> 'a sched_st_scheme" where
  "push_runq t k s =
     s\<lparr>queues := (queues s)(Kt_runq := \<lparr>tq_list = t # tq_list (queues s Kt_runq),
                                       tq_size = tq_size (queues s Kt_runq) + 1\<rparr>),
       threads := (threads s)(t \<mapsto> on_runq k)\<rparr>"

lemma on_runq_simps [simp]:
  "kt_wchan (on_runq k) = Some Kt_runq" "kt_qlink (on_runq k) = Some Kt_runq"
  "kt_state (on_runq k) = KT_RUN" "kt_cancelled (on_runq k) = kt_cancelled k"
  "kt_proc (on_runq k) = kt_proc k" "kt_retval (on_runq k) = kt_retval k"
  "kt_stk_ipl (on_runq k) = kt_stk_ipl k" "kt_plink (on_runq k) = kt_plink k"
  "kt_kstack (on_runq k) = kt_kstack k"
  by (simp_all add: on_runq_def)

lemma sched_make_runnable_eq:
  assumes "threads s t = Some k" "kt_wchan k = None"
  shows "sched_make_runnable t s = Some (push_runq t k s)"
  using assms
  by (simp add: sched_make_runnable_def thr_upd_def ktqueue_enqueue_def push_runq_def on_runq_def
      Let_def)

lemma push_runq_inv [kinv]:
  assumes "qwf (threads s) (queues s)" "twf ((threads s)(t := None))"
    "threads s t = Some k" "kt_wchan k = None"
  shows "sched_inv (push_runq t k s)"
proof -
  have "qwf (threads (push_runq t k s)) (queues (push_runq t k s))"
    using qwf_enqueue [OF assms(1,3,4), of "on_runq k" Kt_runq] by (simp add: push_runq_def)
  moreover have "twf (threads (push_runq t k s))"
    using twf_upd [OF assms(2), of "on_runq k" t] by (simp add: push_runq_def state_ok_simps)
  ultimately show ?thesis by (simp add: sched_inv_def)
qed

lemma push_runq_frame [simp]:
  "curthr (push_runq t k s) = curthr s" "curproc (push_runq t k s) = curproc s"
  "ipl (push_runq t k s) = ipl s" "sched_st.more (push_runq t k s) = sched_st.more s"
  "threads (push_runq t k s) = (threads s)(t \<mapsto> on_runq k)"
  "queues (push_runq t k s) = (queues s)(Kt_runq := \<lparr>tq_list = t # tq_list (queues s Kt_runq),
       tq_size = tq_size (queues s Kt_runq) + 1\<rparr>)"
  by (simp_all add: push_runq_def)

definition pop_queue :: "qaddr \<Rightarrow> tid \<Rightarrow> kthread \<Rightarrow> 'a sched_st_scheme \<Rightarrow> 'a sched_st_scheme" where
  "pop_queue q t k s =
     s\<lparr>queues := (queues s)(q := \<lparr>tq_list = butlast (tq_list (queues s q)),
                                  tq_size = tq_size (queues s q) - 1\<rparr>),
       threads := (threads s)(t \<mapsto> k\<lparr>kt_qlink := None, kt_wchan := None\<rparr>)\<rparr>"

lemma pop_queue_frame [simp]:
  "curthr (pop_queue q t k s) = curthr s" "curproc (pop_queue q t k s) = curproc s"
  "ipl (pop_queue q t k s) = ipl s" "sched_st.more (pop_queue q t k s) = sched_st.more s"
  "threads (pop_queue q t k s) = (threads s)(t \<mapsto> k\<lparr>kt_qlink := None, kt_wchan := None\<rparr>)"
  "queues (pop_queue q t k s) = (queues s)(q := \<lparr>tq_list = butlast (tq_list (queues s q)),
       tq_size = tq_size (queues s q) - 1\<rparr>)"
  by (simp_all add: pop_queue_def)

lemma ktqueue_dequeue_eq:
  assumes "tq_list (queues s q) \<noteq> []" "threads s (last (tq_list (queues s q))) = Some k"
  shows "ktqueue_dequeue q s =
     Some (Some (last (tq_list (queues s q))), pop_queue q (last (tq_list (queues s q))) k s)"
  using assms by (simp add: ktqueue_dequeue_def pop_queue_def Let_def)

lemma pop_queue_qwf [kinv]:
  assumes "qwf (threads s) (queues s)" "tq_list (queues s q) \<noteq> []" "t = last (tq_list (queues s q))"
  shows "qwf (threads (pop_queue q t k s)) (queues (pop_queue q t k s))"
  using qwf_dequeue [OF assms(1,2), of "k\<lparr>kt_qlink := None, kt_wchan := None\<rparr>"] assms(3) by simp

text \<open>Waking up the longest waiting thread of a queue.\<close>

definition wake_one :: "qaddr \<Rightarrow> tid \<Rightarrow> kthread \<Rightarrow> 'a sched_st_scheme \<Rightarrow> 'a sched_st_scheme" where
  "wake_one q t k s = push_runq t (k\<lparr>kt_qlink := None, kt_wchan := None\<rparr>) (pop_queue q t k s)"

lemma on_runq_clear [simp]: "on_runq (k\<lparr>kt_qlink := a, kt_wchan := b\<rparr>) = on_runq k"
  by (simp add: on_runq_def)

lemma wake_one_frame [simp]:
  "curthr (wake_one q t k s) = curthr s" "curproc (wake_one q t k s) = curproc s"
  "ipl (wake_one q t k s) = ipl s" "sched_st.more (wake_one q t k s) = sched_st.more s"
  "threads (wake_one q t k s) = (threads s)(t \<mapsto> on_runq k)"
  by (simp_all add: wake_one_def)

lemma wake_one_queues:
  "q \<noteq> Kt_runq \<Longrightarrow> queues (wake_one q t k s) = (queues s)
     (q := \<lparr>tq_list = butlast (tq_list (queues s q)), tq_size = tq_size (queues s q) - 1\<rparr>,
      Kt_runq := \<lparr>tq_list = t # tq_list (queues s Kt_runq), tq_size = tq_size (queues s Kt_runq) + 1\<rparr>)"
  by (simp add: wake_one_def)

lemma wake_one_inv [kinv]:
  assumes inv: "sched_inv s" and ne: "tq_list (queues s q) \<noteq> []"
    and t: "t = last (tq_list (queues s q))" "threads s t = Some k"
  shows "sched_inv (wake_one q t k s)"
proof -
  let ?s = "pop_queue q t k s"
  have "qwf (threads ?s) (queues ?s)"
    using pop_queue_qwf [OF _ ne t(1)] inv by (simp only: sched_inv_def)
  moreover have "twf ((threads ?s)(t := None))"
    using inv by (auto simp: sched_inv_def twf_def)
  ultimately show ?thesis
    unfolding wake_one_def by (rule push_runq_inv) simp_all
qed

lemma sched_wakeup_on_empty: "tq_list (queues s q) = [] \<Longrightarrow> sched_wakeup_on q s = Some (None, s)"
  by (simp add: sched_wakeup_on_def sched_queue_empty_def)

lemma sched_inv_last:
  assumes "sched_inv s" "tq_list (queues s q) \<noteq> []"
  obtains k where "threads s (last (tq_list (queues s q))) = Some k" "kt_wchan k = Some q" "state_ok k"
proof -
  from assms(1) have wf: "qwf (threads s) (queues s)" and tw: "twf (threads s)"
    by (simp_all add: sched_inv_def)
  from qwf_last [OF wf assms(2)] obtain k
    where "threads s (last (tq_list (queues s q))) = Some k" "kt_wchan k = Some q" by blast
  with that twfD [OF tw] show thesis by blast
qed

lemma sched_wakeup_on_eq:
  assumes inv: "sched_inv s" and q: "q \<noteq> Kt_runq" and ne: "tq_list (queues s q) \<noteq> []"
    and t: "t = last (tq_list (queues s q))" "threads s t = Some k"
  shows "sched_wakeup_on q s = Some (Some t, wake_one q t k s)"
proof -
  from sched_inv_last [OF inv ne] t have k: "kt_wchan k = Some q" "state_ok k"
    by (metis option.inject)+
  then have "kt_state k = KT_SLEEP \<or> kt_state k = KT_SLEEP_CANCELLABLE"
    using q by (simp add: state_ok_simps)
  then show ?thesis
    using ne t by (simp add: sched_wakeup_on_def sched_queue_empty_def ktqueue_dequeue_eq
        sched_make_runnable_eq wake_one_def)
qed

text \<open>Waking up every thread of a queue: the run queue grows by the whole list, in order.\<close>

lemma sched_broadcast_on_step:
  assumes inv: "sched_inv s" and ne: "tq_list (queues s q) \<noteq> []"
    and t: "t = last (tq_list (queues s q))" "threads s t = Some k"
  shows "sched_broadcast_on q s = sched_broadcast_on q (wake_one q t k s)"
  using ne t by (subst sched_broadcast_on.simps)
    (simp add: sched_queue_empty_def ktqueue_dequeue_eq sched_make_runnable_eq wake_one_def)

definition wake_all :: "qaddr \<Rightarrow> 'a sched_st_scheme \<Rightarrow> 'a sched_st_scheme" where
  "wake_all q s =
     (let xs = tq_list (queues s q); r = queues s Kt_runq in
      s\<lparr>queues := (queues s)(q := \<lparr>tq_list = [], tq_size = tq_size (queues s q) - int (length xs)\<rparr>,
             Kt_runq := \<lparr>tq_list = xs @ tq_list r, tq_size = tq_size r + int (length xs)\<rparr>),
        threads := (\<lambda>t. if t \<in> set xs then map_option on_runq (threads s t) else threads s t)\<rparr>)"

lemma sched_broadcast_on_eq:
  assumes "sched_inv s" "q \<noteq> Kt_runq"
  shows "sched_broadcast_on q s = Some (wake_all q s) \<and> sched_inv (wake_all q s)"
  using assms(1)
proof (induction "length (tq_list (queues s q))" arbitrary: s)
  case 0
  then have "wake_all q s = s"
    using assms(2) by (cases s) (auto simp: wake_all_def Let_def fun_eq_iff)
  with 0 show ?case
    by (subst sched_broadcast_on.simps) (simp add: sched_queue_empty_def)
next
  case (Suc n)
  let ?xs = "tq_list (queues s q)" and ?t = "last (tq_list (queues s q))"
  from Suc.hyps(2) have ne: "?xs \<noteq> []" by auto
  from sched_inv_last [OF Suc.prems ne] obtain k where k: "threads s ?t = Some k" by blast
  let ?s = "wake_one q ?t k s"
  have inv: "sched_inv ?s" by (rule wake_one_inv [OF Suc.prems ne refl k])
  have len: "n = length (tq_list (queues ?s q))"
    using Suc.hyps(2) assms(2) by (simp add: wake_one_queues)
  have xs: "butlast ?xs @ [?t] = ?xs" using ne by simp
  have d: "?t \<notin> set (butlast ?xs)"
    using distinct_last_notin_butlast ne qwf_queue(2) Suc.prems by (auto simp: sched_inv_def)
  have sx: "set ?xs = insert ?t (set (butlast ?xs))"
    using arg_cong [OF xs, of set] by simp
  have ln: "length ?xs = Suc (length (butlast ?xs))"
    using arg_cong [OF xs, of length] by simp
  have eq: "wake_all q ?s = wake_all q s"
  proof (rule sched_st.equality)
    show "queues (wake_all q ?s) = queues (wake_all q s)"
      using assms(2) xs ln
      by (simp add: wake_all_def Let_def wake_one_queues fun_eq_iff)
    show "threads (wake_all q ?s) = threads (wake_all q s)"
      using assms(2) k d sx by (auto simp: wake_all_def Let_def wake_one_queues fun_eq_iff)
  qed (simp_all add: wake_all_def Let_def)
  have "sched_broadcast_on q s = sched_broadcast_on q ?s"
    by (rule sched_broadcast_on_step [OF Suc.prems ne refl k])
  with Suc.hyps(1) [OF len inv] eq show ?case by simp
qed

text \<open>Cancelling a thread.\<close>

lemma ktqueue_eta: "(x :: ktqueue)\<lparr>tq_list := a, tq_size := b\<rparr> = \<lparr>tq_list = a, tq_size = b\<rparr>"
  by (cases x) simp

definition take_off :: "qaddr \<Rightarrow> tid \<Rightarrow> kthread \<Rightarrow> 'a sched_st_scheme \<Rightarrow> 'a sched_st_scheme" where
  "take_off q t k s =
     s\<lparr>queues := (queues s)(q := \<lparr>tq_list = remove1 t (tq_list (queues s q)),
                                  tq_size = tq_size (queues s q) - 1\<rparr>),
       threads := (threads s)(t \<mapsto> k\<lparr>kt_qlink := None, kt_wchan := None\<rparr>)\<rparr>"

definition cancel_st :: "tid \<Rightarrow> kthread \<Rightarrow> 'a sched_st_scheme \<Rightarrow> 'a sched_st_scheme" where
  "cancel_st t k s =
     (if kt_state k = KT_SLEEP_CANCELLABLE
      then push_runq t (k\<lparr>kt_cancelled := True, kt_qlink := None, kt_wchan := None\<rparr>)
             (take_off (the (kt_wchan k)) t (k\<lparr>kt_cancelled := True\<rparr>) s)
      else s\<lparr>threads := (threads s)(t \<mapsto> k\<lparr>kt_cancelled := True\<rparr>)\<rparr>)"

lemma sched_cancel_eq:
  assumes inv: "sched_inv s" and k: "threads s t = Some k"
  shows "sched_cancel t s = Some (cancel_st t k s)"
proof -
  from inv k have ok: "state_ok k" and link: "kt_qlink k = kt_wchan k"
    by (auto simp: sched_inv_def twf_def qwf_def)
  show ?thesis
  proof (cases "kt_state k = KT_SLEEP_CANCELLABLE")
    case True
    with ok obtain q where q: "kt_wchan k = Some q"
      by (cases "kt_wchan k") (auto simp: state_ok_def)
    let ?s = "take_off q t (k\<lparr>kt_cancelled := True\<rparr>) s"
    have "ktqueue_remove q t (s\<lparr>threads := (threads s)(t \<mapsto> k\<lparr>kt_cancelled := True\<rparr>)\<rparr>) = Some ?s"
      using link q by (simp add: ktqueue_remove_def take_off_def Let_def ktqueue_eta)
    moreover have "sched_make_runnable t ?s =
        Some (push_runq t (k\<lparr>kt_cancelled := True, kt_qlink := None, kt_wchan := None\<rparr>) ?s)"
      by (rule sched_make_runnable_eq) (simp_all add: take_off_def)
    ultimately show ?thesis
      using True k q by (simp add: sched_cancel_def thr_upd_def cancel_st_def)
  qed (use k in \<open>simp add: sched_cancel_def thr_upd_def cancel_st_def\<close>)
qed

lemma cancel_st_inv [kinv]:
  assumes inv: "sched_inv s" and k: "threads s t = Some k"
  shows "sched_inv (cancel_st t k s)"
proof (cases "kt_state k = KT_SLEEP_CANCELLABLE")
  case True
  from inv k have ok: "state_ok k" and wf: "qwf (threads s) (queues s)" and tw: "twf (threads s)"
    by (auto simp: sched_inv_def twf_def)
  from True ok obtain q where q: "kt_wchan k = Some q"
    by (cases "kt_wchan k") (auto simp: state_ok_def)
  let ?k = "k\<lparr>kt_cancelled := True, kt_qlink := None, kt_wchan := None\<rparr>"
  let ?s = "take_off q t (k\<lparr>kt_cancelled := True\<rparr>) s"
  have "sched_inv (push_runq t ?k ?s)"
  proof (rule push_runq_inv)
    show "qwf (threads ?s) (queues ?s)"
      using qwf_remove [OF wf k q, of ?k] by (simp add: take_off_def)
    show "twf ((threads ?s)(t := None))"
      using tw by (auto simp: twf_def take_off_def)
  qed (simp_all add: take_off_def)
  then show ?thesis using True q by (simp add: cancel_st_def)
next
  case False
  have "state_ok (k\<lparr>kt_cancelled := True\<rparr>) = state_ok k"
    by (simp add: state_ok_def split: option.split)
  then have "state_ok (k\<lparr>kt_cancelled := True\<rparr>)" and wf: "qwf (threads s) (queues s)"
    and tw: "twf (threads s)"
    using inv k by (simp_all add: sched_inv_def twf_def)
  then show ?thesis
    using False qwf_upd [OF wf k, of "k\<lparr>kt_cancelled := True\<rparr>"] twf_upd [OF tw]
    by (simp add: cancel_st_def sched_inv_def)
qed

lemma cancel_st_frame [simp]:
  "curthr (cancel_st t k s) = curthr s" "curproc (cancel_st t k s) = curproc s"
  "ipl (cancel_st t k s) = ipl s" "sched_st.more (cancel_st t k s) = sched_st.more s"
  by (simp_all add: cancel_st_def take_off_def)

lemma cancel_st_threads:
  "threads (cancel_st t k s) = (threads s)(t \<mapsto>
     (if kt_state k = KT_SLEEP_CANCELLABLE then on_runq (k\<lparr>kt_cancelled := True\<rparr>)
      else k\<lparr>kt_cancelled := True\<rparr>))"
  by (simp add: cancel_st_def take_off_def on_runq_def)

subsection \<open>Interrupts and the switch\<close>

text \<open>
  What the interrupt handlers may do while the scheduler waits: they only wake up sleeping threads,
  which arrive at the head of the run queue.
\<close>

definition wakes :: "'a sched_st_scheme \<Rightarrow> 'a sched_st_scheme \<Rightarrow> bool" where
  "wakes s s' \<longleftrightarrow> sched_inv s' \<and> curthr s' = curthr s \<and> curproc s' = curproc s \<and>
     sched_st.more s' = sched_st.more s \<and>
     (\<exists>ys. tq_list (queues s' Kt_runq) = ys @ tq_list (queues s Kt_runq)) \<and>
     (\<forall>t. threads s' t = threads s t \<or>
        (\<exists>k q. threads s t = Some k \<and> kt_wchan k = Some q \<and> q \<noteq> Kt_runq \<and>
               threads s' t = Some (on_runq k)))"

definition irq_ok :: "('a sched_st_scheme \<Rightarrow> 'a sched_st_scheme option) \<Rightarrow> bool" where
  "irq_ok f \<longleftrightarrow> (\<forall>s s'. sched_inv s \<longrightarrow> f s = Some s' \<longrightarrow> wakes s s')"

lemma wakes_refl: "sched_inv s \<Longrightarrow> wakes s s"
  by (simp add: wakes_def)

lemma wakes_trans:
  assumes "wakes s s1" "wakes s1 s2"
  shows "wakes s s2"
proof -
  have "threads s2 t = threads s t \<or>
      (\<exists>k q. threads s t = Some k \<and> kt_wchan k = Some q \<and> q \<noteq> Kt_runq \<and> threads s2 t = Some (on_runq k))" for t
    using assms unfolding wakes_def
    by (metis (no_types, lifting) on_runq_simps(1) option.inject)
  then show ?thesis
    using assms by (auto simp: wakes_def)
qed

lemma sched_inv_ipl [simp]: "sched_inv (s\<lparr>ipl := i\<rparr>) = sched_inv s"
  by (simp add: sched_inv_def)

lemma wakes_ipl [simp]: "wakes (s\<lparr>ipl := i\<rparr>) s' = wakes s s'" "wakes s (s'\<lparr>ipl := i\<rparr>) = wakes s s'"
  by (simp_all add: wakes_def)

lemma wakes_inv: "wakes s s' \<Longrightarrow> sched_inv s'"
  by (simp add: wakes_def)

lemma wakes_thread:
  assumes "wakes s s'" "threads s t = Some k"
  obtains "threads s' t = Some k"
    | q where "kt_wchan k = Some q" "q \<noteq> Kt_runq" "threads s' t = Some (on_runq k)"
proof -
  from assms(1) have "threads s' t = threads s t \<or>
      (\<exists>k q. threads s t = Some k \<and> kt_wchan k = Some q \<and> q \<noteq> Kt_runq \<and> threads s' t = Some (on_runq k))"
    by (simp add: wakes_def)
  with assms(2) that show thesis by auto
qed

lemma wakes_live: "wakes s s' \<Longrightarrow> threads s t \<noteq> None \<Longrightarrow> threads s' t \<noteq> None"
  by (auto elim: wakes_thread)

lemma wake_one_wakes:
  assumes "sched_inv s" "q \<noteq> Kt_runq" "tq_list (queues s q) \<noteq> []"
    "t = last (tq_list (queues s q))" "threads s t = Some k"
  shows "wakes s (wake_one q t k s)"
proof -
  from sched_inv_last [OF assms(1,3)] assms(4,5) have "kt_wchan k = Some q"
    by (metis option.inject)
  then show ?thesis
    using assms wake_one_inv [OF assms(1,3-5)] by (auto simp: wakes_def wake_one_queues)
qed

lemma wakeup_irq_ok: "q \<noteq> Kt_runq \<Longrightarrow> irq_ok (\<lambda>s. map_option snd (sched_wakeup_on q s))"
  unfolding irq_ok_def
proof (intro allI impI)
  fix s s' :: "'a sched_st_scheme"
  assume q: "q \<noteq> Kt_runq" and inv: "sched_inv s"
    and eq: "map_option snd (sched_wakeup_on q s) = Some s'"
  show "wakes s s'"
  proof (cases "tq_list (queues s q) = []")
    case True
    with eq inv show ?thesis by (simp add: sched_wakeup_on_empty wakes_refl)
  next
    case False
    from sched_inv_last [OF inv False] obtain k
      where k: "threads s (last (tq_list (queues s q))) = Some k" by blast
    with eq sched_wakeup_on_eq [OF inv q False refl k] wake_one_wakes [OF inv q False refl k]
    show ?thesis by simp
  qed
qed

lemma broadcast_irq_ok: "q \<noteq> Kt_runq \<Longrightarrow> irq_ok (sched_broadcast_on q)"
  unfolding irq_ok_def
proof (intro allI impI)
  fix s s' :: "'a sched_st_scheme"
  assume q: "q \<noteq> Kt_runq" and inv: "sched_inv s" and eq: "sched_broadcast_on q s = Some s'"
  from sched_broadcast_on_eq [OF inv q] eq have s': "s' = wake_all q s" "sched_inv s'" by auto
  have "t \<in> set (tq_list (queues s q)) \<longleftrightarrow> (\<exists>k. threads s t = Some k \<and> kt_wchan k = Some q)" for t
    using inv by (simp add: sched_inv_def qwf_def)
  then have "threads s' t = threads s t \<or>
      (\<exists>k q. threads s t = Some k \<and> kt_wchan k = Some q \<and> q \<noteq> Kt_runq \<and> threads s' t = Some (on_runq k))" for t
    using q s'(1) by (auto simp: wake_all_def Let_def)
  then show "wakes s s'"
    using s' q by (auto simp: wakes_def wake_all_def Let_def)
qed

lemma sched_switch_wait_ready:
  "tq_list (queues s Kt_runq) \<noteq> [] \<Longrightarrow> sched_switch_wait irqs s = Some (s\<lparr>ipl := IPL_LOW\<rparr>)"
  by (subst sched_switch_wait.simps) (simp add: sched_queue_empty_def Let_def)

lemma sched_switch_wait_wakes:
  assumes "sched_inv s" "\<forall>f \<in> set irqs. irq_ok f" "sched_switch_wait irqs s = Some s'"
  shows "wakes s s' \<and> tq_list (queues s' Kt_runq) \<noteq> []"
  using assms
proof (induction irqs arbitrary: s)
  case Nil
  then show ?case
    by (subst (asm) sched_switch_wait.simps)
      (auto simp: sched_queue_empty_def Let_def wakes_refl split: if_splits)
next
  case (Cons f fs)
  show ?case
  proof (cases "tq_list (queues s Kt_runq) = []")
    case False
    with Cons.prems show ?thesis by (auto simp: sched_switch_wait_ready wakes_refl)
  next
    case True
    with Cons.prems(3) obtain s1 where s1: "f (s\<lparr>ipl := IPL_LOW\<rparr>) = Some s1"
      and rest: "sched_switch_wait fs s1 = Some s'"
      by (subst (asm) sched_switch_wait.simps)
        (auto simp: sched_queue_empty_def Let_def Option.bind_eq_Some_conv)
    have "irq_ok f" using Cons.prems(2) by simp
    then have w: "wakes s s1"
      using s1 Cons.prems(1) unfolding irq_ok_def
      by (metis sched_inv_ipl wakes_ipl(1))
    with Cons.IH [OF wakes_inv [OF w] _ rest] Cons.prems(2) show ?thesis
      by (auto intro: wakes_trans)
  qed
qed

text \<open>The state in which the new thread runs, as one expression.\<close>

definition switch_st :: "tid \<Rightarrow> ipl_t \<Rightarrow> tid \<Rightarrow> kthread \<Rightarrow> 'a sched_st_scheme \<Rightarrow> 'a sched_st_scheme" where
  "switch_st old i t k s =
     s\<lparr>queues := (queues s)(Kt_runq := \<lparr>tq_list = butlast (tq_list (queues s Kt_runq)),
                                       tq_size = tq_size (queues s Kt_runq) - 1\<rparr>),
       threads := (threads s)(old := map_option (\<lambda>k. k\<lparr>kt_stk_ipl := Some i\<rparr>) (threads s old),
                              t \<mapsto> k\<lparr>kt_qlink := None, kt_wchan := None, kt_stk_ipl := None\<rparr>),
       curthr := Some t, curproc := kt_proc k,
       ipl := (if t = old then i else case kt_stk_ipl k of Some j \<Rightarrow> j | None \<Rightarrow> IPL_HIGH)\<rparr>"

lemma sched_switch_eq:
  assumes w: "sched_switch_wait irqs s = Some s1"
    and ne: "tq_list (queues s1 Kt_runq) \<noteq> []" and t: "t = last (tq_list (queues s1 Kt_runq))"
    and k: "threads s1 t = Some k" and c: "curthr s1 = Some c" "threads s1 c \<noteq> None"
  shows "sched_switch irqs s = Some (switch_st c (ipl s) t k s1)"
proof -
  from c obtain kc where kc: "threads s1 c = Some kc" by blast
  have d: "ktqueue_dequeue Kt_runq (s1\<lparr>ipl := IPL_HIGH\<rparr>) = Some (Some t, pop_queue Kt_runq t k (s1\<lparr>ipl := IPL_HIGH\<rparr>))"
    using ktqueue_dequeue_eq [of "s1\<lparr>ipl := IPL_HIGH\<rparr>" Kt_runq k] ne t k by simp
  have u: "k\<lparr>kt_qlink := None, kt_wchan := None, kt_stk_ipl := None\<rparr> = k\<lparr>kt_qlink := None, kt_wchan := None\<rparr>"
    if "kt_stk_ipl k = None"
    using that by (cases k) simp
  show ?thesis
    using w d c kc k u
    by (cases s1; cases "t = c")
      (auto simp: sched_switch_def thr_upd_def Let_def switch_st_def pop_queue_def fun_upd_twist
        split: option.split)
qed

lemma switch_st_inv [kinv]:
  assumes inv: "sched_inv s" and ne: "tq_list (queues s Kt_runq) \<noteq> []"
    and t: "t = last (tq_list (queues s Kt_runq))" "threads s t = Some k"
    and old: "threads s old = Some ko"
  shows "sched_inv (switch_st old i t k s) \<and> running (switch_st old i t k s)"
proof -
  from sched_inv_last [OF inv ne] t have k: "kt_wchan k = Some Kt_runq" "state_ok k"
    by (metis option.inject)+
  then have run: "kt_state k = KT_RUN" by (simp add: state_ok_simps)
  let ?k = "k\<lparr>kt_qlink := None, kt_wchan := None, kt_stk_ipl := None\<rparr>"
  let ?T = "(threads s)(old \<mapsto> ko\<lparr>kt_stk_ipl := Some i\<rparr>)"
  have wf: "qwf ?T (queues s)"
    using inv old qwf_upd [of "threads s" "queues s" old ko "ko\<lparr>kt_stk_ipl := Some i\<rparr>"]
    by (simp add: sched_inv_def)
  have "state_ok (ko\<lparr>kt_stk_ipl := Some i\<rparr>) = state_ok ko"
    by (simp add: state_ok_def split: option.split)
  then have tw: "twf ?T"
    using inv old by (auto simp: sched_inv_def twf_def)
  have "qwf (?T(t \<mapsto> ?k)) (queues (switch_st old i t k s))"
    using qwf_dequeue [OF wf ne, of ?k] t(1) by (simp add: switch_st_def)
  moreover have "twf (?T(t \<mapsto> ?k))"
    using tw run by (auto intro: twf_upd simp: state_ok_def)
  moreover have "threads (switch_st old i t k s) = ?T(t \<mapsto> ?k)"
    using old by (simp add: switch_st_def)
  ultimately show ?thesis
    using run by (simp add: sched_inv_def running_def switch_st_def)
qed

lemma sched_switch_spec:
  assumes inv: "sched_inv s" and irqs: "\<forall>f \<in> set irqs. irq_ok f"
    and c: "curthr s = Some c" "threads s c \<noteq> None" and res: "sched_switch irqs s = Some s'"
  obtains s1 t k where "wakes s s1" "tq_list (queues s1 Kt_runq) \<noteq> []"
    "t = last (tq_list (queues s1 Kt_runq))" "threads s1 t = Some k"
    "s' = switch_st c (ipl s) t k s1" "sched_inv s'" "running s'"
proof -
  from res obtain s1 where w: "sched_switch_wait irqs s = Some s1"
    by (auto simp: sched_switch_def Option.bind_eq_Some_conv)
  from sched_switch_wait_wakes [OF inv irqs w] have ws: "wakes s s1"
    and ne: "tq_list (queues s1 Kt_runq) \<noteq> []" by auto
  then have inv1: "sched_inv s1" and cur: "curthr s1 = Some c"
    using c by (simp_all add: wakes_def)
  have live: "threads s1 c \<noteq> None" by (rule wakes_live [OF ws c(2)])
  from sched_inv_last [OF inv1 ne] obtain k
    where k: "threads s1 (last (tq_list (queues s1 Kt_runq))) = Some k" by blast
  from sched_switch_eq [OF w ne refl k cur live] res
  have s': "s' = switch_st c (ipl s) (last (tq_list (queues s1 Kt_runq))) k s1" by simp
  from live obtain ko where "threads s1 c = Some ko" by blast
  from switch_st_inv [OF inv1 ne refl k this] s' that [OF ws ne refl k s'] show thesis by simp
qed

lemma sched_switch_inv [kinv]:
  assumes "sched_inv s" "\<forall>f \<in> set irqs. irq_ok f" "curthr s = Some c" "threads s c \<noteq> None"
    "sched_switch irqs s = Some s'"
  shows "sched_inv s' \<and> running s'"
  by (rule sched_switch_spec [OF assms]) simp

lemma sched_switch_ready:
  assumes inv: "sched_inv s" and ne: "tq_list (queues s Kt_runq) \<noteq> []"
    and c: "curthr s = Some c" "threads s c \<noteq> None"
  obtains t k where "t = last (tq_list (queues s Kt_runq))" "threads s t = Some k"
    "sched_switch irqs s = Some (switch_st c (ipl s) t k (s\<lparr>ipl := IPL_LOW\<rparr>))"
proof -
  from sched_inv_last [OF inv ne] obtain k
    where k: "threads s (last (tq_list (queues s Kt_runq))) = Some k" by blast
  from sched_switch_eq [OF sched_switch_wait_ready [OF ne], of "last (tq_list (queues s Kt_runq))" k c irqs]
    ne k c that [OF refl k] show thesis by simp
qed

text \<open>Going to sleep: the state just before the switch.\<close>

definition sleep_st :: "kthread_state \<Rightarrow> qaddr \<Rightarrow> tid \<Rightarrow> kthread \<Rightarrow> 'a sched_st_scheme \<Rightarrow> 'a sched_st_scheme" where
  "sleep_st st q t k s =
     s\<lparr>queues := (queues s)(q := \<lparr>tq_list = t # tq_list (queues s q), tq_size = tq_size (queues s q) + 1\<rparr>),
       threads := (threads s)(t \<mapsto> k\<lparr>kt_state := st, kt_qlink := Some q, kt_wchan := Some q\<rparr>)\<rparr>"

lemma sleep_st_frame [simp]:
  "curthr (sleep_st st q t k s) = curthr s" "curproc (sleep_st st q t k s) = curproc s"
  "ipl (sleep_st st q t k s) = ipl s" "sched_st.more (sleep_st st q t k s) = sched_st.more s"
  "threads (sleep_st st q t k s) = (threads s)(t \<mapsto> k\<lparr>kt_state := st, kt_qlink := Some q, kt_wchan := Some q\<rparr>)"
  "queues (sleep_st st q t k s) =
     (queues s)(q := \<lparr>tq_list = t # tq_list (queues s q), tq_size = tq_size (queues s q) + 1\<rparr>)"
  by (simp_all add: sleep_st_def)

lemma sched_sleep_on_eq:
  assumes "curthr s = Some t" "threads s t = Some k" "kt_wchan k = None"
  shows "sched_sleep_on irqs q s = sched_switch irqs (sleep_st KT_SLEEP q t k s)"
  using assms by (simp add: sched_sleep_on_def thr_upd_def ktqueue_enqueue_def sleep_st_def Let_def)

lemma sched_cancellable_sleep_on_eq:
  assumes "curthr s = Some t" "threads s t = Some k" "kt_wchan k = None"
  shows "sched_cancellable_sleep_on E irqs q s =
     (if kt_cancelled k then Some (Returned (- E EINTR), s)
      else map_option (Pair Blocked) (sched_switch irqs (sleep_st KT_SLEEP_CANCELLABLE q t k s)))"
  using assms
  by (simp add: sched_cancellable_sleep_on_def thr_upd_def ktqueue_enqueue_def sleep_st_def Let_def
      map_conv_bind_option comp_def)

lemma sleep_st_inv [kinv]:
  assumes inv: "sched_inv s" and t: "threads s t = Some k" "kt_wchan k = None" and q: "q \<noteq> Kt_runq"
    and st: "st = KT_SLEEP \<or> st = KT_SLEEP_CANCELLABLE"
  shows "sched_inv (sleep_st st q t k s)"
proof -
  let ?k = "k\<lparr>kt_state := st, kt_qlink := Some q, kt_wchan := Some q\<rparr>"
  from inv have wf: "qwf (threads s) (queues s)" and tw: "twf (threads s)"
    by (simp_all add: sched_inv_def)
  have "state_ok ?k" using q st by (simp add: state_ok_waitq)
  then show ?thesis
    using qwf_enqueue [OF wf t, of ?k q] twf_upd [OF tw, of ?k t] by (simp add: sched_inv_def)
qed

lemma sched_sleep_on_inv [kinv]:
  assumes inv: "sched_inv s" and run: "running s" and q: "q \<noteq> Kt_runq"
    and irqs: "\<forall>f \<in> set irqs. irq_ok f" and res: "sched_sleep_on irqs q s = Some s'"
  shows "sched_inv s' \<and> running s'"
proof -
  from run obtain t k where t: "curthr s = Some t" "threads s t = Some k" "kt_wchan k = None"
    by (rule runningE)
  let ?s = "sleep_st KT_SLEEP q t k s"
  have "sched_inv ?s" by (rule sleep_st_inv [OF inv t(2,3) q]) simp
  moreover have "sched_switch irqs ?s = Some s'"
    using res by (simp add: sched_sleep_on_eq [OF t])
  ultimately show ?thesis
    using sched_switch_spec [of ?s irqs t s'] irqs t by auto
qed

lemma sched_cancellable_sleep_on_inv [kinv]:
  assumes inv: "sched_inv s" and run: "running s" and q: "q \<noteq> Kt_runq"
    and irqs: "\<forall>f \<in> set irqs. irq_ok f" and res: "sched_cancellable_sleep_on E irqs q s = Some (r, s')"
  shows "sched_inv s' \<and> running s'"
proof -
  from run obtain t k where t: "curthr s = Some t" "threads s t = Some k" "kt_wchan k = None"
    by (rule runningE)
  let ?s = "sleep_st KT_SLEEP_CANCELLABLE q t k s"
  show ?thesis
  proof (cases "kt_cancelled k")
    case True
    with res inv run show ?thesis by (simp add: sched_cancellable_sleep_on_eq [OF t])
  next
    case False
    have "sched_inv ?s" by (rule sleep_st_inv [OF inv t(2,3) q]) simp
    moreover have "sched_switch irqs ?s = Some s'"
      using res False by (simp add: sched_cancellable_sleep_on_eq [OF t])
    ultimately show ?thesis
      using sched_switch_spec [of ?s irqs t s'] irqs t by auto
  qed
qed

end
