(* ===== verification/Sched_Run.thy ===== *)
theory Sched_Run
  imports Sched
begin

section \<open>Runs of the scheduler\<close>

text \<open>
  The operations of \<^verbatim>\<open>K1/sched.c\<close> and \<^verbatim>\<open>K1/sched_helper.c\<close> as the steps of one relation, in any order
  and with interrupts in between; the queues as first-in first-out queues; and the properties of the
  scheduler: the invariant along every run, that no thread is lost, the order in which threads are
  woken up and run, cancellation, and the interrupt level across a switch.
\<close>

subsection \<open>The queues are first-in first-out\<close>

definition tq_contents :: "qaddr \<Rightarrow> 'a sched_st_scheme \<Rightarrow> tid list" where
  "tq_contents q s = rev (tq_list (queues s q))"

definition unqueued :: "tid \<Rightarrow> 'a sched_st_scheme \<Rightarrow> bool" where
  "unqueued t s \<longleftrightarrow> (case threads s t of None \<Rightarrow> False | Some k \<Rightarrow> kt_wchan k = None)"

abbreviation queues_ok :: "'a sched_st_scheme \<Rightarrow> bool" where
  "queues_ok s \<equiv> qwf (threads s) (queues s)"

interpretation ktq: fifo_queue "ktqueue_enqueue q" "ktqueue_dequeue q" "tq_contents q" queues_ok unqueued
  for q
proof unfold_locales
  fix s :: "'a sched_st_scheme" and t
  assume wf: "queues_ok s" and "unqueued t s"
  then obtain k where k: "threads s t = Some k" "kt_wchan k = None"
    by (auto simp: unqueued_def split: option.splits)
  from qwf_enqueue [OF wf k, of "k\<lparr>kt_qlink := Some q, kt_wchan := Some q\<rparr>" q] k
  show "\<exists>s'. ktqueue_enqueue q t s = Some s' \<and> tq_contents q s' = tq_contents q s @ [t] \<and> queues_ok s'"
    by (simp add: ktqueue_enqueue_def Let_def tq_contents_def)
next
  fix s :: "'a sched_st_scheme"
  assume "tq_contents q s = []"
  then show "ktqueue_dequeue q s = Some (None, s)"
    by (simp add: tq_contents_def ktqueue_dequeue_def Let_def)
next
  fix s :: "'a sched_st_scheme" and t ts
  assume wf: "queues_ok s" and c: "tq_contents q s = t # ts"
  then have l: "tq_list (queues s q) = rev ts @ [t]"
    by (simp add: tq_contents_def)
  then have ne: "tq_list (queues s q) \<noteq> []" by simp
  from qwf_last [OF wf ne] obtain k where "threads s (last (tq_list (queues s q))) = Some k" by blast
  with l have k: "threads s t = Some k" by simp
  have "queues_ok (pop_queue q t k s)" by (rule pop_queue_qwf [OF wf ne]) (simp add: l)
  moreover have "ktqueue_dequeue q s = Some (Some t, pop_queue q t k s)"
    using ktqueue_dequeue_eq [OF ne, of k] l k by simp
  moreover have "tq_contents q (pop_queue q t k s) = ts" by (simp add: tq_contents_def l)
  ultimately show "\<exists>s'. ktqueue_dequeue q s = Some (Some t, s') \<and> tq_contents q s' = ts \<and> queues_ok s'"
    by blast
qed

subsection \<open>Waiting for an interrupt\<close>

lemma sched_switch_wait_ipl: "sched_switch_wait irqs (s\<lparr>ipl := i\<rparr>) = sched_switch_wait irqs s"
  by (subst (1 2) sched_switch_wait.simps) (simp add: sched_queue_empty_def Let_def)

lemma sched_switch_wait_irq:
  assumes "tq_list (queues s Kt_runq) = []" "f (s\<lparr>ipl := IPL_LOW\<rparr>) = Some s1"
  shows "sched_switch_wait (f # irqs) s = sched_switch_wait irqs s1"
  using assms by (subst sched_switch_wait.simps) (simp add: sched_queue_empty_def Let_def)

lemma sched_switch_wait_idle:
  assumes "tq_list (queues s Kt_runq) = []"
  shows "sched_switch_wait (replicate n Some @ irqs) s = sched_switch_wait irqs s"
  using assms by (induction n) (simp_all add: sched_switch_wait_irq sched_switch_wait_ipl)

subsection \<open>Steps\<close>

text \<open>
  A step is one call: of the wake-up functions and of cancellation, by the running thread or by an
  interrupt handler; of the sleep functions by the running thread; a yield, which is how the source
  gives up the processor (\<^verbatim>\<open>sched_make_runnable(curthr); sched_switch()\<close>); and making runnable a thread
  that is on no queue and is not the running one, as done for a new thread. The queues that are slept
  and woken up on directly, by threads or by interrupt handlers, are those of \<open>U\<close>.
\<close>

definition irq_within :: "(qaddr \<Rightarrow> bool) \<Rightarrow> ('a sched_st_scheme \<Rightarrow> 'a sched_st_scheme option) \<Rightarrow> bool" where
  "irq_within U f \<longleftrightarrow> irq_ok f \<and>
     (\<forall>s s' q. f s = Some s' \<longrightarrow> \<not> U q \<longrightarrow> q \<noteq> Kt_runq \<longrightarrow> queues s' q = queues s q)"

inductive sched_step :: "(errno \<Rightarrow> int) \<Rightarrow> (qaddr \<Rightarrow> bool) \<Rightarrow> 'a sched_st_scheme \<Rightarrow> 'a sched_st_scheme \<Rightarrow> bool"
  for E U where
  wakeup: "U q \<Longrightarrow> q \<noteq> Kt_runq \<Longrightarrow> sched_wakeup_on q s = Some (r, s') \<Longrightarrow> sched_step E U s s'"
| broadcast: "U q \<Longrightarrow> q \<noteq> Kt_runq \<Longrightarrow> sched_broadcast_on q s = Some s' \<Longrightarrow> sched_step E U s s'"
| cancel: "sched_cancel t s = Some s' \<Longrightarrow> sched_step E U s s'"
| sleep: "U q \<Longrightarrow> q \<noteq> Kt_runq \<Longrightarrow> \<forall>f \<in> set irqs. irq_within U f \<Longrightarrow> sched_sleep_on irqs q s = Some s' \<Longrightarrow>
    sched_step E U s s'"
| cancellable_sleep: "U q \<Longrightarrow> q \<noteq> Kt_runq \<Longrightarrow> \<forall>f \<in> set irqs. irq_within U f \<Longrightarrow>
    sched_cancellable_sleep_on E irqs q s = Some (r, s') \<Longrightarrow> sched_step E U s s'"
| yield: "curthr s = Some t \<Longrightarrow> \<forall>f \<in> set irqs. irq_within U f \<Longrightarrow> sched_make_runnable t s = Some s1 \<Longrightarrow>
    sched_switch irqs s1 = Some s' \<Longrightarrow> sched_step E U s s'"
| start: "unqueued t s \<Longrightarrow> curthr s \<noteq> Some t \<Longrightarrow> sched_make_runnable t s = Some s' \<Longrightarrow> sched_step E U s s'"

inductive_cases sched_stepE: "sched_step E U s s'"

lemma irqs_ok: "\<forall>f \<in> set irqs. irq_within U f \<Longrightarrow> \<forall>f \<in> set irqs. irq_ok f"
  by (simp add: irq_within_def)

definition sched_ok :: "'a sched_st_scheme \<Rightarrow> bool" where
  "sched_ok s \<longleftrightarrow> sched_inv s \<and> running s"

lemma running_wakes:
  assumes "running s" "wakes s s'"
  shows "running s'"
proof -
  from assms(1) obtain t k where t: "curthr s = Some t" "threads s t = Some k" "kt_wchan k = None"
    "kt_state k = KT_RUN" "curproc s = kt_proc k" by (rule runningE)
  have "threads s' t = Some k"
    by (rule wakes_thread [OF assms(2) t(2)]) (simp_all add: t(3))
  with t assms(2) show ?thesis by (simp add: running_def wakes_def)
qed

lemma push_runq_ok:
  assumes inv: "sched_inv s" and t: "threads s t = Some k" "kt_wchan k = None"
  shows "sched_inv (push_runq t k s)"
  using inv t by (intro push_runq_inv) (auto simp: sched_inv_def intro: twf_free)

lemma running_cancel:
  assumes "running s" "threads s t = Some k" "state_ok k"
  shows "running (cancel_st t k s)"
  using assms by (auto simp: running_def cancel_st_threads state_ok_def split: option.splits)

interpretation sched: step_system "sched_step E U" sched_ok for E U
proof
  fix s s' :: "'a sched_st_scheme"
  assume ok: "sched_ok s" and st: "sched_step E U s s'"
  then have inv: "sched_inv s" and run: "running s" by (simp_all add: sched_ok_def)
  from st show "sched_ok s'"
  proof (cases rule: sched_step.cases)
    case (wakeup q r)
    with wakeup_irq_ok [OF wakeup(2)] inv have "wakes s s'" by (auto simp: irq_ok_def)
    with run show ?thesis by (simp add: sched_ok_def wakes_inv running_wakes)
  next
    case (broadcast q)
    with broadcast_irq_ok [OF broadcast(2)] inv have "wakes s s'" by (auto simp: irq_ok_def)
    with run show ?thesis by (simp add: sched_ok_def wakes_inv running_wakes)
  next
    case (cancel t)
    then obtain k where k: "threads s t = Some k" by (auto simp: sched_cancel_def bind_eq_Some_conv)
    with inv have "state_ok k" by (auto simp: sched_inv_def dest: twfD)
    with cancel_st_inv [OF inv k] running_cancel [OF run k]
    have "sched_ok (cancel_st t k s)" by (simp add: sched_ok_def)
    with cancel sched_cancel_eq [OF inv k] show ?thesis by simp
  next
    case (sleep q irqs)
    from sched_sleep_on_inv [OF inv run sleep(2) irqs_ok [OF sleep(3)] sleep(4)] show ?thesis by (simp add: sched_ok_def)
  next
    case (cancellable_sleep q irqs r)
    from sched_cancellable_sleep_on_inv [OF inv run cancellable_sleep(2) irqs_ok [OF cancellable_sleep(3)] cancellable_sleep(4)] show ?thesis by (simp add: sched_ok_def)
  next
    case (yield t irqs s1)
    from run yield(1) obtain k where k: "threads s t = Some k" "kt_wchan k = None"
      by (auto elim: runningE)
    with yield(3) have s1: "s1 = push_runq t k s" by (simp add: sched_make_runnable_eq)
    with push_runq_ok [OF inv k] yield(1)
    have "sched_inv s1" "curthr s1 = Some t" "threads s1 t \<noteq> None" by simp_all
    from sched_switch_inv [OF this(1) irqs_ok [OF yield(2)] this(2,3) yield(4)] show ?thesis
      by (simp add: sched_ok_def)
  next
    case (start t)
    then obtain k where k: "threads s t = Some k" "kt_wchan k = None"
      by (auto simp: unqueued_def split: option.splits)
    with start(3) have "s' = push_runq t k s" by (simp add: sched_make_runnable_eq)
    with push_runq_ok [OF inv k] run start(2) show ?thesis
      by (auto simp: sched_ok_def running_def split: option.splits)
  qed
qed

subsection \<open>No thread is lost\<close>

text \<open>
  A thread that has started and has not exited, is not running and is on no queue can never run again.
\<close>

definition lost :: "'a sched_st_scheme \<Rightarrow> tid set" where
  "lost s = {t. curthr s \<noteq> Some t \<and> (case threads s t of None \<Rightarrow> False
     | Some k \<Rightarrow> kt_wchan k = None \<and> kt_state k \<noteq> KT_NO_STATE \<and> kt_state k \<noteq> KT_EXITED)}"

lemma wakes_lost:
  assumes "wakes s s'"
  shows "lost s' \<subseteq> lost s"
proof
  fix t assume t: "t \<in> lost s'"
  from assms have th: "threads s' t = threads s t \<or>
      (\<exists>k q. threads s t = Some k \<and> kt_wchan k = Some q \<and> q \<noteq> Kt_runq \<and> threads s' t = Some (on_runq k))"
    and c: "curthr s' = curthr s" by (simp_all add: wakes_def)
  from th t c show "t \<in> lost s" by (elim disjE exE conjE) (simp_all add: lost_def)
qed

lemma sched_switch_lost:
  assumes inv: "sched_inv s" and irqs: "\<forall>f \<in> set irqs. irq_ok f"
    and c: "curthr s = Some c" "threads s c = Some kc" "kt_wchan kc \<noteq> None"
    and res: "sched_switch irqs s = Some s'"
  shows "lost s' \<subseteq> lost s"
proof -
  have "threads s c \<noteq> None" using c by simp
  from sched_switch_spec [OF inv irqs c(1) this res] obtain s1 t k where
    w: "wakes s s1" and t: "threads s1 t = Some k" and s': "s' = switch_st c (ipl s) t k s1" by blast
  obtain k1 where k1: "threads s1 c = Some k1" "kt_wchan k1 \<noteq> None"
    by (rule wakes_thread [OF w c(2)]) (use c in auto)
  have "lost s' \<subseteq> lost s1"
    using k1 s' t w c by (auto simp: lost_def switch_st_def wakes_def split: if_splits option.splits)
  with wakes_lost [OF w] show ?thesis by blast
qed

lemma sleep_st_lost: "lost (sleep_st st q t k s) \<subseteq> lost s"
  by (auto simp: lost_def split: if_splits)

lemma push_runq_lost: "lost (push_runq t k s) \<subseteq> lost s"
  by (auto simp: lost_def split: if_splits)

lemma cancel_st_lost: "threads s t = Some k \<Longrightarrow> lost (cancel_st t k s) \<subseteq> lost s"
  by (auto simp: lost_def cancel_st_threads split: if_splits)

lemma sleep_switch_lost:
  assumes inv: "sched_inv s" and t: "curthr s = Some t" "threads s t = Some k" "kt_wchan k = None"
    and q: "q \<noteq> Kt_runq" and st: "st = KT_SLEEP \<or> st = KT_SLEEP_CANCELLABLE"
    and irqs: "\<forall>f \<in> set irqs. irq_ok f" and res: "sched_switch irqs (sleep_st st q t k s) = Some s'"
  shows "lost s' \<subseteq> lost s"
proof -
  have "lost s' \<subseteq> lost (sleep_st st q t k s)"
    by (rule sched_switch_lost [OF sleep_st_inv [OF inv t(2,3) q st] irqs _ _ _ res]) (use t in auto)
  with sleep_st_lost show ?thesis by blast
qed

lemma sched_step_lost:
  assumes ok: "sched_ok s" and st: "sched_step E U s s'"
  shows "lost s' \<subseteq> lost s"
proof -
  from ok have inv: "sched_inv s" and run: "running s" by (simp_all add: sched_ok_def)
  from run obtain c kc where c: "curthr s = Some c" "threads s c = Some kc" "kt_wchan kc = None"
    by (rule runningE)
  from st show ?thesis
  proof (cases rule: sched_step.cases)
    case (wakeup q r)
    with wakeup_irq_ok [OF wakeup(2)] inv show ?thesis by (intro wakes_lost) (auto simp: irq_ok_def)
  next
    case (broadcast q)
    with broadcast_irq_ok [OF broadcast(2)] inv show ?thesis
      by (intro wakes_lost) (auto simp: irq_ok_def)
  next
    case (cancel t)
    then obtain k where k: "threads s t = Some k" by (auto simp: sched_cancel_def bind_eq_Some_conv)
    with cancel sched_cancel_eq [OF inv k] cancel_st_lost [OF k] show ?thesis by simp
  next
    case (sleep q irqs)
    then show ?thesis
      using sleep_switch_lost [OF inv c sleep(2) _ irqs_ok [OF sleep(3)], of KT_SLEEP]
      by (simp add: sched_sleep_on_eq [OF c])
  next
    case (cancellable_sleep q irqs r)
    then show ?thesis
      using sleep_switch_lost [OF inv c cancellable_sleep(2) _ irqs_ok [OF cancellable_sleep(3)], of KT_SLEEP_CANCELLABLE]
      by (auto simp: sched_cancellable_sleep_on_eq [OF c] split: if_splits)
  next
    case (yield t irqs s1)
    with c have "s1 = push_runq c kc s" by (simp add: sched_make_runnable_eq)
    with sched_switch_lost [of s1 irqs c "on_runq kc" s'] yield irqs_ok [OF yield(2)] push_runq_ok [OF inv c(2,3)] c
      push_runq_lost [of c kc s] show ?thesis by auto
  next
    case (start t)
    then obtain k where k: "threads s t = Some k" "kt_wchan k = None"
      by (auto simp: unqueued_def split: option.splits)
    with start(3) push_runq_lost [of t k s] show ?thesis by (simp add: sched_make_runnable_eq)
  qed
qed

subsection \<open>What a step leaves alone\<close>

text \<open>
  A step does not touch the rest of the kernel state, frees no thread, puts no thread to sleep on a
  queue outside \<open>U\<close>, and takes none off such a queue unless it cancels its sleep.
\<close>

definition waits_on :: "qaddr \<Rightarrow> 'a sched_st_scheme \<Rightarrow> tid set" where
  "waits_on q s = set (tq_list (queues s q))"

definition step_frame :: "(qaddr \<Rightarrow> bool) \<Rightarrow> 'a sched_st_scheme \<Rightarrow> 'a sched_st_scheme \<Rightarrow> bool" where
  "step_frame U s s' \<longleftrightarrow> sched_st.more s' = sched_st.more s \<and> dom (threads s') = dom (threads s) \<and>
     (\<forall>q. \<not> U q \<longrightarrow> q \<noteq> Kt_runq \<longrightarrow> waits_on q s' \<subseteq> waits_on q s \<and>
        (\<forall>t \<in> waits_on q s - waits_on q s'.
           map_option kt_state (threads s t) = Some KT_SLEEP_CANCELLABLE))"

lemma step_frameI:
  assumes "sched_st.more s' = sched_st.more s" "dom (threads s') = dom (threads s)"
    "\<And>q. \<not> U q \<Longrightarrow> q \<noteq> Kt_runq \<Longrightarrow> tq_list (queues s' q) = tq_list (queues s q)"
  shows "step_frame U s s'"
  using assms by (simp add: step_frame_def waits_on_def)

lemma wakes_dom:
  assumes "wakes s s'"
  shows "dom (threads s') = dom (threads s)"
proof -
  have "threads s' t = None \<longleftrightarrow> threads s t = None" for t
  proof -
    from assms have "threads s' t = threads s t \<or>
        (\<exists>k q. threads s t = Some k \<and> kt_wchan k = Some q \<and> q \<noteq> Kt_runq \<and> threads s' t = Some (on_runq k))"
      by (simp add: wakes_def)
    then show ?thesis by auto
  qed
  then show ?thesis by (auto simp: dom_def)
qed

lemma sched_switch_wait_within:
  assumes "\<forall>f \<in> set irqs. irq_within U f" "sched_switch_wait irqs s = Some s'" "\<not> U q" "q \<noteq> Kt_runq"
  shows "queues s' q = queues s q"
  using assms(1,2)
proof (induction irqs arbitrary: s)
  case Nil
  then show ?case
    by (subst (asm) sched_switch_wait.simps) (auto simp: Let_def split: if_splits)
next
  case (Cons f fs)
  from Cons.prems(2) consider "s' = s\<lparr>ipl := IPL_LOW\<rparr>"
    | s1 where "f (s\<lparr>ipl := IPL_LOW\<rparr>) = Some s1" "sched_switch_wait fs s1 = Some s'"
    by (subst (asm) sched_switch_wait.simps) (auto simp: Let_def bind_eq_Some_conv split: if_splits)
  then show ?case
  proof cases
    case 2
    from Cons.prems(1) have "irq_within U f" by simp
    with 2(1) assms(3,4) have "queues s1 q = queues s q" by (auto simp: irq_within_def)
    with Cons.IH [OF _ 2(2)] Cons.prems(1) show ?thesis by simp
  qed simp
qed

lemma sched_switch_frame:
  assumes inv: "sched_inv s" and irqs: "\<forall>f \<in> set irqs. irq_within U f"
    and c: "curthr s = Some c" "threads s c \<noteq> None" and res: "sched_switch irqs s = Some s'"
  shows "step_frame U s s'"
proof -
  from res obtain s1 where w: "sched_switch_wait irqs s = Some s1"
    by (auto simp: sched_switch_def bind_eq_Some_conv)
  from sched_switch_wait_wakes [OF inv irqs_ok [OF irqs] w] have ws: "wakes s s1"
    and ne: "tq_list (queues s1 Kt_runq) \<noteq> []" by auto
  from sched_inv_last [OF wakes_inv [OF ws] ne] obtain k
    where k: "threads s1 (last (tq_list (queues s1 Kt_runq))) = Some k" by blast
  have "curthr s1 = Some c" using ws c by (simp add: wakes_def)
  from sched_switch_eq [OF w ne refl k this wakes_live [OF ws c(2)]] res
  have s': "s' = switch_st c (ipl s) (last (tq_list (queues s1 Kt_runq))) k s1" by simp
  show ?thesis
  proof (rule step_frameI)
    show "sched_st.more s' = sched_st.more s" using s' ws by (simp add: switch_st_def wakes_def)
    show "dom (threads s') = dom (threads s)"
      using s' k wakes_dom [OF ws] wakes_live [OF ws c(2)] by (auto simp: switch_st_def)
    show "tq_list (queues s' q) = tq_list (queues s q)" if "\<not> U q" "q \<noteq> Kt_runq" for q
      using s' sched_switch_wait_within [OF irqs w that] that by (simp add: switch_st_def)
  qed
qed

lemma step_frameD:
  assumes "step_frame U s s'" "\<not> U q" "q \<noteq> Kt_runq"
  shows "waits_on q s' \<subseteq> waits_on q s"
    "t \<in> waits_on q s \<Longrightarrow> t \<notin> waits_on q s' \<Longrightarrow>
      map_option kt_state (threads s t) = Some KT_SLEEP_CANCELLABLE"
  using assms unfolding step_frame_def by blast+

lemma step_frame_pre:
  assumes "step_frame U s1 s2" "sched_st.more s1 = sched_st.more s" "dom (threads s1) = dom (threads s)"
    "\<And>q. \<not> U q \<Longrightarrow> q \<noteq> Kt_runq \<Longrightarrow> tq_list (queues s1 q) = tq_list (queues s q)"
    "\<And>u. u \<noteq> t \<Longrightarrow> threads s1 u = threads s u" "\<And>q. t \<notin> waits_on q s"
  shows "step_frame U s s2"
  unfolding step_frame_def
proof (intro conjI allI impI)
  fix q assume q: "\<not> U q" "q \<noteq> Kt_runq"
  have e: "waits_on q s1 = waits_on q s" using assms(4) [OF q] by (simp add: waits_on_def)
  with step_frameD(1) [OF assms(1) q] show "waits_on q s2 \<subseteq> waits_on q s" by simp
  show "\<forall>u \<in> waits_on q s - waits_on q s2. map_option kt_state (threads s u) = Some KT_SLEEP_CANCELLABLE"
  proof
    fix u assume u: "u \<in> waits_on q s - waits_on q s2"
    with assms(6) have "u \<noteq> t" by auto
    moreover have "map_option kt_state (threads s1 u) = Some KT_SLEEP_CANCELLABLE"
      by (rule step_frameD(2) [OF assms(1) q]) (use u e in auto)
    ultimately show "map_option kt_state (threads s u) = Some KT_SLEEP_CANCELLABLE"
      using assms(5) by simp
  qed
qed (use assms(1-3) in \<open>auto simp: step_frame_def\<close>)

lemma waits_on_iff:
  "sched_inv s \<Longrightarrow> t \<in> waits_on q s \<longleftrightarrow> (\<exists>k. threads s t = Some k \<and> kt_wchan k = Some q)"
  unfolding sched_inv_def waits_on_def by (elim conjE) (rule qwf_mem)

lemma not_waiting: "sched_inv s \<Longrightarrow> threads s t = Some k \<Longrightarrow> kt_wchan k = None \<Longrightarrow> t \<notin> waits_on q s"
  by (simp add: waits_on_iff)

lemma waits_on_thread:
  assumes "sched_inv s" "t \<in> waits_on q s"
  obtains k where "threads s t = Some k" "kt_wchan k = Some q" "state_ok k"
proof -
  from assms have "\<exists>k. threads s t = Some k \<and> kt_wchan k = Some q"
    by (simp add: waits_on_iff)
  with that assms(1) twfD show thesis by (auto simp: sched_inv_def)
qed

lemma sleep_switch_frame:
  assumes inv: "sched_inv s" and t: "curthr s = Some t" "threads s t = Some k" "kt_wchan k = None"
    and q: "q \<noteq> Kt_runq" "U q" and st: "st = KT_SLEEP \<or> st = KT_SLEEP_CANCELLABLE"
    and irqs: "\<forall>f \<in> set irqs. irq_within U f" and res: "sched_switch irqs (sleep_st st q t k s) = Some s'"
  shows "step_frame U s s'"
proof (rule step_frame_pre [where t = t])
  show "step_frame U (sleep_st st q t k s) s'"
    by (rule sched_switch_frame [where c = t, OF sleep_st_inv [OF inv t(2,3) q(1) st] irqs _ _ res])
      (simp_all add: t)
qed (use t q not_waiting [OF inv t(2,3)] in auto)

lemma cancel_st_frame_step:
  assumes inv: "sched_inv s" and k: "threads s t = Some k"
  shows "step_frame U s (cancel_st t k s)"
proof (cases "kt_state k = KT_SLEEP_CANCELLABLE")
  case False
  then show ?thesis by (intro step_frameI) (use k in \<open>auto simp: cancel_st_def\<close>)
next
  case True
  from inv have d: "distinct (tq_list (queues s q))" for q using qwf_queue(2) by (auto simp: sched_inv_def)
  have "waits_on q (cancel_st t k s) = (if kt_wchan k = Some q then waits_on q s - {t} else waits_on q s)"
    if "q \<noteq> Kt_runq" for q
  proof -
    from inv k have "state_ok k" by (auto simp: sched_inv_def dest: twfD)
    with True obtain q0 where "kt_wchan k = Some q0" by (cases "kt_wchan k") (auto simp: state_ok_def)
    with True that d show ?thesis by (auto simp: waits_on_def cancel_st_def take_off_def)
  qed
  with True k show ?thesis by (auto simp: step_frame_def cancel_st_threads split: if_splits)
qed

lemma sched_step_frame:
  assumes ok: "sched_ok s" and st: "sched_step E U s s'"
  shows "step_frame U s s'"
proof -
  from ok have inv: "sched_inv s" and run: "running s" by (simp_all add: sched_ok_def)
  from run obtain c kc where c: "curthr s = Some c" "threads s c = Some kc" "kt_wchan kc = None"
    by (rule runningE)
  from st show ?thesis
  proof (cases rule: sched_step.cases)
    case (wakeup q r)
    show ?thesis
    proof (cases "tq_list (queues s q) = []")
      case True
      with wakeup show ?thesis by (intro step_frameI) (auto simp: sched_wakeup_on_empty)
    next
      case False
      from sched_inv_last [OF inv False] obtain k where k: "threads s (last (tq_list (queues s q))) = Some k"
        by blast
      with wakeup sched_wakeup_on_eq [OF inv wakeup(2) False refl k] show ?thesis
        by (intro step_frameI) (auto simp: wake_one_queues split: if_splits)
    qed
  next
    case (broadcast q)
    with sched_broadcast_on_eq [OF inv broadcast(2)] have s': "s' = wake_all q s" by simp
    show ?thesis
      by (rule step_frameI) (use s' broadcast in \<open>auto simp: wake_all_def Let_def split: if_splits\<close>)
  next
    case (cancel t)
    then obtain k where k: "threads s t = Some k" by (auto simp: sched_cancel_def bind_eq_Some_conv)
    with cancel sched_cancel_eq [OF inv k] cancel_st_frame_step [OF inv k] show ?thesis by simp
  next
    case (sleep q irqs)
    then show ?thesis
      using sleep_switch_frame [OF inv c sleep(2,1) _ sleep(3), of KT_SLEEP]
      by (simp add: sched_sleep_on_eq [OF c])
  next
    case (cancellable_sleep q irqs r)
    then show ?thesis
      using sleep_switch_frame [OF inv c cancellable_sleep(2,1) _ cancellable_sleep(3), of KT_SLEEP_CANCELLABLE]
      by (auto simp: sched_cancellable_sleep_on_eq [OF c] intro: step_frameI split: if_splits)
  next
    case (yield t irqs s1)
    with c have s1: "s1 = push_runq c kc s" by (simp add: sched_make_runnable_eq)
    show ?thesis
    proof (rule step_frame_pre [where t = c])
      show "step_frame U s1 s'"
        by (rule sched_switch_frame [where c = c, OF _ yield(2) _ _ yield(4)])
          (use s1 c push_runq_ok [OF inv c(2,3)] in simp_all)
    qed (use s1 c not_waiting [OF inv c(2,3)] in auto)
  next
    case (start t)
    then obtain k where k: "threads s t = Some k" "kt_wchan k = None"
      by (auto simp: unqueued_def split: option.splits)
    with start(3) have "s' = push_runq t k s" by (simp add: sched_make_runnable_eq)
    with k show ?thesis by (intro step_frameI) auto
  qed
qed

subsection \<open>The saved interrupt level\<close>

text \<open>
  \<open>saved_ipl c i s\<close>: thread \<open>c\<close> is suspended in \<^verbatim>\<open>sched_switch\<close>, called at level \<open>i\<close>.
\<close>

definition saved_ipl :: "tid \<Rightarrow> ipl_t \<Rightarrow> 'a sched_st_scheme \<Rightarrow> bool" where
  "saved_ipl c i s \<longleftrightarrow> curthr s \<noteq> Some c \<and>
     (case threads s c of None \<Rightarrow> False | Some k \<Rightarrow> kt_stk_ipl k = Some i)"

lemma saved_iplE:
  assumes "saved_ipl c i s"
  obtains k where "curthr s \<noteq> Some c" "threads s c = Some k" "kt_stk_ipl k = Some i"
  using assms by (auto simp: saved_ipl_def split: option.splits)

lemma wakes_saved_ipl:
  assumes "wakes s s'" "saved_ipl c i s"
  shows "saved_ipl c i s'"
proof -
  from assms(2) obtain k where k: "curthr s \<noteq> Some c" "threads s c = Some k" "kt_stk_ipl k = Some i"
    by (rule saved_iplE)
  from assms(1) have "curthr s' = curthr s" by (simp add: wakes_def)
  with k show ?thesis
    by - (rule wakes_thread [OF assms(1) k(2)], simp_all add: saved_ipl_def)
qed

lemma switch_saved_ipl:
  assumes inv: "sched_inv s" and irqs: "\<forall>f \<in> set irqs. irq_ok f"
    and o: "curthr s = Some old" "threads s old \<noteq> None" and res: "sched_switch irqs s = Some s'"
    and sv: "saved_ipl c i s"
  shows "saved_ipl c i s' \<or> curthr s' = Some c \<and> ipl s' = i"
proof -
  from sched_switch_spec [OF inv irqs o res] obtain s1 t k where w: "wakes s s1"
    and t: "threads s1 t = Some k" and s': "s' = switch_st old (ipl s) t k s1" by blast
  from sv o(1) have "c \<noteq> old" by (auto simp: saved_ipl_def)
  with wakes_saved_ipl [OF w sv] s' t show ?thesis
    by (auto simp: saved_ipl_def switch_st_def split: option.splits)
qed

lemma sleep_switch_saved_ipl:
  assumes inv: "sched_inv s" and t: "curthr s = Some t" "threads s t = Some k" "kt_wchan k = None"
    and q: "q \<noteq> Kt_runq" and st: "st = KT_SLEEP \<or> st = KT_SLEEP_CANCELLABLE"
    and irqs: "\<forall>f \<in> set irqs. irq_ok f" and res: "sched_switch irqs (sleep_st st q t k s) = Some s'"
    and sv: "saved_ipl c i s"
  shows "saved_ipl c i s' \<or> curthr s' = Some c \<and> ipl s' = i"
proof (rule switch_saved_ipl [where old = t, OF sleep_st_inv [OF inv t(2,3) q st] irqs _ _ res])
  show "saved_ipl c i (sleep_st st q t k s)"
    using sv t by (auto simp: saved_ipl_def split: option.splits)
qed (simp_all add: t)

lemma sched_step_saved_ipl:
  assumes ok: "sched_ok s" and st: "sched_step E U s s'" and sv: "saved_ipl c i s"
  shows "saved_ipl c i s' \<or> curthr s' = Some c \<and> ipl s' = i"
proof -
  from ok have inv: "sched_inv s" and run: "running s" by (simp_all add: sched_ok_def)
  from run obtain t k where t: "curthr s = Some t" "threads s t = Some k" "kt_wchan k = None"
    by (rule runningE)
  from st show ?thesis
  proof (cases rule: sched_step.cases)
    case (wakeup q r)
    with wakeup_irq_ok [OF wakeup(2)] inv have "wakes s s'" by (auto simp: irq_ok_def)
    with sv show ?thesis by (simp add: wakes_saved_ipl)
  next
    case (broadcast q)
    with broadcast_irq_ok [OF broadcast(2)] inv have "wakes s s'" by (auto simp: irq_ok_def)
    with sv show ?thesis by (simp add: wakes_saved_ipl)
  next
    case (cancel u)
    then obtain ku where ku: "threads s u = Some ku" by (auto simp: sched_cancel_def bind_eq_Some_conv)
    with cancel sched_cancel_eq [OF inv ku] have "s' = cancel_st u ku s" by simp
    with sv ku show ?thesis by (auto simp: saved_ipl_def cancel_st_threads split: option.splits)
  next
    case (sleep q irqs)
    then show ?thesis
      using sleep_switch_saved_ipl [OF inv t sleep(2) _ irqs_ok [OF sleep(3)] _ sv, of KT_SLEEP]
      by (simp add: sched_sleep_on_eq [OF t])
  next
    case (cancellable_sleep q irqs r)
    then show ?thesis
      using sleep_switch_saved_ipl [OF inv t cancellable_sleep(2) _ irqs_ok [OF cancellable_sleep(3)] _ sv,
          of KT_SLEEP_CANCELLABLE] sv
      by (auto simp: sched_cancellable_sleep_on_eq [OF t] split: if_splits)
  next
    case (yield u irqs s1)
    with t have s1: "s1 = push_runq t k s" by (simp add: sched_make_runnable_eq)
    have "saved_ipl c i s1" using sv t s1 by (auto simp: saved_ipl_def split: option.splits)
    moreover have "sched_inv s1" "curthr s1 = Some t" "threads s1 t \<noteq> None"
      using push_runq_ok [OF inv t(2,3)] s1 t by simp_all
    ultimately show ?thesis using switch_saved_ipl [of s1 irqs t s'] yield(4) irqs_ok [OF yield(2)] by blast
  next
    case (start u)
    then obtain ku where ku: "threads s u = Some ku" "kt_wchan ku = None"
      by (auto simp: unqueued_def split: option.splits)
    with start(3) have "s' = push_runq u ku s" by (simp add: sched_make_runnable_eq)
    with sv ku show ?thesis by (auto simp: saved_ipl_def split: option.splits)
  qed
qed

subsection \<open>A concrete state\<close>

text \<open>
  Thread 1 of process 11 runs; thread 2 of process 12 sleeps on the wait queue of process 11, with
  thread 3 behind it, whose sleep can be cancelled; the run queue is empty.
\<close>

definition thr0 :: "ptr \<Rightarrow> kthread" where
  "thr0 p = \<lparr>kt_kstack = Some p, kt_ctx = \<lparr>c_eip = 0, c_esp = 0, c_pdptr = None\<rparr>, kt_retval = 0, kt_errno = 0,
     kt_proc = Some p, kt_cancelled = False, kt_wchan = None, kt_state = KT_RUN, kt_qlink = None,
     kt_plink = Some p, kt_stk_ipl = None\<rparr>"

definition thr_on :: "qaddr \<Rightarrow> kthread_state \<Rightarrow> ptr \<Rightarrow> kthread" where
  "thr_on q st p = (thr0 p)\<lparr>kt_wchan := Some q, kt_qlink := Some q, kt_state := st, kt_stk_ipl := Some IPL_LOW\<rparr>"

definition demo :: sched_st where
  "demo = \<lparr>threads = [1 \<mapsto> thr0 11, 2 \<mapsto> thr_on (P_wait 11) KT_SLEEP 12,
                      3 \<mapsto> thr_on (P_wait 11) KT_SLEEP_CANCELLABLE 13],
     queues = (\<lambda>_. \<lparr>tq_list = [], tq_size = 0\<rparr>)(P_wait 11 := \<lparr>tq_list = [3, 2], tq_size = 2\<rparr>),
     curthr = Some 1, curproc = Some 11, ipl = IPL_LOW\<rparr>"

lemma demo_ok: "sched_ok demo"
proof -
  have "qwf (threads demo) (queues demo)"
    by (rule qwfI) (auto simp: demo_def thr_on_def thr0_def split: if_splits)
  moreover have "twf (threads demo)"
    by (auto simp: twf_def demo_def thr_on_def thr0_def state_ok_def split: if_splits)
  moreover have "running demo"
    by (simp add: running_def demo_def thr0_def)
  ultimately show ?thesis by (simp add: sched_ok_def sched_inv_def)
qed

lemma demo_inv: "sched_inv demo" "queues_ok demo"
  using demo_ok by (simp_all add: sched_ok_def sched_inv_def)

lemma demo_contents: "tq_contents (P_wait 11) demo = [2, 3]" "tq_contents Kt_runq demo = []"
  by (simp_all add: tq_contents_def demo_def)

subsection \<open>Properties\<close>

text \<open>
  C1: in every run of the scheduler (any sequence of sleep, cancellable sleep, wake-up, broadcast,
  cancel, yield and start steps, with interrupts while the processor is idle) that starts in a
  well-formed state with a running current thread, the queues stay well-formed (sizes exact, no
  duplicates, each thread on at most the one queue its \<open>kt_wchan\<close> names, its state field agreeing),
  the current thread is running and on no queue, \<open>curproc\<close> is its process, and no thread gets lost.
\<close>

theorem sched_run_safe:
  assumes "(sched_step E U)\<^sup>*\<^sup>* s s'" "sched_ok s"
  shows "sched_ok s' \<and> lost s' \<subseteq> lost s"
  using sched.run_inv [OF assms] sched.run_shrinks [OF assms, of lost] sched_step_lost by blast

theorem sched_run_safe_witness:
  "\<exists>s'. (sched_step errno_std (\<lambda>_. True))\<^sup>*\<^sup>* demo s' \<and> tq_contents Kt_runq s' = [2] \<and> sched_ok s' \<and> lost s' = {}"
proof -
  have l: "lost demo = {}" by (auto simp: lost_def demo_def thr_on_def thr0_def split: if_splits option.splits)
  let ?s = "wake_one (P_wait 11) 2 (thr_on (P_wait 11) KT_SLEEP 12) demo"
  have "sched_wakeup_on (P_wait 11) demo = Some (Some 2, ?s)"
    by (rule sched_wakeup_on_eq [OF demo_inv(1)]) (simp_all add: demo_def)
  then have "(sched_step errno_std (\<lambda>_. True))\<^sup>*\<^sup>* demo ?s"
    by (intro r_into_rtranclp sched_step.wakeup) simp_all
  moreover have "tq_contents Kt_runq ?s = [2]"
    by (simp add: tq_contents_def wake_one_queues demo_def)
  ultimately show ?thesis using sched_run_safe [OF _ demo_ok] l by blast
qed

text \<open>
  \<^verbatim>\<open>sched_wakeup_on\<close> on a wait queue that is not empty does not fail: it returns the thread that has
  waited longest, which becomes the newest thread of the run queue in state \<open>KT_RUN\<close>; the rest of the
  queue keeps its order, and every other queue and thread is untouched.
\<close>

lemma sched_wakeup_on_oldest:
  assumes "sched_inv s" "q \<noteq> Kt_runq" "tq_contents q s = t # ts"
  shows "\<exists>s'. sched_wakeup_on q s = Some (Some t, s') \<and> sched_inv s' \<and>
     tq_contents q s' = ts \<and> tq_contents Kt_runq s' = tq_contents Kt_runq s @ [t] \<and>
     map_option kt_state (threads s' t) = Some KT_RUN \<and>
     (\<forall>q'. q' \<noteq> q \<longrightarrow> q' \<noteq> Kt_runq \<longrightarrow> queues s' q' = queues s q') \<and>
     (\<forall>u. u \<noteq> t \<longrightarrow> threads s' u = threads s u)"
proof -
  have l: "tq_list (queues s q) = rev ts @ [t]" using assms(3) by (simp add: tq_contents_def)
  then have ne: "tq_list (queues s q) \<noteq> []" and t: "t = last (tq_list (queues s q))" by simp_all
  from sched_inv_last [OF assms(1) ne] obtain k where "threads s (last (tq_list (queues s q))) = Some k"
    by blast
  with t have k: "threads s t = Some k" by simp
  show ?thesis
    using wake_one_inv [OF assms(1) ne t k] assms(2) l
    by (simp add: sched_wakeup_on_eq [OF assms(1,2) ne t k] tq_contents_def wake_one_queues)
qed

text \<open>
  C23: \<^verbatim>\<open>sched_broadcast_on\<close> on a wait queue returns: its loop empties the queue, and the threads join the
  run queue in the order in which they started to wait.
\<close>

theorem sched_broadcast_on_all:
  assumes "sched_inv s" "q \<noteq> Kt_runq"
  shows "\<exists>s'. sched_broadcast_on q s = Some s' \<and> sched_inv s' \<and> tq_contents q s' = [] \<and>
     tq_contents Kt_runq s' = tq_contents Kt_runq s @ tq_contents q s \<and>
     (\<forall>u. u \<notin> set (tq_contents q s) \<longrightarrow> threads s' u = threads s u)"
  using sched_broadcast_on_eq [OF assms] assms(2) by (simp add: tq_contents_def wake_all_def Let_def)

theorem sched_broadcast_on_all_witness:
  "\<exists>s'. sched_broadcast_on (P_wait 11) demo = Some s' \<and> tq_contents Kt_runq s' = [2, 3]"
  using sched_broadcast_on_all [OF demo_inv(1), of "P_wait 11"] by (auto simp: demo_contents)

text \<open>
  C26: a thread that is enqueued is served after exactly the threads that were on the queue before it,
  which are served in the order in which they were enqueued.
\<close>

theorem ktqueue_fifo:
  assumes "queues_ok s" "unqueued t s" "ktqueue_enqueue q t s = Some s1"
  shows "\<exists>s2. fifo_queue.deq_n (ktqueue_dequeue q) (Suc (length (tq_contents q s))) s1 =
     Some (tq_contents q s @ [t], s2) \<and> queues_ok s2"
  using ktq.enq_then_served [OF assms] .

theorem ktqueue_fifo_witness:
  "\<exists>s1 s2. ktqueue_enqueue (P_wait 11) 1 demo = Some s1 \<and>
     fifo_queue.deq_n (ktqueue_dequeue (P_wait 11)) (Suc (length [2 :: tid, 3])) s1 = Some ([2, 3, 1], s2)"
proof -
  have "unqueued 1 demo" by (simp add: unqueued_def demo_def thr0_def)
  moreover obtain s1 where s1: "ktqueue_enqueue (P_wait 11) 1 demo = Some s1"
    by (simp add: ktqueue_enqueue_def demo_def thr0_def)
  ultimately obtain s2 where
    "fifo_queue.deq_n (ktqueue_dequeue (P_wait 11)) (Suc (length (tq_contents (P_wait 11) demo))) s1 =
       Some (tq_contents (P_wait 11) demo @ [1], s2)"
    using ktqueue_fifo [OF demo_inv(2)] by blast
  with s1 show ?thesis unfolding demo_contents append.simps by blast
qed

text \<open>
  C24: with a thread on the run queue, \<^verbatim>\<open>sched_switch\<close> does not wait: it runs the thread that has been
  runnable longest, makes its process current, and takes it off the run queue; the level at which the
  caller called it is kept with the caller, and the new thread continues at the level at which it left.
\<close>

theorem sched_switch_oldest:
  assumes "sched_inv s" "curthr s = Some c" "threads s c \<noteq> None" "tq_contents Kt_runq s = t # ts"
    "threads s t = Some k" "c \<noteq> t"
  shows "\<exists>s'. sched_switch irqs s = Some s' \<and> sched_ok s' \<and> curthr s' = Some t \<and>
     curproc s' = kt_proc k \<and> tq_contents Kt_runq s' = ts \<and> saved_ipl c (ipl s) s' \<and>
     (\<forall>i. saved_ipl t i s \<longrightarrow> ipl s' = i)"
proof -
  have l: "tq_list (queues s Kt_runq) = rev ts @ [t]" using assms(4) by (simp add: tq_contents_def)
  then have ne: "tq_list (queues s Kt_runq) \<noteq> []" and t: "t = last (tq_list (queues s Kt_runq))"
    by simp_all
  let ?s = "switch_st c (ipl s) t k (s\<lparr>ipl := IPL_LOW\<rparr>)"
  have "sched_switch irqs s = Some ?s"
    using sched_switch_eq [OF sched_switch_wait_ready [OF ne], of t k c] ne t assms by simp
  moreover have "sched_ok ?s"
    using switch_st_inv [of "s\<lparr>ipl := IPL_LOW\<rparr>" t k c] assms ne t by (auto simp: sched_ok_def)
  moreover have "tq_contents Kt_runq ?s = ts" using l by (simp add: tq_contents_def switch_st_def)
  ultimately show ?thesis
    using assms(3,5,6) by (auto simp: switch_st_def saved_ipl_def)
qed

definition demo_ready :: sched_st where
  "demo_ready = wake_one (P_wait 11) 2 (thr_on (P_wait 11) KT_SLEEP 12) demo"

theorem sched_switch_oldest_witness:
  "\<exists>s'. sched_switch [] demo_ready = Some s' \<and> curthr s' = Some 2 \<and> curproc s' = Some 12 \<and>
     saved_ipl 1 IPL_LOW s' \<and> ipl s' = IPL_LOW"
proof -
  have inv: "sched_inv demo_ready"
    unfolding demo_ready_def by (rule wake_one_inv [OF demo_inv(1)]) (simp_all add: demo_def)
  have f: "curthr demo_ready = Some 1" "threads demo_ready 1 \<noteq> None"
    "tq_contents Kt_runq demo_ready = [2]" "ipl demo_ready = IPL_LOW"
    "threads demo_ready 2 = Some (on_runq (thr_on (P_wait 11) KT_SLEEP 12))"
    by (simp_all add: demo_ready_def demo_def tq_contents_def wake_one_queues)
  have "saved_ipl 2 IPL_LOW demo_ready"
    using f by (simp add: saved_ipl_def thr_on_def)
  with sched_switch_oldest [OF inv f(1,2,3,5), of "[]"] f(4) show ?thesis
    by (auto simp: thr_on_def thr0_def)
qed

text \<open>
  The interrupt level belongs to the thread: once a thread has been switched away at level \<open>i\<close>,
  it stays suspended with that level at every step of every run, until a step that runs it again,
  and it then runs at level \<open>i\<close>.
\<close>

lemma ipl_restored:
  assumes "sched_ok s" "saved_ipl c i s" "sched_step E U s s'"
  shows "saved_ipl c i s' \<or> curthr s' = Some c \<and> ipl s' = i"
  using sched_step_saved_ipl [OF assms(1,3,2)] .

text \<open>
  C27: \<^verbatim>\<open>sched_cancel\<close> always succeeds and sets the flag, whatever the state of the thread (also one that
  has not started or has exited). A thread in a cancellable sleep on \<open>q\<close> leaves \<open>q\<close>, where the others
  keep their order, and joins the run queue; when it runs, its sleep call returns \<open>-EINTR\<close>. Any other
  thread stays where it is: the queues do not change.
\<close>

theorem sched_cancel_cases:
  assumes "sched_inv s" "threads s t = Some k"
  shows "\<exists>s' k'. sched_cancel t s = Some s' \<and> sched_inv s' \<and> threads s' t = Some k' \<and> kt_cancelled k' \<and>
     (\<forall>u. u \<noteq> t \<longrightarrow> threads s' u = threads s u) \<and>
     (if kt_state k = KT_SLEEP_CANCELLABLE
      then \<exists>q. kt_wchan k = Some q \<and> tq_contents q s' = filter (\<lambda>u. u \<noteq> t) (tq_contents q s) \<and>
             tq_contents Kt_runq s' = tq_contents Kt_runq s @ [t] \<and>
             sched_cancellable_sleep_on_resume E (s'\<lparr>curthr := Some t\<rparr>) = Some (- E EINTR)
      else queues s' = queues s)"
proof (cases "kt_state k = KT_SLEEP_CANCELLABLE")
  case True
  from assms have ok: "state_ok k" by (auto simp: sched_inv_def dest: twfD)
  with True obtain q where q: "kt_wchan k = Some q" "q \<noteq> Kt_runq"
    by (cases "kt_wchan k") (auto simp: state_ok_def split: if_splits)
  have d: "distinct (tq_list (queues s q))"
    using assms(1) qwf_queue(2) by (auto simp: sched_inv_def)
  have r: "rev (filter P xs) = filter P (rev xs)" for P and xs :: "tid list" by (rule rev_filter)
  show ?thesis
    using True q sched_cancel_eq [OF assms] cancel_st_inv [OF assms]
    by (simp add: cancel_st_threads sched_cancellable_sleep_on_resume_def)
      (simp add: cancel_st_def take_off_def tq_contents_def distinct_remove1_removeAll [OF d]
        removeAll_filter_not_eq r eq_commute [of t])
next
  case False
  then show ?thesis
    using sched_cancel_eq [OF assms] cancel_st_inv [OF assms]
    by (simp add: cancel_st_threads) (simp add: cancel_st_def)
qed

theorem sched_cancel_cases_witness:
  "\<exists>s'. sched_cancel 3 demo = Some s' \<and> tq_contents (P_wait 11) s' = [2] \<and> tq_contents Kt_runq s' = [3] \<and>
     sched_cancellable_sleep_on_resume errno_std (s'\<lparr>curthr := Some 3\<rparr>) = Some (- 4)"
proof -
  have k: "threads demo 3 = Some (thr_on (P_wait 11) KT_SLEEP_CANCELLABLE 13)" by (simp add: demo_def)
  have "kt_state (thr_on (P_wait 11) KT_SLEEP_CANCELLABLE 13) = KT_SLEEP_CANCELLABLE"
    "kt_wchan (thr_on (P_wait 11) KT_SLEEP_CANCELLABLE 13) = Some (P_wait 11)"
    by (simp_all add: thr_on_def)
  with sched_cancel_cases [OF demo_inv(1) k, of errno_std] show ?thesis
    by (auto simp: demo_contents)
qed

text \<open>
  C25: with an empty run queue \<^verbatim>\<open>sched_switch\<close> waits for interrupts, and an interrupt whose handler wakes up
  a sleeping thread ends the wait: the call then runs that thread. Interrupts that come before and wake
  up nobody do not end it.
\<close>

theorem sched_switch_waits:
  assumes "sched_inv s" "curthr s = Some c" "threads s c \<noteq> None" "tq_contents Kt_runq s = []"
    "q \<noteq> Kt_runq" "tq_contents q s = t # ts" "c \<noteq> t"
  shows "\<exists>s'. sched_switch (replicate n Some @ [\<lambda>s. map_option snd (sched_wakeup_on q s)]) s = Some s' \<and>
     sched_ok s' \<and> curthr s' = Some t \<and> tq_contents q s' = ts"
proof -
  let ?h = "\<lambda>s. map_option snd (sched_wakeup_on q s)" and ?s = "s\<lparr>ipl := IPL_LOW\<rparr>"
  have l: "tq_list (queues s q) = rev ts @ [t]" and e: "tq_list (queues s Kt_runq) = []"
    using assms(4,6) by (simp_all add: tq_contents_def)
  then have ne: "tq_list (queues ?s q) \<noteq> []" and t: "t = last (tq_list (queues ?s q))" by simp_all
  from assms(1) have inv: "sched_inv ?s" by simp
  from sched_inv_last [OF inv ne] obtain k where "threads ?s (last (tq_list (queues ?s q))) = Some k" by blast
  with t have k: "threads ?s t = Some k" by simp
  let ?w = "wake_one q t k ?s"
  have w: "sched_wakeup_on q ?s = Some (Some t, ?w)" by (rule sched_wakeup_on_eq [OF inv assms(5) ne t k])
  have r: "tq_list (queues ?w Kt_runq) = [t]" using e assms(5) by (simp add: wake_one_queues)
  have h: "?h ?s = Some ?w" using w by simp
  have "sched_switch_wait (replicate n Some @ [?h]) s = sched_switch_wait [] ?w"
    using sched_switch_wait_idle [OF e, of n "[?h]"] sched_switch_wait_irq [where f = ?h, OF e h] by simp
  also have "\<dots> = Some (?w\<lparr>ipl := IPL_LOW\<rparr>)" using r by (simp add: sched_switch_wait_ready)
  finally have wait: "sched_switch_wait (replicate n Some @ [?h]) s = Some (?w\<lparr>ipl := IPL_LOW\<rparr>)" .
  let ?w1 = "?w\<lparr>ipl := IPL_LOW\<rparr>"
  let ?s' = "switch_st c (ipl s) t (on_runq k) ?w1"
  have f: "tq_list (queues ?w1 Kt_runq) \<noteq> []" "t = last (tq_list (queues ?w1 Kt_runq))"
    "threads ?w1 t = Some (on_runq k)" "curthr ?w1 = Some c" "threads ?w1 c \<noteq> None"
    using r assms(2,3) by simp_all
  then obtain kc where kc: "threads ?w1 c = Some kc" by blast
  have "sched_inv ?w1" using wake_one_inv [OF inv ne t k] by simp
  then have "sched_ok ?s'" using switch_st_inv [OF _ f(1,2,3) kc] by (simp add: sched_ok_def)
  moreover have "tq_contents q ?s' = ts"
    using l assms(5) by (simp add: tq_contents_def switch_st_def wake_one_queues)
  ultimately show ?thesis
    using sched_switch_eq [OF wait f] by (simp add: switch_st_def)
qed

theorem sched_switch_waits_witness:
  "\<exists>s'. sched_switch (replicate 5 Some @ [\<lambda>s. map_option snd (sched_wakeup_on (P_wait 11) s)]) demo = Some s' \<and>
     sched_ok s' \<and> curthr s' = Some 2"
  using sched_switch_waits [OF demo_inv(1) _ _ demo_contents(2) _ demo_contents(1), of 1 5]
  by (auto simp: demo_def)

end
