(* ===== verification/Kmutex.thy ===== *)
theory Kmutex
  imports Sched_Run
begin

section \<open>Mutexes\<close>

text \<open>
  The model of \<^verbatim>\<open>K1/kmutex.c\<close>. A \<^verbatim>\<open>kmutex_t\<close> is named by a pointer: its field \<^verbatim>\<open>km_holder\<close> is an entry of
  the state component \<open>km_holder\<close>, and its wait queue is the queue \<open>Km_waitq\<close> of that pointer. Mutexes
  are locked and unlocked from a thread context only, as the comment at the head of the source
  demands: no other part of the kernel, and no interrupt handler, sleeps or wakes up on their queues.
\<close>

record mutex_st = sched_st +
  km_holder :: "ptr \<Rightarrow> tid option"

subsection \<open>Operations\<close>

definition kmutex_init :: "ptr \<Rightarrow> 'a mutex_st_scheme \<Rightarrow> 'a mutex_st_scheme" where
  "kmutex_init m s =
     (let s = sched_queue_init (Km_waitq m) s in s\<lparr>km_holder := (km_holder s)(m := None)\<rparr>)"

definition kmutex_lock ::
  "('a mutex_st_scheme \<Rightarrow> 'a mutex_st_scheme option) list \<Rightarrow> ptr \<Rightarrow> 'a mutex_st_scheme
    \<Rightarrow> (unit outcome \<times> 'a mutex_st_scheme) option" where
  "kmutex_lock irqs m s = do {
     t \<leftarrow> curthr s;
     _ \<leftarrow> kassert (Some t \<noteq> km_holder s m);
     if km_holder s m \<noteq> None then do {
       s \<leftarrow> sched_sleep_on irqs (Km_waitq m) s;
       Some (Blocked, s)
     } else Some (Returned (), s\<lparr>km_holder := (km_holder s)(m := Some t)\<rparr>)
   }"

definition kmutex_unlock :: "ptr \<Rightarrow> 'a mutex_st_scheme \<Rightarrow> 'a mutex_st_scheme option" where
  "kmutex_unlock m s = do {
     t \<leftarrow> curthr s;
     _ \<leftarrow> kassert (Some t = km_holder s m);
     if sched_queue_empty (Km_waitq m) s then do {
       let s = s\<lparr>km_holder := (km_holder s)(m := None)\<rparr>;
       _ \<leftarrow> kassert (curthr s \<noteq> km_holder s m);
       Some s
     } else do {
       (w, s) \<leftarrow> sched_wakeup_on (Km_waitq m) s;
       let s = s\<lparr>km_holder := (km_holder s)(m := w)\<rparr>;
       _ \<leftarrow> kassert (curthr s \<noteq> km_holder s m);
       Some s
     }
   }"

definition kmutex_lock_cancellable ::
  "(errno \<Rightarrow> int) \<Rightarrow> ('a mutex_st_scheme \<Rightarrow> 'a mutex_st_scheme option) list \<Rightarrow> ptr \<Rightarrow> 'a mutex_st_scheme
    \<Rightarrow> (int outcome \<times> 'a mutex_st_scheme) option" where
  "kmutex_lock_cancellable E irqs m s = do {
     t \<leftarrow> curthr s;
     _ \<leftarrow> kassert (Some t \<noteq> km_holder s m);
     case km_holder s m of
       Some h \<Rightarrow> do {
         holder \<leftarrow> threads s h;
         s \<leftarrow> (if kt_cancelled holder then kmutex_unlock m s else Some s);
         sched_cancellable_sleep_on E irqs (Km_waitq m) s
       }
     | None \<Rightarrow> Some (Returned 0, s\<lparr>km_holder := (km_holder s)(m := Some t)\<rparr>)
   }"

text \<open>
  The rest of \<^verbatim>\<open>kmutex_lock_cancellable\<close>, run when its thread is switched back in after the sleep: the
  status of the sleep is returned.
\<close>

definition kmutex_lock_cancellable_resume ::
  "(errno \<Rightarrow> int) \<Rightarrow> 'a mutex_st_scheme \<Rightarrow> (int \<times> 'a mutex_st_scheme) option" where
  "kmutex_lock_cancellable_resume E s = do {
     status \<leftarrow> sched_cancellable_sleep_on_resume E s;
     Some (status, s)
   }"

subsection \<open>Invariant\<close>

text \<open>
  A free mutex has no waiters (so a waiter is never forgotten), and the holder of a mutex is a thread
  that exists and does not wait for the mutex it holds.
\<close>

definition mutex_inv :: "'a mutex_st_scheme \<Rightarrow> bool" where
  "mutex_inv s \<longleftrightarrow> (\<forall>m. case km_holder s m of
       None \<Rightarrow> waits_on (Km_waitq m) s = {}
     | Some h \<Rightarrow> threads s h \<noteq> None \<and> h \<notin> waits_on (Km_waitq m) s)"

definition mutex_ok :: "'a mutex_st_scheme \<Rightarrow> bool" where
  "mutex_ok s \<longleftrightarrow> sched_ok s \<and> mutex_inv s"

lemma mutex_invD:
  assumes "mutex_inv s"
  shows "km_holder s m = None \<Longrightarrow> waits_on (Km_waitq m) s = {}"
    "km_holder s m = Some h \<Longrightarrow> threads s h \<noteq> None" "km_holder s m = Some h \<Longrightarrow> h \<notin> waits_on (Km_waitq m) s"
  using assms by (auto simp: mutex_inv_def split: option.splits dest: spec [of _ m])

text \<open>A step of the rest of the kernel: it uses the queues that are not those of mutexes.\<close>

definition not_mutex :: "qaddr \<Rightarrow> bool" where
  "not_mutex q \<longleftrightarrow> (case q of Km_waitq _ \<Rightarrow> False | _ \<Rightarrow> True)"

lemma not_mutex_simps [simp]: "\<not> not_mutex (Km_waitq m)" "\<not> not_mutex q \<longleftrightarrow> (\<exists>m. q = Km_waitq m)"
  by (auto simp: not_mutex_def split: qaddr.splits)

lemma km_holder_more: "sched_st.more (s' :: 'a mutex_st_scheme) = sched_st.more s \<Longrightarrow> km_holder s' = km_holder s"
  by (cases s; cases s') simp

lemma mutex_inv_frame:
  assumes "mutex_inv s" "step_frame U s s'" "\<And>m. \<not> U (Km_waitq m)"
  shows "mutex_inv s'"
  unfolding mutex_inv_def
proof
  fix m
  from assms(2) have h: "km_holder s' = km_holder s" and d: "dom (threads s') = dom (threads s)"
    using km_holder_more [of s' s] by (simp_all add: step_frame_def)
  have sub: "waits_on (Km_waitq m) s' \<subseteq> waits_on (Km_waitq m) s"
    by (rule step_frameD(1) [OF assms(2,3)]) simp
  from d have "threads s' t \<noteq> None \<longleftrightarrow> threads s t \<noteq> None" for t by (metis domIff)
  with sub h mutex_invD [OF assms(1), of m] show "case km_holder s' m of
       None \<Rightarrow> waits_on (Km_waitq m) s' = {}
     | Some h \<Rightarrow> threads s' h \<noteq> None \<and> h \<notin> waits_on (Km_waitq m) s'"
    by (auto split: option.split)
qed

subsection \<open>Each operation keeps the invariant\<close>

lemma sched_ok_holder [simp]: "sched_ok (s\<lparr>km_holder := h\<rparr>) = sched_ok s"
  by (simp add: sched_ok_def sched_inv_def running_def split: option.split)

lemma waits_on_holder [simp]: "waits_on q (s\<lparr>km_holder := h\<rparr>) = waits_on q s"
  by (simp add: waits_on_def)

text \<open>Sleeping on the queue of a mutex that another thread holds.\<close>

lemma sleep_mutex_inv:
  assumes ok: "mutex_ok s" and t: "curthr s = Some t" "threads s t = Some k" "kt_wchan k = None"
    and h: "km_holder s m = Some h" "h \<noteq> t" and st: "st = KT_SLEEP \<or> st = KT_SLEEP_CANCELLABLE"
    and irqs: "\<forall>f \<in> set irqs. irq_within not_mutex f"
    and res: "sched_switch irqs (sleep_st st (Km_waitq m) t k s) = Some s'"
  shows "mutex_ok s'"
proof -
  let ?s = "sleep_st st (Km_waitq m) t k s"
  from ok have inv: "sched_inv s" and mi: "mutex_inv s" by (simp_all add: mutex_ok_def sched_ok_def)
  have inv1: "sched_inv ?s" by (rule sleep_st_inv [OF inv t(2,3) _ st]) simp
  have c: "curthr ?s = Some t" "threads ?s t \<noteq> None" using t by simp_all
  have kh: "km_holder ?s = km_holder s" by (rule km_holder_more) simp
  have "mutex_inv ?s"
    unfolding mutex_inv_def kh
  proof
    fix m'
    have "waits_on (Km_waitq m') ?s = (if m' = m then insert t (waits_on (Km_waitq m) s) else waits_on (Km_waitq m') s)"
      by (simp add: waits_on_def)
    with mutex_invD [OF mi, of m'] h show "case km_holder s m' of
         None \<Rightarrow> waits_on (Km_waitq m') ?s = {}
       | Some h \<Rightarrow> threads ?s h \<noteq> None \<and> h \<notin> waits_on (Km_waitq m') ?s"
      by (auto split: option.split)
  qed
  from mutex_inv_frame [OF this sched_switch_frame [OF inv1 irqs c res]] have "mutex_inv s'" by simp
  with sched_switch_inv [OF inv1 irqs_ok [OF irqs] c res] show ?thesis
    by (simp add: mutex_ok_def sched_ok_def)
qed

lemma take_free_mutex:
  assumes ok: "mutex_ok s" and t: "threads s t \<noteq> None" and h: "km_holder s m = None"
  shows "mutex_ok (s\<lparr>km_holder := (km_holder s)(m := Some t)\<rparr>)"
proof -
  from ok have mi: "mutex_inv s" by (simp add: mutex_ok_def)
  have "mutex_inv (s\<lparr>km_holder := (km_holder s)(m := Some t)\<rparr>)"
    unfolding mutex_inv_def
  proof
    fix m'
    from mutex_invD [OF mi, of m'] mutex_invD(1) [OF mi h] t
    show "case km_holder (s\<lparr>km_holder := (km_holder s)(m := Some t)\<rparr>) m' of
         None \<Rightarrow> waits_on (Km_waitq m') (s\<lparr>km_holder := (km_holder s)(m := Some t)\<rparr>) = {}
       | Some h \<Rightarrow> threads (s\<lparr>km_holder := (km_holder s)(m := Some t)\<rparr>) h \<noteq> None \<and>
           h \<notin> waits_on (Km_waitq m') (s\<lparr>km_holder := (km_holder s)(m := Some t)\<rparr>)"
      by (auto split: option.split)
  qed
  with ok show ?thesis by (simp add: mutex_ok_def)
qed

lemma kmutex_lock_ok:
  assumes ok: "mutex_ok s" and irqs: "\<forall>f \<in> set irqs. irq_within not_mutex f"
    and res: "kmutex_lock irqs m s = Some (r, s')"
  shows "mutex_ok s'"
proof -
  from ok have "running s" by (simp add: mutex_ok_def sched_ok_def)
  then obtain t k where t: "curthr s = Some t" "threads s t = Some k" "kt_wchan k = None" by (rule runningE)
  show ?thesis
  proof (cases "km_holder s m")
    case None
    with res t take_free_mutex [OF ok, of t m] show ?thesis by (auto simp: kmutex_lock_def)
  next
    case (Some h)
    with res t have "h \<noteq> t" "sched_switch irqs (sleep_st KT_SLEEP (Km_waitq m) t k s) = Some s'"
      by (auto simp: kmutex_lock_def sched_sleep_on_eq [OF t] bind_eq_Some_conv split: if_splits)
    from sleep_mutex_inv [OF ok t Some this(1) _ irqs this(2)] show ?thesis by simp
  qed
qed

text \<open>Unlocking: nobody waits, or the mutex passes to the longest waiting thread.\<close>

lemma kmutex_unlock_free:
  assumes "curthr s = Some t" "km_holder s m = Some t" "tq_list (queues s (Km_waitq m)) = []"
  shows "kmutex_unlock m s = Some (s\<lparr>km_holder := (km_holder s)(m := None)\<rparr>)"
  using assms by (simp add: kmutex_unlock_def sched_queue_empty_def Let_def)

lemma km_holder_wake_one [simp]: "km_holder (wake_one q t k s) = km_holder s"
  by (rule km_holder_more) simp

lemma kmutex_unlock_pass:
  assumes inv: "sched_inv s" and h: "curthr s = Some t" "km_holder s m = Some t"
    and ne: "tq_list (queues s (Km_waitq m)) \<noteq> []" and w: "w = last (tq_list (queues s (Km_waitq m)))"
    and k: "threads s w = Some k" and wt: "w \<noteq> t"
  shows "kmutex_unlock m s = Some ((wake_one (Km_waitq m) w k s)\<lparr>km_holder := (km_holder s)(m := Some w)\<rparr>)"
  using sched_wakeup_on_eq [OF inv _ ne w k] h ne wt
  by (simp add: kmutex_unlock_def sched_queue_empty_def Let_def)

lemma holder_not_waiting:
  assumes "mutex_inv s" "km_holder s m = Some t" "tq_list (queues s (Km_waitq m)) \<noteq> []"
  shows "last (tq_list (queues s (Km_waitq m))) \<noteq> t"
  using mutex_invD(3) [OF assms(1,2)] last_in_set [OF assms(3)] by (auto simp: waits_on_def)

lemma mutex_inv_upd:
  assumes "\<And>m'. m' \<noteq> m \<Longrightarrow> waits_on (Km_waitq m') s' = waits_on (Km_waitq m') s"
    "\<And>t. threads s t \<noteq> None \<Longrightarrow> threads s' t \<noteq> None" "mutex_inv s"
    "km_holder s' = (km_holder s)(m := h)"
    "case h of None \<Rightarrow> waits_on (Km_waitq m) s' = {}
      | Some t \<Rightarrow> threads s' t \<noteq> None \<and> t \<notin> waits_on (Km_waitq m) s'"
  shows "mutex_inv s'"
  unfolding mutex_inv_def
proof
  fix m'
  show "case km_holder s' m' of None \<Rightarrow> waits_on (Km_waitq m') s' = {}
     | Some t \<Rightarrow> threads s' t \<noteq> None \<and> t \<notin> waits_on (Km_waitq m') s'"
  proof (cases "m' = m")
    case True
    from assms(5) show ?thesis unfolding True assms(4) by simp
  next
    case False
    with assms(1) [OF False] assms(2,4) mutex_invD [OF assms(3), of m'] show ?thesis
      by (auto split: option.split)
  qed
qed

lemma kmutex_unlock_ok:
  assumes ok: "mutex_ok s" and res: "kmutex_unlock m s = Some s'"
  shows "mutex_ok s'"
proof -
  from ok have so: "sched_ok s" and inv: "sched_inv s" and run: "running s" and mi: "mutex_inv s"
    by (simp_all add: mutex_ok_def sched_ok_def)
  from res obtain t where t: "curthr s = Some t" "km_holder s m = Some t"
    by (cases "curthr s"; cases "km_holder s m") (auto simp: kmutex_unlock_def split: if_split_asm)
  show ?thesis
  proof (cases "tq_list (queues s (Km_waitq m)) = []")
    case True
    from kmutex_unlock_free [OF t True] res have s': "s' = s\<lparr>km_holder := (km_holder s)(m := None)\<rparr>" by simp
    have "mutex_inv s'"
      by (rule mutex_inv_upd [where m = m and h = None, OF _ _ mi]) (use s' True in \<open>simp_all add: waits_on_def\<close>)
    with so s' show ?thesis by (simp add: mutex_ok_def)
  next
    case ne: False
    let ?w = "last (tq_list (queues s (Km_waitq m)))"
    from sched_inv_last [OF inv ne] obtain k where k: "threads s ?w = Some k" by blast
    let ?s = "wake_one (Km_waitq m) ?w k s"
    from kmutex_unlock_pass [OF inv t ne refl k holder_not_waiting [OF mi t(2) ne]] res
    have s': "s' = ?s\<lparr>km_holder := (km_holder s)(m := Some ?w)\<rparr>" by simp
    have "distinct (tq_list (queues s (Km_waitq m)))" using inv qwf_queue(2) by (auto simp: sched_inv_def)
    then have nw: "?w \<notin> set (butlast (tq_list (queues s (Km_waitq m))))"
      by (rule distinct_last_notin_butlast [OF _ ne])
    have "mutex_inv s'"
      by (rule mutex_inv_upd [where m = m and h = "Some ?w", OF _ _ mi])
        (use s' nw in \<open>simp_all add: waits_on_def wake_one_queues\<close>)
    moreover have "wakes s ?s" by (rule wake_one_wakes [OF inv _ ne refl k]) simp
    then have "sched_ok ?s" using run by (simp add: sched_ok_def wakes_inv running_wakes)
    ultimately show ?thesis using s' by (simp add: mutex_ok_def)
  qed
qed

text \<open>
  \<^verbatim>\<open>kmutex_lock_cancellable\<close> with a holder that has been cancelled runs into the assertion of
  \<^verbatim>\<open>kmutex_unlock\<close>, since the caller is not the holder.
\<close>

lemma kmutex_lock_cancellable_busy:
  assumes t: "curthr s = Some t" "threads s t = Some k" "kt_wchan k = None"
    and h: "km_holder s m = Some h" "threads s h = Some kh"
  shows "kmutex_lock_cancellable E irqs m s =
     (if h = t \<or> kt_cancelled kh then None else sched_cancellable_sleep_on E irqs (Km_waitq m) s)"
  using t h by (auto simp: kmutex_lock_cancellable_def kmutex_unlock_def)

lemma kmutex_lock_cancellable_ok:
  assumes ok: "mutex_ok s" and irqs: "\<forall>f \<in> set irqs. irq_within not_mutex f"
    and res: "kmutex_lock_cancellable E irqs m s = Some (r, s')"
  shows "mutex_ok s'"
proof -
  from ok have "running s" and mi: "mutex_inv s" by (simp_all add: mutex_ok_def sched_ok_def)
  then obtain t k where t: "curthr s = Some t" "threads s t = Some k" "kt_wchan k = None" by (metis runningE)
  show ?thesis
  proof (cases "km_holder s m")
    case None
    with res t take_free_mutex [OF ok, of t m] show ?thesis by (auto simp: kmutex_lock_cancellable_def)
  next
    case (Some h)
    with mutex_invD(2) [OF mi] obtain kh where kh: "threads s h = Some kh" by blast
    from res kmutex_lock_cancellable_busy [OF t Some kh, of E irqs]
    have h: "h \<noteq> t" "sched_cancellable_sleep_on E irqs (Km_waitq m) s = Some (r, s')"
      by (auto split: if_splits)
    show ?thesis
    proof (cases "kt_cancelled k")
      case True
      with h ok show ?thesis by (simp add: sched_cancellable_sleep_on_eq [OF t])
    next
      case False
      with h have "sched_switch irqs (sleep_st KT_SLEEP_CANCELLABLE (Km_waitq m) t k s) = Some s'"
        by (auto simp: sched_cancellable_sleep_on_eq [OF t])
      from sleep_mutex_inv [OF ok t Some h(1) _ irqs this] show ?thesis by simp
    qed
  qed
qed

subsection \<open>Steps\<close>

inductive mutex_step :: "(errno \<Rightarrow> int) \<Rightarrow> 'a mutex_st_scheme \<Rightarrow> 'a mutex_st_scheme \<Rightarrow> bool" for E where
  lock: "\<forall>f \<in> set irqs. irq_within not_mutex f \<Longrightarrow> kmutex_lock irqs m s = Some (r, s') \<Longrightarrow> mutex_step E s s'"
| lock_cancellable: "\<forall>f \<in> set irqs. irq_within not_mutex f \<Longrightarrow>
    kmutex_lock_cancellable E irqs m s = Some (r', s') \<Longrightarrow> mutex_step E s s'"
| unlock: "kmutex_unlock m s = Some s' \<Longrightarrow> mutex_step E s s'"
| other: "sched_step E not_mutex s s' \<Longrightarrow> mutex_step E s s'"

interpretation mtx: step_system "mutex_step E" mutex_ok for E
proof
  fix s s' :: "'a mutex_st_scheme"
  assume ok: "mutex_ok s" and st: "mutex_step E s s'"
  from st show "mutex_ok s'"
  proof cases
    case (lock irqs m r)
    from kmutex_lock_ok [OF ok lock] show ?thesis .
  next
    case (lock_cancellable irqs m r)
    from kmutex_lock_cancellable_ok [OF ok lock_cancellable] show ?thesis .
  next
    case (unlock m)
    from kmutex_unlock_ok [OF ok unlock] show ?thesis .
  next
    case other
    from ok have so: "sched_ok s" and mi: "mutex_inv s" by (simp_all add: mutex_ok_def)
    from mutex_inv_frame [OF mi sched_step_frame [OF so other]] sched.step_inv [OF so other]
    show ?thesis by (simp add: mutex_ok_def)
  qed
qed

text \<open>\<open>blocked_on m t s\<close>: thread \<open>t\<close> is blocked in \<^verbatim>\<open>kmutex_lock\<close> on \<open>m\<close> (its sleep cannot be cancelled).\<close>

definition blocked_on :: "ptr \<Rightarrow> tid \<Rightarrow> 'a mutex_st_scheme \<Rightarrow> bool" where
  "blocked_on m t s \<longleftrightarrow> t \<in> waits_on (Km_waitq m) s \<and> map_option kt_state (threads s t) = Some KT_SLEEP"

lemma frame_blocked:
  assumes "step_frame not_mutex s s'" "blocked_on m t s"
  shows "t \<in> waits_on (Km_waitq m) s'"
  by (rule ccontr) (use step_frameD(2) [OF assms(1), of "Km_waitq m" t] assms(2) in \<open>auto simp: blocked_on_def\<close>)

lemma sleep_blocked:
  assumes ok: "mutex_ok s" and c: "curthr s = Some c" "threads s c = Some k" "kt_wchan k = None"
    and st: "st = KT_SLEEP \<or> st = KT_SLEEP_CANCELLABLE" and irqs: "\<forall>f \<in> set irqs. irq_within not_mutex f"
    and res: "sched_switch irqs (sleep_st st (Km_waitq m') c k s) = Some s'" and b: "blocked_on m t s"
  shows "t \<in> waits_on (Km_waitq m) s'"
proof -
  let ?s = "sleep_st st (Km_waitq m') c k s"
  from ok have inv: "sched_inv s" by (simp add: mutex_ok_def sched_ok_def)
  from b not_waiting [OF inv c(2,3)] have "t \<noteq> c" by (auto simp: blocked_on_def)
  with b have bs: "blocked_on m t ?s" by (auto simp: blocked_on_def waits_on_def)
  have "step_frame not_mutex ?s s'"
    by (rule sched_switch_frame [where c = c, OF sleep_st_inv [OF inv c(2,3) _ st] irqs _ _ res])
      (simp_all add: c)
  from frame_blocked [OF this bs] show ?thesis .
qed

lemma mutex_step_blocked:
  assumes ok: "mutex_ok s" and st: "mutex_step E s s'" and b: "blocked_on m t s"
  shows "t \<in> waits_on (Km_waitq m) s' \<or> km_holder s' m = Some t \<and> t \<in> waits_on Kt_runq s'"
proof -
  from ok have so: "sched_ok s" and inv: "sched_inv s" and run: "running s" and mi: "mutex_inv s"
    by (simp_all add: mutex_ok_def sched_ok_def)
  from run obtain c k where c: "curthr s = Some c" "threads s c = Some k" "kt_wchan k = None" by (rule runningE)
  from st show ?thesis
  proof cases
    case (lock irqs m' r)
    then have "s' = s\<lparr>km_holder := (km_holder s)(m' := Some c)\<rparr> \<or>
        sched_switch irqs (sleep_st KT_SLEEP (Km_waitq m') c k s) = Some s'"
      using c by (auto simp: kmutex_lock_def sched_sleep_on_eq [OF c] bind_eq_Some_conv split: if_split_asm)
    with sleep_blocked [OF ok c _ lock(1) _ b, of KT_SLEEP] b show ?thesis by (auto simp: blocked_on_def)
  next
    case (lock_cancellable irqs m' r)
    have "s' = s\<lparr>km_holder := (km_holder s)(m' := Some c)\<rparr> \<or> s' = s \<or>
        sched_switch irqs (sleep_st KT_SLEEP_CANCELLABLE (Km_waitq m') c k s) = Some s'"
    proof (cases "km_holder s m'")
      case None
      with lock_cancellable c show ?thesis by (auto simp: kmutex_lock_cancellable_def)
    next
      case (Some h)
      with mutex_invD(2) [OF mi] obtain kh where "threads s h = Some kh" by blast
      from kmutex_lock_cancellable_busy [OF c Some this, of E irqs] lock_cancellable(2)
      have "sched_cancellable_sleep_on E irqs (Km_waitq m') s = Some (r, s')" by (simp split: if_split_asm)
      then show ?thesis by (auto simp: sched_cancellable_sleep_on_eq [OF c] split: if_split_asm)
    qed
    with sleep_blocked [OF ok c _ lock_cancellable(1) _ b, of KT_SLEEP_CANCELLABLE] b show ?thesis
      by (auto simp: blocked_on_def)
  next
    case (unlock m')
    then have h: "curthr s = Some c" "km_holder s m' = Some c"
      using c by (cases "km_holder s m'"; auto simp: kmutex_unlock_def split: if_split_asm)+
    show ?thesis
    proof (cases "tq_list (queues s (Km_waitq m')) = []")
      case True
      with kmutex_unlock_free [OF h True] unlock b show ?thesis by (auto simp: blocked_on_def)
    next
      case ne: False
      let ?w = "last (tq_list (queues s (Km_waitq m')))"
      from sched_inv_last [OF inv ne] obtain kw where kw: "threads s ?w = Some kw" by blast
      have xs: "set (tq_list (queues s (Km_waitq m'))) = insert ?w (set (butlast (tq_list (queues s (Km_waitq m')))))"
        using arg_cong [OF append_butlast_last_id [OF ne], of set] by simp
      from kmutex_unlock_pass [OF inv h ne refl kw holder_not_waiting [OF mi h(2) ne]] unlock b xs
      show ?thesis by (auto simp: blocked_on_def waits_on_def wake_one_queues)
    qed
  next
    case other
    with frame_blocked [OF sched_step_frame [OF so other] b] show ?thesis by simp
  qed
qed

subsection \<open>A concrete state\<close>

text \<open>Thread 1 holds mutex 7; threads 2 and 3 are blocked on it, in this order, thread 3 cancellably.\<close>

definition mdemo :: mutex_st where
  "mdemo = \<lparr>threads = [1 \<mapsto> thr0 11, 2 \<mapsto> thr_on (Km_waitq 7) KT_SLEEP 12,
                      3 \<mapsto> thr_on (Km_waitq 7) KT_SLEEP_CANCELLABLE 13],
     queues = (\<lambda>_. \<lparr>tq_list = [], tq_size = 0\<rparr>)(Km_waitq 7 := \<lparr>tq_list = [3, 2], tq_size = 2\<rparr>),
     curthr = Some 1, curproc = Some 11, ipl = IPL_LOW, km_holder = [7 \<mapsto> 1]\<rparr>"

lemma mdemo_ok: "mutex_ok mdemo"
proof -
  have "qwf (threads mdemo) (queues mdemo)"
    by (rule qwfI) (auto simp: mdemo_def thr_on_def thr0_def split: if_splits)
  moreover have "twf (threads mdemo)"
    by (auto simp: twf_def mdemo_def thr_on_def thr0_def state_ok_def split: if_splits)
  moreover have "running mdemo" by (simp add: running_def mdemo_def thr0_def)
  moreover have "mutex_inv mdemo" by (auto simp: mutex_inv_def waits_on_def mdemo_def split: option.split if_splits)
  ultimately show ?thesis by (simp add: mutex_ok_def sched_ok_def sched_inv_def)
qed

lemma mdemo_unlock: "kmutex_unlock 7 mdemo =
    Some ((wake_one (Km_waitq 7) 2 (thr_on (Km_waitq 7) KT_SLEEP 12) mdemo)\<lparr>km_holder := (km_holder mdemo)(7 := Some 2)\<rparr>)"
proof (rule kmutex_unlock_pass [where t = 1])
  show "sched_inv mdemo" using mdemo_ok by (simp add: mutex_ok_def sched_ok_def)
qed (simp_all add: mdemo_def)

subsection \<open>Properties\<close>

text \<open>
  C13: along every run of the kernel in which mutexes are used from thread contexts (with any other
  scheduling steps and interrupts in between), a free mutex has no waiters, and the holder of a mutex
  is a live thread that does not wait for it; the scheduler invariant is kept.
\<close>

theorem mutex_run_safe:
  assumes "(mutex_step E)\<^sup>*\<^sup>* s s'" "mutex_ok s"
  shows "mutex_ok s'"
  using mtx.run_inv [OF assms] .

theorem mutex_run_safe_witness:
  "\<exists>s'. (mutex_step errno_std)\<^sup>*\<^sup>* mdemo s' \<and> km_holder s' 7 = Some 2 \<and> mutex_ok s'"
proof -
  obtain s' where "kmutex_unlock 7 mdemo = Some s'" "km_holder s' 7 = Some 2"
    using mdemo_unlock by simp
  moreover from this have "(mutex_step errno_std)\<^sup>*\<^sup>* mdemo s'"
    by (intro r_into_rtranclp mutex_step.unlock)
  ultimately show ?thesis using mutex_run_safe mdemo_ok by blast
qed

text \<open>
  C5: a thread that is blocked in \<^verbatim>\<open>kmutex_lock\<close> is never woken up without the mutex: at every step of the
  kernel it either keeps waiting, or it is on the run queue and holds the mutex. So when
  \<^verbatim>\<open>kmutex_lock\<close> returns after a sleep, its caller has the mutex.
\<close>

theorem kmutex_lock_acquires:
  assumes "mutex_ok s" "mutex_step E s s'" "blocked_on m t s"
  shows "t \<in> waits_on (Km_waitq m) s' \<or> km_holder s' m = Some t \<and> t \<in> waits_on Kt_runq s'"
  using mutex_step_blocked [OF assms] .

theorem kmutex_lock_acquires_witness:
  "\<exists>s'. mutex_step errno_std mdemo s' \<and> blocked_on 7 2 mdemo \<and>
     (2 \<in> waits_on (Km_waitq 7) s' \<or> km_holder s' 7 = Some 2 \<and> 2 \<in> waits_on Kt_runq s')"
proof -
  obtain s' where st: "mutex_step errno_std mdemo s'" using mdemo_unlock by (blast intro: mutex_step.unlock)
  moreover have b: "blocked_on 7 2 mdemo" by (simp add: blocked_on_def waits_on_def mdemo_def thr_on_def)
  ultimately show ?thesis using kmutex_lock_acquires [OF mdemo_ok st b] by blast
qed

text \<open>
  C28: \<^verbatim>\<open>kmutex_unlock\<close> by the holder does not block and does not fail: with nobody waiting it frees the
  mutex; otherwise the longest waiting thread becomes the holder and joins the run queue, and the
  other waiters keep their order.
\<close>

theorem kmutex_unlock_hands_over:
  assumes "mutex_ok s" "curthr s = Some t" "km_holder s m = Some t"
  shows "\<exists>s'. kmutex_unlock m s = Some s' \<and> mutex_ok s' \<and> curthr s' = Some t \<and>
     (case tq_contents (Km_waitq m) s of
        [] \<Rightarrow> km_holder s' = (km_holder s)(m := None) \<and> queues s' = queues s
      | w # ws \<Rightarrow> km_holder s' = (km_holder s)(m := Some w) \<and> tq_contents (Km_waitq m) s' = ws \<and>
          tq_contents Kt_runq s' = tq_contents Kt_runq s @ [w])"
proof (cases "tq_list (queues s (Km_waitq m)) = []")
  case True
  with kmutex_unlock_free [OF assms(2,3) True] kmutex_unlock_ok [OF assms(1)] assms show ?thesis
    by (simp add: tq_contents_def)
next
  case ne: False
  from assms(1) have inv: "sched_inv s" and mi: "mutex_inv s" by (simp_all add: mutex_ok_def sched_ok_def)
  from sched_inv_last [OF inv ne] obtain k where k: "threads s (last (tq_list (queues s (Km_waitq m)))) = Some k"
    by blast
  note u = kmutex_unlock_pass [OF inv assms(2,3) ne refl k holder_not_waiting [OF mi assms(3) ne]]
  have c: "tq_contents (Km_waitq m) s =
      last (tq_list (queues s (Km_waitq m))) # rev (butlast (tq_list (queues s (Km_waitq m))))"
    using ne by (simp add: tq_contents_def)
  show ?thesis
    using u kmutex_unlock_ok [OF assms(1) u] assms(2)
    by (simp add: c) (simp add: tq_contents_def wake_one_queues)
qed

theorem kmutex_unlock_hands_over_witness:
  "\<exists>s'. kmutex_unlock 7 mdemo = Some s' \<and> km_holder s' 7 = Some 2 \<and> tq_contents (Km_waitq 7) s' = [3]"
proof -
  have f: "curthr mdemo = Some 1" "km_holder mdemo 7 = Some 1" "tq_contents (Km_waitq 7) mdemo = [2, 3]"
    by (simp_all add: mdemo_def tq_contents_def)
  from kmutex_unlock_hands_over [OF mdemo_ok f(1,2)] f(3) show ?thesis by auto
qed

text \<open>
  C29: \<^verbatim>\<open>kmutex_lock_cancellable\<close> on a mutex whose holder has been cancelled panics: it calls
  \<^verbatim>\<open>kmutex_unlock\<close> as a thread that does not hold the mutex, whatever the interrupts.
\<close>

theorem kmutex_lock_cancellable_panics:
  assumes "mutex_ok s" "km_holder s m = Some h" "map_option kt_cancelled (threads s h) = Some True"
  shows "kmutex_lock_cancellable E irqs m s = None"
proof -
  from assms(1) have "running s" by (simp add: mutex_ok_def sched_ok_def)
  then obtain t k where t: "curthr s = Some t" "threads s t = Some k" "kt_wchan k = None" by (rule runningE)
  from assms(3) obtain kh where "threads s h = Some kh" "kt_cancelled kh" by auto
  with kmutex_lock_cancellable_busy [OF t assms(2), of kh] show ?thesis by simp
qed

text \<open>The state of \<open>mdemo\<close>, seen by thread 4 when the holder, thread 1, has been cancelled.\<close>

definition mdemo_cancelled :: mutex_st where
  "mdemo_cancelled = \<lparr>threads = [1 \<mapsto> (thr_on Kt_runq KT_RUN 11)\<lparr>kt_cancelled := True\<rparr>, 4 \<mapsto> thr0 14],
     queues = (\<lambda>_. \<lparr>tq_list = [], tq_size = 0\<rparr>)(Kt_runq := \<lparr>tq_list = [1], tq_size = 1\<rparr>),
     curthr = Some 4, curproc = Some 14, ipl = IPL_LOW, km_holder = [7 \<mapsto> 1]\<rparr>"

lemma mdemo_cancelled_ok: "mutex_ok mdemo_cancelled"
proof -
  have "qwf (threads mdemo_cancelled) (queues mdemo_cancelled)"
    by (rule qwfI) (auto simp: mdemo_cancelled_def thr_on_def thr0_def split: if_splits)
  moreover have "twf (threads mdemo_cancelled)"
    by (auto simp: twf_def mdemo_cancelled_def thr_on_def thr0_def state_ok_def split: if_splits)
  moreover have "running mdemo_cancelled" by (simp add: running_def mdemo_cancelled_def thr0_def)
  moreover have "mutex_inv mdemo_cancelled"
    by (auto simp: mutex_inv_def waits_on_def mdemo_cancelled_def split: option.split if_splits)
  ultimately show ?thesis by (simp add: mutex_ok_def sched_ok_def sched_inv_def)
qed

theorem kmutex_lock_cancellable_panics_witness:
  "kmutex_lock_cancellable errno_std [] 7 mdemo_cancelled = None"
  by (rule kmutex_lock_cancellable_panics [OF mdemo_cancelled_ok, of 7 1]) (simp_all add: mdemo_cancelled_def)

text \<open>
  A thread on its way through \<^verbatim>\<open>kmutex_lock_cancellable\<close>: it goes to sleep and the holder runs, the holder
  unlocks and passes the mutex on, and when the holder sleeps the thread runs again.
\<close>

lemma switch_only:
  assumes "sched_inv s" "tq_list (queues s Kt_runq) = [t]" "curthr s = Some c" "threads s c \<noteq> None" "threads s t = Some k"
  shows "sched_switch irqs s = Some (switch_st c (ipl s) t k (s\<lparr>ipl := IPL_LOW\<rparr>))"
proof -
  obtain t' k' where "t' = last (tq_list (queues s Kt_runq))" "threads s t' = Some k'"
    "sched_switch irqs s = Some (switch_st c (ipl s) t' k' (s\<lparr>ipl := IPL_LOW\<rparr>))"
    using sched_switch_ready [OF assms(1) _ assms(3,4)] assms(2) by (metis list.distinct(1))
  with assms(2,5) show ?thesis by simp
qed

lemma sleep_hands_over:
  assumes inv: "sched_inv s" and t: "curthr s = Some c" "threads s c = Some k" "kt_wchan k = None"
    and run: "tq_list (queues s Kt_runq) = [h]" "threads s h = Some kh" "h \<noteq> c" and q: "q \<noteq> Kt_runq"
    and st: "st = KT_SLEEP \<or> st = KT_SLEEP_CANCELLABLE"
  obtains s' where "sched_switch irqs (sleep_st st q c k s) = Some s'" "sched_inv s'" "curthr s' = Some h"
    "threads s' c \<noteq> None" "\<exists>k'. threads s' h = Some k' \<and> kt_wchan k' = None \<and> kt_cancelled k' = kt_cancelled kh"
    "tq_list (queues s' Kt_runq) = []" "tq_list (queues s' q) = c # tq_list (queues s q)" "sched_st.more s' = sched_st.more s"
proof -
  let ?s = "sleep_st st q c k s"
  let ?s' = "switch_st c (ipl s) h kh (?s\<lparr>ipl := IPL_LOW\<rparr>)"
  have si: "sched_inv ?s" by (rule sleep_st_inv [OF inv t(2,3) q st])
  have f: "tq_list (queues ?s Kt_runq) = [h]" "curthr ?s = Some c" "threads ?s c \<noteq> None" "threads ?s h = Some kh"
    using run t q by simp_all
  have sw: "sched_switch irqs ?s = Some ?s'" using switch_only [OF si f] by simp
  obtain kc where kc: "threads ?s c = Some kc" by simp
  have low: "sched_inv (?s\<lparr>ipl := IPL_LOW\<rparr>)" using si by simp
  have inv': "sched_inv ?s'"
  proof (rule switch_st_inv [OF low, THEN conjunct1])
    show "tq_list (queues (?s\<lparr>ipl := IPL_LOW\<rparr>) Kt_runq) \<noteq> []" "h = last (tq_list (queues (?s\<lparr>ipl := IPL_LOW\<rparr>) Kt_runq))"
      using run(1) q by simp_all
    show "threads (?s\<lparr>ipl := IPL_LOW\<rparr>) h = Some kh" "threads (?s\<lparr>ipl := IPL_LOW\<rparr>) c = Some kc" using run(2,3) kc by simp_all
  qed
  show thesis
  proof (rule that [OF sw inv'])
    show "curthr ?s' = Some h" "sched_st.more ?s' = sched_st.more s" by (simp_all add: switch_st_def)
    show "tq_list (queues ?s' Kt_runq) = []" "tq_list (queues ?s' q) = c # tq_list (queues s q)" using run q by (simp_all add: switch_st_def)
    show "threads ?s' c \<noteq> None" "\<exists>k'. threads ?s' h = Some k' \<and> kt_wchan k' = None \<and> kt_cancelled k' = kt_cancelled kh"
      using run(3) by (simp_all add: switch_st_def)
  qed
qed

text \<open>
  C30: a thread that is given the mutex and is cancelled before it runs does not give the mutex back. It calls
  \<^verbatim>\<open>kmutex_lock_cancellable\<close> while another thread holds the mutex, and sleeps; the holder unlocks, which makes the
  sleeper the holder; the sleeper is cancelled; when the former holder sleeps, on any other queue, the thread
  runs, and its call returns \<open>-EINTR\<close> while the mutex is still its own.
\<close>

theorem cancelled_holder_keeps_mutex:
  assumes "mutex_ok s" "\<forall>f \<in> set irqs. irq_within not_mutex f" "curthr s = Some w" "threads s w = Some kw" "\<not> kt_cancelled kw"
    and "km_holder s m = Some h" "h \<noteq> w" "threads s h = Some kh" "\<not> kt_cancelled kh"
    and "tq_contents Kt_runq s = [h]" "tq_contents (Km_waitq m) s = []" "not_mutex q" "q \<noteq> Kt_runq"
  shows "\<exists>s1 s2 s3 s4 s5. kmutex_lock_cancellable E irqs m s = Some (Blocked, s1) \<and> curthr s1 = Some h \<and>
     kmutex_unlock m s1 = Some s2 \<and> km_holder s2 m = Some w \<and> sched_cancel w s2 = Some s3 \<and>
     sched_sleep_on irqs q s3 = Some s4 \<and> curthr s4 = Some w \<and>
     kmutex_lock_cancellable_resume E s4 = Some (- E EINTR, s5) \<and> km_holder s5 m = Some w \<and> mutex_ok s5"
proof -
  from assms(1) have inv: "sched_inv s" and "running s" by (simp_all add: mutex_ok_def sched_ok_def)
  then have kw: "kt_wchan kw = None" using assms(3,4) by (auto simp: running_def)
  have l: "tq_list (queues s Kt_runq) = [h]" "tq_list (queues s (Km_waitq m)) = []" using assms(10,11) by (simp_all add: tq_contents_def)
  obtain s1 where s1: "sched_switch irqs (sleep_st KT_SLEEP_CANCELLABLE (Km_waitq m) w kw s) = Some s1" "sched_inv s1" "curthr s1 = Some h"
      "threads s1 w \<noteq> None" "\<exists>k'. threads s1 h = Some k' \<and> kt_wchan k' = None \<and> kt_cancelled k' = kt_cancelled kh"
      "tq_list (queues s1 Kt_runq) = []" "tq_list (queues s1 (Km_waitq m)) = w # tq_list (queues s (Km_waitq m))" "sched_st.more s1 = sched_st.more s"
    by (rule sleep_hands_over [OF inv assms(3,4) kw l(1) assms(8,7), of "Km_waitq m" KT_SLEEP_CANCELLABLE irqs]) blast+
  then obtain kw1 kh1 where t1: "threads s1 w = Some kw1" "threads s1 h = Some kh1" "kt_wchan kh1 = None" by blast
  have lock: "kmutex_lock_cancellable E irqs m s = Some (Blocked, s1)"
    using kmutex_lock_cancellable_busy [OF assms(3,4) kw assms(6,8), of E irqs] assms(5,7,9) s1(1)
    by (simp add: sched_cancellable_sleep_on_eq [OF assms(3,4) kw])
  have ok1: "mutex_ok s1" by (rule kmutex_lock_cancellable_ok [OF assms(1,2) lock])
  have h1: "km_holder s1 m = Some h" using km_holder_more [OF s1(8)] assms(6) by simp
  let ?s2 = "(wake_one (Km_waitq m) w kw1 s1)\<lparr>km_holder := (km_holder s1)(m := Some w)\<rparr>"
  have un: "kmutex_unlock m s1 = Some ?s2"
    by (rule kmutex_unlock_pass [OF s1(2,3) h1 _ _ t1(1) not_sym [OF assms(7)]]) (simp_all add: s1(7) l(2))
  have ok2: "mutex_ok ?s2" by (rule kmutex_unlock_ok [OF ok1 un])
  then have inv2: "sched_inv ?s2" by (simp add: mutex_ok_def sched_ok_def)
  let ?s3 = "cancel_st w (on_runq kw1) ?s2"
  have can: "sched_cancel w ?s2 = Some ?s3" by (rule sched_cancel_eq [OF inv2]) simp
  have ok3: "mutex_ok ?s3" by (rule mtx.step_inv [OF ok2 mutex_step.other [OF sched_step.cancel [OF can]]])
  then have inv3: "sched_inv ?s3" by (simp add: mutex_ok_def sched_ok_def)
  have t3: "curthr ?s3 = Some h" "threads ?s3 h = Some kh1" "kt_wchan kh1 = None" "tq_list (queues ?s3 Kt_runq) = [w]"
    "threads ?s3 w = Some ((on_runq kw1)\<lparr>kt_cancelled := True\<rparr>)" using s1(3,6) assms(7) t1(2,3) by (simp_all add: cancel_st_def wake_one_queues)
  obtain s4 where s4: "sched_switch irqs (sleep_st KT_SLEEP q h kh1 ?s3) = Some s4" "curthr s4 = Some w"
      "\<exists>k'. threads s4 w = Some k' \<and> kt_wchan k' = None \<and> kt_cancelled k' = kt_cancelled ((on_runq kw1)\<lparr>kt_cancelled := True\<rparr>)"
      "sched_st.more s4 = sched_st.more ?s3"
    by (rule sleep_hands_over [OF inv3 t3 not_sym [OF assms(7)] assms(13), of KT_SLEEP irqs]) blast+
  have sl: "sched_sleep_on irqs q ?s3 = Some s4" using s4(1) unfolding sched_sleep_on_eq [OF t3(1-3)] .
  have "mutex_ok s4" using mtx.step_inv [OF ok3 mutex_step.other [OF sched_step.sleep [OF assms(12,13,2) sl]]] .
  moreover have "km_holder s4 m = Some w" using km_holder_more [OF s4(4)] km_holder_more [of ?s3 ?s2] by simp
  moreover have "kmutex_lock_cancellable_resume E s4 = Some (- E EINTR, s4)"
    using s4(2,3) by (auto simp: kmutex_lock_cancellable_resume_def sched_cancellable_sleep_on_resume_def)
  ultimately show ?thesis using lock s1(3) un can sl s4(2) by fastforce
qed

text \<open>Thread 4 runs, thread 1 holds mutex 7 and waits to run.\<close>

definition mdemo_held :: mutex_st where
  "mdemo_held = \<lparr>threads = [1 \<mapsto> thr_on Kt_runq KT_RUN 11, 4 \<mapsto> thr0 14],
     queues = (\<lambda>_. \<lparr>tq_list = [], tq_size = 0\<rparr>)(Kt_runq := \<lparr>tq_list = [1], tq_size = 1\<rparr>),
     curthr = Some 4, curproc = Some 14, ipl = IPL_LOW, km_holder = [7 \<mapsto> 1]\<rparr>"

lemma mdemo_held_ok: "mutex_ok mdemo_held"
proof -
  have "qwf (threads mdemo_held) (queues mdemo_held)"
    by (rule qwfI) (auto simp: mdemo_held_def thr_on_def thr0_def split: if_splits)
  moreover have "twf (threads mdemo_held)"
    by (auto simp: twf_def mdemo_held_def thr_on_def thr0_def state_ok_def split: if_splits)
  moreover have "running mdemo_held" by (simp add: running_def mdemo_held_def thr0_def)
  moreover have "mutex_inv mdemo_held"
    by (auto simp: mutex_inv_def waits_on_def mdemo_held_def split: option.split if_splits)
  ultimately show ?thesis by (simp add: mutex_ok_def sched_ok_def sched_inv_def)
qed

theorem cancelled_holder_keeps_mutex_witness:
  "\<exists>s1 s2 s3 s4 s5. kmutex_lock_cancellable errno_std [] 7 mdemo_held = Some (Blocked, s1) \<and> kmutex_unlock 7 s1 = Some s2 \<and>
     sched_cancel 4 s2 = Some s3 \<and> sched_sleep_on [] (P_wait 11) s3 = Some s4 \<and>
     kmutex_lock_cancellable_resume errno_std s4 = Some (- 4, s5) \<and> km_holder s5 7 = Some 4"
proof -
  have "curthr mdemo_held = Some 4" "threads mdemo_held 4 = Some (thr0 14)" "\<not> kt_cancelled (thr0 14)" "km_holder mdemo_held 7 = Some 1"
    "threads mdemo_held 1 = Some (thr_on Kt_runq KT_RUN 11)" "\<not> kt_cancelled (thr_on Kt_runq KT_RUN 11)"
    "tq_contents Kt_runq mdemo_held = [1]" "tq_contents (Km_waitq 7) mdemo_held = []" "not_mutex (P_wait 11)" "P_wait 11 \<noteq> Kt_runq"
    by (simp_all add: mdemo_held_def tq_contents_def thr_on_def thr0_def not_mutex_def)
  from cancelled_holder_keeps_mutex [OF mdemo_held_ok _ this(1-4) _ this(5-10), of "[]" errno_std] show ?thesis by fastforce
qed

end
