(* ===== verification/Proc.thy ===== *)
theory Proc
  imports Kmutex
begin

section \<open>Processes and threads\<close>

text \<open>
  The model of \<^verbatim>\<open>K1/proc.c\<close> and of \<^verbatim>\<open>K1/kthread.c\<close> (with \<^verbatim>\<open>kthread_clone\<close> of \<^verbatim>\<open>K3/kthread.c\<close>). The two files
  call each other, and are one theory here.

  A process is a key of the store \<open>procs\<close>. Memory from the slab allocators is an argument of the
  function that allocates: \<open>None\<close> is \<^verbatim>\<open>NULL\<close>, and otherwise a pointer with the (uninitialised) object it
  points to. The results of \<^verbatim>\<open>alloc_stack\<close> and \<^verbatim>\<open>pt_create_pagedir\<close>, and the function \<^verbatim>\<open>context_setup\<close>,
  which lie outside the repository, are arguments as well, as are the constants of the header files
  (record \<open>kconf\<close>).

  The link \<^verbatim>\<open>p_child_link\<close> records the process on whose list of children it is linked. The fields of
  \<^verbatim>\<open>proc_t\<close> that belong to the file system and to virtual memory are part of the record; \<^verbatim>\<open>proc_create\<close>
  does not set them.
\<close>

record kconf =
  PROC_MAX_COUNT :: int
  PROC_NAME_LEN :: nat

definition PID_IDLE :: int where
  "PID_IDLE = 0"

definition PID_INIT :: int where
  "PID_INIT = 1"

datatype proc_state = PROC_RUNNING | PROC_DEAD

record proc =
  p_pid :: int
  p_comm :: string
  p_threads :: "tid list"
  p_children :: "ptr list"
  p_pproc :: "ptr option"
  p_status :: int
  p_state :: proc_state
  p_pagedir :: "ptr option"
  p_child_link :: "ptr option"
  p_files :: "ptr option list"
  p_cwd :: "ptr option"
  p_vmmap :: "ptr option"
  p_start_brk :: u32
  p_brk :: u32

record proc_st = mutex_st +
  procs :: "ptr \<Rightarrow> proc option"
  proc_list :: "ptr list"
  proc_initproc :: "ptr option"
  next_pid :: int

definition proc_upd :: "ptr \<Rightarrow> (proc \<Rightarrow> proc) \<Rightarrow> 'a proc_st_scheme \<Rightarrow> 'a proc_st_scheme option" where
  "proc_upd p f s = do {
     pr \<leftarrow> procs s p;
     Some (s\<lparr>procs := (procs s)(p \<mapsto> f pr)\<rparr>)
   }"

subsection \<open>Looking up and creating processes\<close>

fun proc_lookup_list :: "(ptr \<Rightarrow> proc option) \<Rightarrow> int \<Rightarrow> ptr list \<Rightarrow> ptr option option" where
  "proc_lookup_list P pid [] = Some None"
| "proc_lookup_list P pid (p # ps) = do {
     pr \<leftarrow> P p;
     if p_pid pr = pid then Some (Some p) else proc_lookup_list P pid ps
   }"

definition proc_lookup :: "int \<Rightarrow> 'a proc_st_scheme \<Rightarrow> ptr option option" where
  "proc_lookup pid s = proc_lookup_list (procs s) pid (proc_list s)"

text \<open>
  \<^verbatim>\<open>_proc_getid\<close> scans the whole list again for each candidate. The result \<open>-1\<close> leaves \<^verbatim>\<open>next_pid\<close> as it
  is.
\<close>

partial_function (option) proc_getid_loop ::
  "int \<Rightarrow> 'a proc_st_scheme \<Rightarrow> int \<Rightarrow> (int \<times> 'a proc_st_scheme) option" where
  "proc_getid_loop maxc s pid = do {
     p \<leftarrow> proc_lookup pid s;
     if p \<noteq> None then
       (let pid = (pid + 1) mod maxc in
        if pid = next_pid s then Some (- 1, s) else proc_getid_loop maxc s pid)
     else Some (pid, s\<lparr>next_pid := (pid + 1) mod maxc\<rparr>)
   }"

definition proc_getid :: "kconf \<Rightarrow> 'a proc_st_scheme \<Rightarrow> (int \<times> 'a proc_st_scheme) option" where
  "proc_getid C s = proc_getid_loop (PROC_MAX_COUNT C) s (next_pid s)"

definition proc_create ::
  "kconf \<Rightarrow> (ptr \<times> proc) option \<Rightarrow> ptr option \<Rightarrow> string \<Rightarrow> 'a proc_st_scheme
    \<Rightarrow> (ptr \<times> 'a proc_st_scheme) option" where
  "proc_create C slab pagedir name s = do {
     (p, obj) \<leftarrow> slab;
     (pid, s) \<leftarrow> proc_getid C s;
     _ \<leftarrow> kassert (PID_IDLE \<noteq> pid \<or> proc_list s = []);
     _ \<leftarrow> (if PID_INIT \<noteq> pid then Some () else do {
             cp \<leftarrow> curproc s; cpr \<leftarrow> procs s cp; kassert (PID_IDLE = p_pid cpr)
           });
     let obj = obj\<lparr>p_pid := pid, p_comm := take (PROC_NAME_LEN C - 1) name, p_threads := [],
                   p_children := [], p_pproc := curproc s\<rparr>;
     let s = (if pid = PID_INIT then s\<lparr>proc_initproc := Some p\<rparr> else s);
     let obj = obj\<lparr>p_status := 0, p_state := PROC_RUNNING\<rparr>;
     let s = sched_queue_init (P_wait p) s;
     let obj = obj\<lparr>p_pagedir := pagedir, p_child_link := None\<rparr>;
     (obj, s) \<leftarrow> (case curproc s of
         Some cp \<Rightarrow> do {
           s \<leftarrow> proc_upd cp (\<lambda>cpr. cpr\<lparr>p_children := p_children cpr @ [p]\<rparr>) s;
           Some (obj\<lparr>p_child_link := Some cp\<rparr>, s)
         }
       | None \<Rightarrow> Some (obj, s));
     let s = s\<lparr>proc_list := proc_list s @ [p]\<rparr>;
     Some (p, s\<lparr>procs := (procs s)(p \<mapsto> obj)\<rparr>)
   }"

subsection \<open>Creating and destroying threads\<close>

type_synonym ctx_setup = "ptr option \<Rightarrow> int \<Rightarrow> ptr option \<Rightarrow> ptr option \<Rightarrow> ptr option \<Rightarrow> context_t"

definition kthread_create ::
  "ctx_setup \<Rightarrow> (tid \<times> kthread) option \<Rightarrow> ptr option \<Rightarrow> ptr option \<Rightarrow> ptr option \<Rightarrow> int \<Rightarrow> ptr option
    \<Rightarrow> 'a proc_st_scheme \<Rightarrow> (tid \<times> 'a proc_st_scheme) option" where
  "kthread_create context_setup slab kstack p func arg1 arg2 s = do {
     p \<leftarrow> p;
     pr \<leftarrow> procs s p;
     (t, obj) \<leftarrow> slab;
     let obj = obj\<lparr>kt_kstack := kstack, kt_retval := 0, kt_errno := 0, kt_proc := Some p,
                   kt_cancelled := False, kt_state := KT_RUN, kt_wchan := None, kt_qlink := None,
                   kt_plink := Some p, kt_stk_ipl := None,
                   kt_ctx := context_setup func arg1 arg2 kstack (p_pagedir pr)\<rparr>;
     s \<leftarrow> proc_upd p (\<lambda>pr. pr\<lparr>p_threads := p_threads pr @ [t]\<rparr>) s;
     Some (t, s\<lparr>threads := (threads s)(t \<mapsto> obj)\<rparr>)
   }"

definition kthread_destroy :: "tid \<Rightarrow> 'a proc_st_scheme \<Rightarrow> 'a proc_st_scheme option" where
  "kthread_destroy t s = do {
     thr \<leftarrow> threads s t;
     _ \<leftarrow> kassert (kt_kstack thr \<noteq> None);
     s \<leftarrow> (case kt_plink thr of
         Some p \<Rightarrow> proc_upd p (\<lambda>pr. pr\<lparr>p_threads := remove1 t (p_threads pr)\<rparr>) s
       | None \<Rightarrow> Some s);
     Some (s\<lparr>threads := (threads s)(t := None)\<rparr>)
   }"

definition kthread_clone ::
  "ctx_setup \<Rightarrow> (tid \<times> kthread) option \<Rightarrow> ptr option \<Rightarrow> tid \<Rightarrow> 'a proc_st_scheme
    \<Rightarrow> (tid \<times> 'a proc_st_scheme) option" where
  "kthread_clone context_setup slab kstack t s = do {
     (ct, obj) \<leftarrow> slab;
     thr \<leftarrow> threads s t;
     p \<leftarrow> kt_proc thr;
     pr \<leftarrow> procs s p;
     let obj = obj\<lparr>kt_kstack := kstack,
                   kt_ctx := context_setup None 0 None kstack (p_pagedir pr),
                   kt_proc := None, kt_state := kt_state thr, kt_retval := kt_retval thr,
                   kt_cancelled := kt_cancelled thr, kt_wchan := kt_wchan thr, kt_errno := kt_errno thr,
                   kt_qlink := None, kt_plink := None, kt_stk_ipl := None\<rparr>;
     Some (ct, s\<lparr>threads := (threads s)(ct \<mapsto> obj)\<rparr>)
   }"

subsection \<open>Exiting and cancelling\<close>

text \<open>
  The loop of \<^verbatim>\<open>proc_cleanup\<close> links each child at the tail of the list of the init process, without
  unlinking it from the list it is on: the list head of the exiting process keeps pointing at its
  first child. When the exiting process is the init process itself and has children, the loop
  destroys the list it walks on; this is \<open>None\<close> here.
\<close>

fun reparent :: "ptr \<Rightarrow> ptr list \<Rightarrow> 'a proc_st_scheme \<Rightarrow> 'a proc_st_scheme option" where
  "reparent init [] s = Some s"
| "reparent init (c # cs) s = do {
     s \<leftarrow> proc_upd init (\<lambda>pr. pr\<lparr>p_children := p_children pr @ [c]\<rparr>) s;
     s \<leftarrow> proc_upd c (\<lambda>pr. pr\<lparr>p_child_link := Some init, p_pproc := Some init\<rparr>) s;
     reparent init cs s
   }"

definition proc_cleanup :: "int \<Rightarrow> 'a proc_st_scheme \<Rightarrow> 'a proc_st_scheme option" where
  "proc_cleanup status s = do {
     init \<leftarrow> proc_initproc s;
     cp \<leftarrow> curproc s;
     cpr \<leftarrow> procs s cp;
     _ \<leftarrow> kassert (1 \<le> p_pid cpr);
     pp \<leftarrow> p_pproc cpr;
     (_, s) \<leftarrow> sched_wakeup_on (P_wait pp) s;
     _ \<leftarrow> kassert (cp \<noteq> init \<or> p_children cpr = []);
     s \<leftarrow> reparent init (p_children cpr) s;
     s \<leftarrow> proc_upd cp (\<lambda>pr. pr\<lparr>p_status := status, p_state := PROC_DEAD\<rparr>) s;
     t \<leftarrow> curthr s;
     thr \<leftarrow> threads s t;
     _ \<leftarrow> kassert (KT_EXITED = kt_state thr);
     Some s
   }"

definition proc_thread_exited ::
  "('a proc_st_scheme \<Rightarrow> 'a proc_st_scheme option) list \<Rightarrow> int \<Rightarrow> 'a proc_st_scheme \<Rightarrow> 'a proc_st_scheme option" where
  "proc_thread_exited irqs retval s = do {
     s \<leftarrow> proc_cleanup retval s;
     sched_switch irqs s
   }"

definition kthread_exit ::
  "('a proc_st_scheme \<Rightarrow> 'a proc_st_scheme option) list \<Rightarrow> int \<Rightarrow> 'a proc_st_scheme \<Rightarrow> 'a proc_st_scheme option" where
  "kthread_exit irqs retval s = do {
     t \<leftarrow> curthr s;
     thr \<leftarrow> threads s t;
     _ \<leftarrow> kassert (kt_wchan thr = None);
     _ \<leftarrow> kassert (kt_qlink thr = None);
     _ \<leftarrow> kassert (kt_proc thr = curproc s);
     s \<leftarrow> thr_upd t (\<lambda>k. k\<lparr>kt_retval := retval, kt_state := KT_EXITED\<rparr>) s;
     proc_thread_exited irqs retval s
   }"

definition do_exit ::
  "('a proc_st_scheme \<Rightarrow> 'a proc_st_scheme option) list \<Rightarrow> int \<Rightarrow> 'a proc_st_scheme \<Rightarrow> 'a proc_st_scheme option" where
  "do_exit irqs status s = kthread_exit irqs status s"

definition kthread_cancel ::
  "('a proc_st_scheme \<Rightarrow> 'a proc_st_scheme option) list \<Rightarrow> tid \<Rightarrow> int \<Rightarrow> 'a proc_st_scheme
    \<Rightarrow> (unit outcome \<times> 'a proc_st_scheme) option" where
  "kthread_cancel irqs t retval s = do {
     s \<leftarrow> thr_upd t (\<lambda>k. k\<lparr>kt_cancelled := True\<rparr>) s;
     if Some t = curthr s then do {
       s \<leftarrow> kthread_exit irqs retval s;
       Some (Blocked, s)
     } else do {
       s \<leftarrow> thr_upd t (\<lambda>k. k\<lparr>kt_retval := retval\<rparr>) s;
       s \<leftarrow> sched_cancel t s;
       Some (Returned (), s)
     }
   }"

fun kill_threads ::
  "('a proc_st_scheme \<Rightarrow> 'a proc_st_scheme option) list \<Rightarrow> int \<Rightarrow> tid list \<Rightarrow> 'a proc_st_scheme
    \<Rightarrow> (unit outcome \<times> 'a proc_st_scheme) option" where
  "kill_threads irqs status [] s = Some (Returned (), s)"
| "kill_threads irqs status (t # ts) s = do {
     (r, s) \<leftarrow> kthread_cancel irqs t status s;
     case r of Blocked \<Rightarrow> Some (Blocked, s) | Returned _ \<Rightarrow> kill_threads irqs status ts s
   }"

definition proc_kill ::
  "('a proc_st_scheme \<Rightarrow> 'a proc_st_scheme option) list \<Rightarrow> ptr \<Rightarrow> int \<Rightarrow> 'a proc_st_scheme
    \<Rightarrow> (unit outcome \<times> 'a proc_st_scheme) option" where
  "proc_kill irqs p status s =
     (if Some p = curproc s then do {
        s \<leftarrow> do_exit irqs status s;
        Some (Blocked, s)
      } else do {
        pr \<leftarrow> procs s p;
        kill_threads irqs status (p_threads pr) s
      })"

definition parent_not_idle :: "proc \<Rightarrow> 'a proc_st_scheme \<Rightarrow> bool option" where
  "parent_not_idle pr s = (case p_pproc pr of
       None \<Rightarrow> Some False
     | Some pp \<Rightarrow> do { ppr \<leftarrow> procs s pp; Some (p_pid ppr \<noteq> PID_IDLE) })"

fun kill_procs ::
  "('a proc_st_scheme \<Rightarrow> 'a proc_st_scheme option) list \<Rightarrow> ptr list \<Rightarrow> 'a proc_st_scheme
    \<Rightarrow> (unit outcome \<times> 'a proc_st_scheme) option" where
  "kill_procs irqs [] s = Some (Returned (), s)"
| "kill_procs irqs (p # ps) s = do {
     pr \<leftarrow> procs s p;
     user \<leftarrow> parent_not_idle pr s;
     if user \<and> p_pid pr \<noteq> PID_IDLE \<and> Some p \<noteq> curproc s then do {
       (r, s) \<leftarrow> proc_kill irqs p 0 s;
       case r of Blocked \<Rightarrow> Some (Blocked, s) | Returned _ \<Rightarrow> kill_procs irqs ps s
     } else kill_procs irqs ps s
   }"

definition proc_kill_all ::
  "('a proc_st_scheme \<Rightarrow> 'a proc_st_scheme option) list \<Rightarrow> 'a proc_st_scheme
    \<Rightarrow> (unit outcome \<times> 'a proc_st_scheme) option" where
  "proc_kill_all irqs s = do {
     (r, s) \<leftarrow> kill_procs irqs (proc_list s) s;
     case r of Blocked \<Rightarrow> Some (Blocked, s)
     | Returned _ \<Rightarrow> do {
         cp \<leftarrow> curproc s;
         cpr \<leftarrow> procs s cp;
         user \<leftarrow> parent_not_idle cpr s;
         if user then proc_kill irqs cp 0 s else Some (Returned (), s)
       }
   }"

subsection \<open>Waiting for a child\<close>

text \<open>
  The result of \<^verbatim>\<open>do_waitpid\<close> is its outcome and what it has stored in \<^verbatim>\<open>*status\<close>, if anything.
  \<open>reap\<close> is the part that both branches have in common: unlinking and freeing the dead process.
\<close>

definition reap :: "ptr \<Rightarrow> 'a proc_st_scheme \<Rightarrow> 'a proc_st_scheme option" where
  "reap p s = do {
     pr \<leftarrow> procs s p;
     let s = s\<lparr>proc_list := remove1 p (proc_list s)\<rparr>;
     s \<leftarrow> (case p_child_link pr of
         Some pp \<Rightarrow> do {
           s \<leftarrow> proc_upd pp (\<lambda>ppr. ppr\<lparr>p_children := remove1 p (p_children ppr)\<rparr>) s;
           proc_upd p (\<lambda>pr. pr\<lparr>p_child_link := None\<rparr>) s
         }
       | None \<Rightarrow> Some s);
     s \<leftarrow> (case p_threads pr of t # _ \<Rightarrow> kthread_destroy t s | [] \<Rightarrow> None);
     Some (s\<lparr>procs := (procs s)(p := None)\<rparr>)
   }"

fun find_child :: "(ptr \<Rightarrow> proc option) \<Rightarrow> (proc \<Rightarrow> bool) \<Rightarrow> ptr list \<Rightarrow> ptr option option" where
  "find_child P f [] = Some None"
| "find_child P f (c # cs) = do {
     cr \<leftarrow> P c;
     if f cr then Some (Some c) else find_child P f cs
   }"

definition waitpid_any ::
  "('a proc_st_scheme \<Rightarrow> 'a proc_st_scheme option) list \<Rightarrow> bool \<Rightarrow> 'a proc_st_scheme
    \<Rightarrow> ((int outcome \<times> int option) \<times> 'a proc_st_scheme) option" where
  "waitpid_any irqs status_ok s = do {
     cp \<leftarrow> curproc s;
     cpr \<leftarrow> procs s cp;
     dead \<leftarrow> find_child (procs s) (\<lambda>c. p_state c = PROC_DEAD) (p_children cpr);
     case dead of
       Some p \<Rightarrow> do {
         pr \<leftarrow> procs s p;
         _ \<leftarrow> kassert (p_pagedir pr \<noteq> None);
         _ \<leftarrow> kassert status_ok;
         s \<leftarrow> reap p s;
         Some ((Returned (p_pid pr), Some (p_status pr)), s)
       }
     | None \<Rightarrow> do {
         s \<leftarrow> sched_sleep_on irqs (P_wait cp) s;
         Some ((Blocked, None), s)
       }
   }"

text \<open>The loop that waits for one child to die; \<open>pidReturn\<close> has been read before.\<close>

definition waitpid_one ::
  "('a proc_st_scheme \<Rightarrow> 'a proc_st_scheme option) list \<Rightarrow> ptr \<Rightarrow> int \<Rightarrow> 'a proc_st_scheme
    \<Rightarrow> (int outcome \<times> 'a proc_st_scheme) option" where
  "waitpid_one irqs p pidReturn s = do {
     pr \<leftarrow> procs s p;
     if p_state pr \<noteq> PROC_DEAD then do {
       cp \<leftarrow> curproc s;
       s \<leftarrow> sched_sleep_on irqs (P_wait cp) s;
       Some (Blocked, s)
     } else do {
       s \<leftarrow> reap p s;
       Some (Returned pidReturn, s)
     }
   }"

definition do_waitpid ::
  "(errno \<Rightarrow> int) \<Rightarrow> ('a proc_st_scheme \<Rightarrow> 'a proc_st_scheme option) list \<Rightarrow> int \<Rightarrow> bool \<Rightarrow> 'a proc_st_scheme
    \<Rightarrow> ((int outcome \<times> int option) \<times> 'a proc_st_scheme) option" where
  "do_waitpid E irqs pid status_ok s = do {
     cp \<leftarrow> curproc s;
     cpr \<leftarrow> procs s cp;
     if p_children cpr = [] then Some ((Returned (- E ECHILD), None), s)
     else if pid = - 1 then waitpid_any irqs status_ok s
     else if pid > 0 then do {
       child \<leftarrow> find_child (procs s) (\<lambda>c. p_pid c = pid) (p_children cpr);
       case child of
         Some p \<Rightarrow> do {
           pr \<leftarrow> procs s p;
           _ \<leftarrow> kassert (p_pagedir pr \<noteq> None);
           _ \<leftarrow> kassert status_ok;
           (r, s) \<leftarrow> waitpid_one irqs p (p_pid pr) s;
           Some ((r, Some (p_status pr)), s)
         }
       | None \<Rightarrow> Some ((Returned (- E ECHILD), None), s)
     } else Some ((Returned (- E ECHILD), None), s)
   }"

end
