(* ===== verification/Proc_Tree.thy ===== *)
theory Proc_Tree
  imports Proc
begin

section \<open>The process table and the process tree\<close>

text \<open>
  Correctness of \<^verbatim>\<open>K1/proc.c\<close>: the search for a free process id, the invariant of the process table and of
  the parent/child relation, that creating, exiting and reaping a process keep it, and what a parent
  learns from \<^verbatim>\<open>do_waitpid\<close>.
\<close>

subsection \<open>Searching the list of processes\<close>

definition pid_used :: "'a proc_st_scheme \<Rightarrow> int \<Rightarrow> bool" where
  "pid_used s pid \<longleftrightarrow> (\<exists>p \<in> set (proc_list s). map_option p_pid (procs s p) = Some pid)"

lemma proc_lookup_list_eq:
  "set ps \<subseteq> dom P \<Longrightarrow> proc_lookup_list P pid ps = Some (find (\<lambda>p. p_pid (the (P p)) = pid) ps)"
  by (induction ps) auto

lemma find_child_eq: "set cs \<subseteq> dom P \<Longrightarrow> find_child P f cs = Some (find (\<lambda>c. f (the (P c))) cs)"
  by (induction cs) auto

lemma proc_lookup_used:
  assumes "set (proc_list s) \<subseteq> dom (procs s)"
  obtains r where "proc_lookup pid s = Some r" "r \<noteq> None \<longleftrightarrow> pid_used s pid"
proof -
  have "p \<in> set (proc_list s) \<Longrightarrow> map_option p_pid (procs s p) = Some pid \<longleftrightarrow> p_pid (the (procs s p)) = pid" for p
    using assms by (cases "procs s p") auto
  then have "find (\<lambda>p. p_pid (the (procs s p)) = pid) (proc_list s) \<noteq> None \<longleftrightarrow> pid_used s pid"
    by (auto simp: find_None_iff pid_used_def)
  with that show thesis by (simp add: proc_lookup_def proc_lookup_list_eq [OF assms])
qed

subsection \<open>Finding a free process id\<close>

lemma mod_pred:
  fixes M x :: int
  assumes "0 < x mod M" "0 < M"
  shows "(x - 1) mod M = x mod M - 1"
proof -
  have "x mod M < M" using assms(2) by simp
  have "(x - 1) mod M = (x mod M - 1) mod M" by (simp add: mod_diff_left_eq)
  also have "\<dots> = x mod M - 1" using assms \<open>x mod M < M\<close> by (intro mod_pos_pos_trivial) auto
  finally show ?thesis .
qed

lemma proc_getid_loop_spec:
  assumes L: "set (proc_list s) \<subseteq> dom (procs s)" and M: "0 < M" "0 \<le> next_pid s" "next_pid s < M"
    and pid: "0 \<le> pid" "pid < M" and d: "int d = (next_pid s - pid - 1) mod M"
  shows "(\<exists>j \<le> d. (\<forall>i < j. pid_used s ((pid + int i) mod M)) \<and> \<not> pid_used s ((pid + int j) mod M) \<and>
       proc_getid_loop M s pid = Some ((pid + int j) mod M, s\<lparr>next_pid := (((pid + int j) mod M) + 1) mod M\<rparr>)) \<or>
     (\<forall>i \<le> d. pid_used s ((pid + int i) mod M)) \<and> proc_getid_loop M s pid = Some (- 1, s)"
  using pid d
proof (induction d arbitrary: pid)
  case (0 pid)
  obtain r where r: "proc_lookup pid s = Some r" "r \<noteq> None \<longleftrightarrow> pid_used s pid"
    by (rule proc_lookup_used [OF L])
  have "M dvd next_pid s - (pid + 1)" using 0(3) by (simp add: algebra_simps mod_eq_0_iff_dvd)
  then have "next_pid s mod M = (pid + 1) mod M" by (simp add: mod_eq_dvd_iff)
  then have n: "(pid + 1) mod M = next_pid s" using M by simp
  from r n 0(1,2) show ?case
    by (subst (1 2) proc_getid_loop.simps) (auto simp: Let_def)
next
  case (Suc d pid)
  obtain r where r: "proc_lookup pid s = Some r" "r \<noteq> None \<longleftrightarrow> pid_used s pid"
    by (rule proc_lookup_used [OF L])
  show ?case
  proof (cases "pid_used s pid")
    case False
    with r Suc.prems(1,2) have "proc_getid_loop M s pid = Some (pid, s\<lparr>next_pid := (pid + 1) mod M\<rparr>)"
      by (subst proc_getid_loop.simps) simp
    with False Suc.prems(1,2) show ?thesis by (intro disjI1 exI [of _ 0]) simp
  next
    case True
    let ?p = "(pid + 1) mod M"
    have "(next_pid s - pid - 1) mod M \<noteq> 0" using Suc.prems(3) by simp
    then have "next_pid s mod M \<noteq> (pid + 1) mod M"
      by (simp add: mod_eq_dvd_iff dvd_eq_mod_eq_0 algebra_simps)
    then have n: "?p \<noteq> next_pid s" using M by simp
    have step: "proc_getid_loop M s pid = proc_getid_loop M s ?p"
      using r True n by (subst proc_getid_loop.simps) (simp add: Let_def)
    have "(next_pid s - ?p - 1) mod M = (next_pid s - (pid + 1) - 1) mod M"
      by (metis mod_diff_left_eq mod_diff_right_eq)
    also have "\<dots> = (next_pid s - pid - 1) mod M - 1"
      using mod_pred [of "next_pid s - pid - 1" M] Suc.prems(3) M(1) by (simp add: algebra_simps)
    finally have d: "int d = (next_pid s - ?p - 1) mod M" using Suc.prems(3) by simp
    have sh: "(?p + int i) mod M = (pid + int (Suc i)) mod M" for i
      using mod_add_left_eq [of "pid + 1" M "int i"] by (simp add: ac_simps)
    have used: "pid_used s ((pid + int i) mod M)"
      if "\<forall>i < j. pid_used s ((?p + int i) mod M)" "i < Suc j" for i j
      using that True Suc.prems(1,2) by (cases i) (auto simp: sh)
    have "0 \<le> ?p" "?p < M" using M(1) by simp_all
    from Suc.IH [OF this d] show ?thesis
    proof (elim disjE exE conjE)
      fix j assume j: "j \<le> d" "\<forall>i < j. pid_used s ((?p + int i) mod M)" "\<not> pid_used s ((?p + int j) mod M)"
        "proc_getid_loop M s ?p = Some ((?p + int j) mod M, s\<lparr>next_pid := ((?p + int j) mod M + 1) mod M\<rparr>)"
      then show ?thesis
        using step used [OF j(2)] unfolding sh by (intro disjI1 exI [of _ "Suc j"]) auto
    next
      assume a: "\<forall>i \<le> d. pid_used s ((?p + int i) mod M)" "proc_getid_loop M s ?p = Some (- 1, s)"
      then have "\<forall>i < Suc d. pid_used s ((?p + int i) mod M)" by auto
      from used [OF this] have "\<forall>i \<le> Suc d. pid_used s ((pid + int i) mod M)" by auto
      with a step show ?thesis by auto
    qed
  qed
qed

subsection \<open>The process tree\<close>

text \<open>
  The list of processes has each process once. The child link of a process is on the list of its
  parent; its parent is another process, which still runs; and the children of a running process are
  exactly the processes whose parent it is, each once. (A dead process keeps a stale list, and has no
  children.)
\<close>

definition parent_of :: "(ptr \<Rightarrow> proc option) \<Rightarrow> ptr \<Rightarrow> ptr option" where
  "parent_of P c = Option.bind (P c) p_pproc"

definition is_running :: "(ptr \<Rightarrow> proc option) \<Rightarrow> ptr \<Rightarrow> bool" where
  "is_running P p \<longleftrightarrow> map_option p_state (P p) = Some PROC_RUNNING"

definition node_ok :: "(ptr \<Rightarrow> proc option) \<Rightarrow> ptr \<Rightarrow> proc \<Rightarrow> bool" where
  "node_ok P p pr \<longleftrightarrow> p_child_link pr = p_pproc pr \<and> p_pproc pr \<noteq> Some p \<and>
     (\<forall>pp. p_pproc pr = Some pp \<longrightarrow> is_running P pp) \<and>
     (p_state pr = PROC_RUNNING \<longrightarrow>
        distinct (p_children pr) \<and> set (p_children pr) = {c. parent_of P c = Some p})"

definition tree_ok :: "(ptr \<Rightarrow> proc option) \<Rightarrow> ptr list \<Rightarrow> bool" where
  "tree_ok P L \<longleftrightarrow> distinct L \<and> set L = dom P \<and> (\<forall>p pr. P p = Some pr \<longrightarrow> node_ok P p pr)"

lemma tree_okD:
  assumes "tree_ok P L"
  shows "distinct L" "set L = dom P" "P p = Some pr \<Longrightarrow> node_ok P p pr"
  using assms by (auto simp: tree_ok_def)

lemma parent_of_simps [simp]: "P c = Some pr \<Longrightarrow> parent_of P c = p_pproc pr" "P c = None \<Longrightarrow> parent_of P c = None"
  by (simp_all add: parent_of_def)

lemma tree_parent_running:
  assumes "tree_ok P L" "parent_of P c = Some p"
  shows "is_running P p"
proof -
  from assms(2) obtain cr where cr: "P c = Some cr" "p_pproc cr = Some p"
    by (auto simp: parent_of_def bind_eq_Some_conv)
  from tree_okD(3) [OF assms(1) cr(1)] cr(2) show ?thesis by (simp add: node_ok_def)
qed

lemma tree_children:
  assumes "tree_ok P L" "P p = Some pr" "p_state pr = PROC_RUNNING"
  shows "distinct (p_children pr)" "set (p_children pr) = {c. parent_of P c = Some p}"
  using tree_okD(3) [OF assms(1,2)] assms(3) by (auto simp: node_ok_def)

text \<open>A new process, as the last child of a running process or as the root.\<close>

lemma tree_ok_create:
  assumes tr: "tree_ok P L" and p: "P p = None" and cp: "P cp = Some cpr" "p_state cpr = PROC_RUNNING"
    and obj: "p_child_link obj = Some cp" "p_pproc obj = Some cp" "p_children obj = []"
  shows "tree_ok (P(cp \<mapsto> cpr\<lparr>p_children := p_children cpr @ [p]\<rparr>, p \<mapsto> obj)) (L @ [p])"
proof -
  let ?P = "P(cp \<mapsto> cpr\<lparr>p_children := p_children cpr @ [p]\<rparr>, p \<mapsto> obj)"
  from p cp have ne: "cp \<noteq> p" by auto
  have par: "parent_of ?P c = (if c = p then Some cp else parent_of P c)" for c
    using cp p obj by (auto simp: parent_of_def)
  have st: "is_running P q \<Longrightarrow> is_running ?P q" for q
    using p cp by (auto simp: is_running_def)
  have nop: "parent_of P c \<noteq> Some p" for c
    using tree_parent_running [OF tr, of c p] p by (auto simp: is_running_def)
  have pn: "parent_of P p = None" using p by simp
  have "node_ok ?P q qr" if q: "?P q = Some qr" for q qr
  proof -
    consider "q = p" "qr = obj" | "q = cp" "q \<noteq> p" "qr = cpr\<lparr>p_children := p_children cpr @ [p]\<rparr>"
      | "q \<noteq> p" "q \<noteq> cp" "P q = Some qr" using q ne by (auto split: if_splits)
    then show ?thesis
    proof cases
      case 1
      with obj cp ne nop show ?thesis by (auto simp: node_ok_def par is_running_def)
    next
      case 2
      with tree_okD(3) [OF tr cp(1)] st tree_children [OF tr cp] pn show ?thesis
        by (auto simp: node_ok_def par)
    next
      case 3
      with tree_okD(3) [OF tr 3(3)] st pn show ?thesis by (auto simp: node_ok_def par)
    qed
  qed
  moreover have "set (L @ [p]) = dom ?P" using tree_okD(2) [OF tr] cp by auto
  moreover have "distinct (L @ [p])" using tree_okD(1,2) [OF tr] p by auto
  ultimately show ?thesis by (simp add: tree_ok_def)
qed

text \<open>A process exits: its children pass to the init process.\<close>

definition exit_store :: "ptr \<Rightarrow> ptr \<Rightarrow> proc \<Rightarrow> int \<Rightarrow> (ptr \<Rightarrow> proc option) \<Rightarrow> ptr \<Rightarrow> proc option" where
  "exit_store init cp cpr status P = (\<lambda>q.
     if q = cp then Some (cpr\<lparr>p_status := status, p_state := PROC_DEAD\<rparr>)
     else if q \<in> set (p_children cpr) then map_option (\<lambda>pr. pr\<lparr>p_child_link := Some init, p_pproc := Some init\<rparr>) (P q)
     else if q = init then map_option (\<lambda>pr. pr\<lparr>p_children := p_children pr @ p_children cpr\<rparr>) (P q)
     else P q)"

lemma tree_ok_exit:
  assumes tr: "tree_ok P L" and cp: "P cp = Some cpr" "p_state cpr = PROC_RUNNING"
    and init: "p_children cpr = [] \<or> cp \<noteq> init \<and> init \<notin> set (p_children cpr) \<and>
      is_running P init"
  shows "tree_ok (exit_store init cp cpr status P) L"
proof -
  let ?P = "exit_store init cp cpr status P"
  note ch = tree_children [OF tr cp]
  have kids: "c \<in> set (p_children cpr) \<longleftrightarrow> parent_of P c = Some cp" for c using ch by auto
  have cpn: "cp \<notin> set (p_children cpr)" using tree_okD(3) [OF tr cp(1)] cp by (auto simp: kids node_ok_def)
  have par: "parent_of ?P c = (if c \<in> set (p_children cpr) then Some init else parent_of P c)" for c
    using cp cpn kids [of c] by (auto simp: exit_store_def parent_of_def split: bind_splits)
  have st: "is_running ?P q = is_running P q" if "q \<noteq> cp" for q
    using that by (auto simp: is_running_def exit_store_def option.map_comp comp_def)
  have "node_ok ?P q qr" if q: "?P q = Some qr" for q qr
  proof (cases "q = cp")
    case True
    with q have "qr = cpr\<lparr>p_status := status, p_state := PROC_DEAD\<rparr>" by (simp add: exit_store_def)
    with True tree_okD(3) [OF tr cp(1)] st show ?thesis by (auto simp: node_ok_def)
  next
    case False
    then obtain pr where pr: "P q = Some pr" using q by (auto simp: exit_store_def split: if_splits)
    note nd = tree_okD(3) [OF tr pr]
    show ?thesis
    proof (cases "q \<in> set (p_children cpr)")
      case True
      with q pr False have qr: "qr = pr\<lparr>p_child_link := Some init, p_pproc := Some init\<rparr>"
        by (simp add: exit_store_def)
      from True init have i: "cp \<noteq> init" "init \<notin> set (p_children cpr)" "q \<noteq> init"
        "is_running P init" by auto
      with nd False kids qr st [of init] show ?thesis by (auto simp: node_ok_def par)
    next
      case nk: False
      then have np: "p_pproc pr \<noteq> Some cp" using kids [of q] pr by simp
      show ?thesis
      proof (cases "q = init")
        case True
        with q pr False nk have qr: "qr = pr\<lparr>p_children := p_children pr @ p_children cpr\<rparr>"
          by (simp add: exit_store_def)
        from nd np qr st ch True False kids show ?thesis by (auto simp: node_ok_def par)
      next
        case ni: False
        with q pr False nk have "qr = pr" by (simp add: exit_store_def)
        with nd np st False ni kids show ?thesis by (auto simp: node_ok_def par)
      qed
    qed
  qed
  moreover have "dom ?P = dom P" using cp by (auto simp: exit_store_def split: if_splits)
  ultimately show ?thesis using tree_okD(1,2) [OF tr] by (simp add: tree_ok_def)
qed

text \<open>A dead process is reaped.\<close>

lemma tree_ok_reap:
  assumes tr: "tree_ok P L" and p: "P p = Some pr" "p_state pr = PROC_DEAD"
    and pp: "p_pproc pr = Some pp" "P pp = Some ppr"
  shows "tree_ok (P(pp \<mapsto> ppr\<lparr>p_children := remove1 p (p_children ppr)\<rparr>, p := None)) (remove1 p L)"
proof -
  let ?P = "P(pp \<mapsto> ppr\<lparr>p_children := remove1 p (p_children ppr)\<rparr>, p := None)"
  from tree_okD(3) [OF tr p(1)] pp have run: "p_state ppr = PROC_RUNNING" and ne: "pp \<noteq> p"
    by (auto simp: node_ok_def is_running_def)
  note ch = tree_children [OF tr pp(2) run]
  have nop: "parent_of P c \<noteq> Some p" for c
    using tree_parent_running [OF tr, of c p] p by (auto simp: is_running_def)
  have par: "parent_of ?P c = (if c = p then None else parent_of P c)" for c
    using pp ne by (auto simp: parent_of_def)
  have st: "is_running ?P q = is_running P q" if "q \<noteq> p" for q
    using that pp by (auto simp: is_running_def)
  have "node_ok ?P q qr" if q: "?P q = Some qr" for q qr
  proof -
    from q have qp: "q \<noteq> p" by auto
    consider "q = pp" "qr = ppr\<lparr>p_children := remove1 p (p_children ppr)\<rparr>" | "q \<noteq> pp" "P q = Some qr"
      using q qp by (auto split: if_splits)
    then show ?thesis
    proof cases
      case 1
      have "p_pproc ppr \<noteq> Some p" using nop [of pp] pp by simp
      with 1 tree_okD(3) [OF tr pp(2)] st ch show ?thesis by (auto simp: node_ok_def par)
    next
      case 2
      have "p_pproc qr \<noteq> Some p" using nop [of q] 2 by simp
      moreover have "parent_of P p \<noteq> Some q" using p pp 2 by simp
      ultimately show ?thesis using tree_okD(3) [OF tr 2(2)] st by (auto simp: node_ok_def par)
    qed
  qed
  moreover have "dom ?P = dom P - {p}" using pp by auto
  ultimately show ?thesis using tree_okD(1,2) [OF tr] by (simp add: tree_ok_def)
qed

subsection \<open>The invariant of the process table\<close>

text \<open>
  The threads linked on a process exist, have a stack, and are linked on it; a dead process has one,
  which has exited. Process ids are unique and in range.
\<close>

definition own_ok :: "(ptr \<Rightarrow> proc option) \<Rightarrow> (tid \<Rightarrow> kthread option) \<Rightarrow> bool" where
  "own_ok P T \<longleftrightarrow> (\<forall>p pr. P p = Some pr \<longrightarrow>
     (\<forall>t \<in> set (p_threads pr). \<exists>k. T t = Some k \<and> kt_plink k = Some p \<and> kt_kstack k \<noteq> None \<and>
        (p_state pr = PROC_DEAD \<longrightarrow> kt_state k = KT_EXITED)) \<and>
     (p_state pr = PROC_DEAD \<longrightarrow> p_threads pr \<noteq> []))"

definition pids_ok :: "int \<Rightarrow> (ptr \<Rightarrow> proc option) \<Rightarrow> bool" where
  "pids_ok M P \<longleftrightarrow> (\<forall>p pr. P p = Some pr \<longrightarrow> 0 \<le> p_pid pr \<and> p_pid pr < M) \<and>
     (\<forall>p q pr qr. P p = Some pr \<longrightarrow> P q = Some qr \<longrightarrow> p_pid pr = p_pid qr \<longrightarrow> p = q)"

definition proc_ok :: "kconf \<Rightarrow> 'a proc_st_scheme \<Rightarrow> bool" where
  "proc_ok C s \<longleftrightarrow> sched_inv s \<and> tree_ok (procs s) (proc_list s) \<and> own_ok (procs s) (threads s) \<and>
     pids_ok (PROC_MAX_COUNT C) (procs s) \<and> 0 \<le> next_pid s \<and> next_pid s < PROC_MAX_COUNT C"

definition fresh_proc :: "ptr \<Rightarrow> 'a proc_st_scheme \<Rightarrow> bool" where
  "fresh_proc p s \<longleftrightarrow> procs s p = None \<and> waits_on (P_wait p) s = {}"

lemma proc_okD:
  assumes "proc_ok C s"
  shows "sched_inv s" "tree_ok (procs s) (proc_list s)" "own_ok (procs s) (threads s)"
    "pids_ok (PROC_MAX_COUNT C) (procs s)" "0 \<le> next_pid s" "next_pid s < PROC_MAX_COUNT C"
    "0 < PROC_MAX_COUNT C" "set (proc_list s) = dom (procs s)"
  using assms tree_okD(2) by (auto simp: proc_ok_def)

lemma pid_used_iff: "set (proc_list s) = dom (procs s) \<Longrightarrow> pid_used s pid \<longleftrightarrow> (\<exists>p pr. procs s p = Some pr \<and> p_pid pr = pid)"
  by (auto simp: pid_used_def dom_def)

lemma sched_queue_init_id:
  assumes "sched_inv s" "waits_on q s = {}"
  shows "sched_queue_init q s = s"
proof -
  have "tq_size (queues s q) = int (length (tq_list (queues s q)))"
    using assms(1) qwf_queue(1) by (auto simp: sched_inv_def)
  with assms(2) have "queues s q = \<lparr>tq_list = [], tq_size = 0\<rparr>"
    by (cases "queues s q") (simp add: waits_on_def)
  then show ?thesis by (cases s) (auto simp: sched_queue_init_def fun_eq_iff)
qed

lemma sched_inv_proc [simp]:
  "sched_inv (s\<lparr>procs := P\<rparr>) = sched_inv s" "sched_inv (s\<lparr>proc_list := L\<rparr>) = sched_inv s"
  "sched_inv (s\<lparr>next_pid := n\<rparr>) = sched_inv s" "sched_inv (s\<lparr>proc_initproc := i\<rparr>) = sched_inv s"
  by (simp_all add: sched_inv_def)

lemma waits_on_proc [simp]:
  "waits_on q (s\<lparr>procs := P\<rparr>) = waits_on q s" "waits_on q (s\<lparr>proc_list := L\<rparr>) = waits_on q s"
  "waits_on q (s\<lparr>next_pid := n\<rparr>) = waits_on q s" "waits_on q (s\<lparr>proc_initproc := i\<rparr>) = waits_on q s"
  by (simp_all add: waits_on_def)

lemma proc_getid_free:
  assumes ok: "proc_ok C s" and free: "\<exists>pid. 0 \<le> pid \<and> pid < PROC_MAX_COUNT C \<and> \<not> pid_used s pid"
  obtains pid where "proc_getid C s = Some (pid, s\<lparr>next_pid := (pid + 1) mod PROC_MAX_COUNT C\<rparr>)"
    "0 \<le> pid" "pid < PROC_MAX_COUNT C" "\<not> pid_used s pid"
proof -
  let ?M = "PROC_MAX_COUNT C" and ?n = "next_pid s"
  note okD = proc_okD [OF ok]
  have L: "set (proc_list s) \<subseteq> dom (procs s)" using okD(8) by simp
  have d: "int (nat (?M - 1)) = (?n - ?n - 1) mod ?M"
    using okD(7) by (simp add: zmod_minus1)
  from free obtain pid where pid: "0 \<le> pid" "pid < ?M" "\<not> pid_used s pid" by blast
  have "\<not> (\<forall>i \<le> nat (?M - 1). pid_used s ((?n + int i) mod ?M))"
  proof
    assume all: "\<forall>i \<le> nat (?M - 1). pid_used s ((?n + int i) mod ?M)"
    let ?i = "nat ((pid - ?n) mod ?M)"
    have r: "0 \<le> (pid - ?n) mod ?M" "(pid - ?n) mod ?M < ?M" using okD(7) by simp_all
    then have "?i \<le> nat (?M - 1)" by simp
    with all have "pid_used s ((?n + int ?i) mod ?M)" by blast
    moreover have "(?n + int ?i) mod ?M = pid"
      using r(1) pid(1,2) mod_add_right_eq [of ?n "pid - ?n" ?M] by simp
    ultimately show False using pid(3) by simp
  qed
  with proc_getid_loop_spec [OF L okD(7,5,6,5,6) d] obtain j where
    "\<not> pid_used s ((?n + int j) mod ?M)"
    "proc_getid_loop ?M s ?n = Some ((?n + int j) mod ?M, s\<lparr>next_pid := (((?n + int j) mod ?M) + 1) mod ?M\<rparr>)"
    by blast
  with that [of "(?n + int j) mod ?M"] okD(7) show thesis by (simp add: proc_getid_def)
qed

subsection \<open>Creating a process\<close>

definition new_proc :: "kconf \<Rightarrow> proc \<Rightarrow> int \<Rightarrow> string \<Rightarrow> ptr \<Rightarrow> ptr option \<Rightarrow> proc" where
  "new_proc C obj pid name cp pagedir = obj\<lparr>p_pid := pid, p_comm := take (PROC_NAME_LEN C - 1) name,
     p_threads := [], p_children := [], p_pproc := Some cp, p_status := 0, p_state := PROC_RUNNING,
     p_pagedir := pagedir, p_child_link := Some cp\<rparr>"

lemma proc_create_eq:
  assumes g: "proc_getid C s = Some (pid, s\<lparr>next_pid := n\<rparr>)" and inv: "sched_inv s"
    and p: "fresh_proc p s" and cp: "curproc s = Some cp" "procs s cp = Some cpr"
    and a: "pid \<noteq> PID_IDLE" "pid \<noteq> PID_INIT \<or> p_pid cpr = PID_IDLE"
  shows "proc_create C (Some (p, obj)) pagedir name s = Some (p, s\<lparr>next_pid := n,
       proc_initproc := (if pid = PID_INIT then Some p else proc_initproc s),
       proc_list := proc_list s @ [p],
       procs := (procs s)(cp \<mapsto> cpr\<lparr>p_children := p_children cpr @ [p]\<rparr>, p \<mapsto> new_proc C obj pid name cp pagedir)\<rparr>)"
proof -
  have q: "sched_queue_init (P_wait p) (s\<lparr>next_pid := n\<rparr>) = s\<lparr>next_pid := n\<rparr>"
    "sched_queue_init (P_wait p) (s\<lparr>next_pid := n, proc_initproc := i\<rparr>) = s\<lparr>next_pid := n, proc_initproc := i\<rparr>" for i
    using inv p by (simp_all add: sched_queue_init_id fresh_proc_def)
  have u: "s\<lparr>next_pid := n, proc_initproc := proc_initproc s\<rparr> = s\<lparr>next_pid := n\<rparr>" by (cases s) simp
  show ?thesis
  proof (cases "pid = PID_INIT")
    case True
    with g cp a q show ?thesis
      by (simp add: proc_create_def Let_def proc_upd_def new_proc_def PID_IDLE_def)
  next
    case False
    with g cp a q u show ?thesis
      by (simp add: proc_create_def Let_def proc_upd_def new_proc_def PID_IDLE_def)
  qed
qed

lemma pids_ok_create:
  assumes "pids_ok M P" "\<And>q qr. P q = Some qr \<Longrightarrow> p_pid qr \<noteq> p_pid obj" "0 \<le> p_pid obj" "p_pid obj < M"
    "P cp = Some cpr" "p_pid cpr' = p_pid cpr" "P p = None"
  shows "pids_ok M (P(cp \<mapsto> cpr', p \<mapsto> obj))"
  using assms unfolding pids_ok_def by (auto split: if_splits) metis+

lemma own_ok_upd:
  assumes "own_ok P T" "P p = Some pr" "p_threads pr' = p_threads pr" "p_state pr' = p_state pr"
  shows "own_ok (P(p \<mapsto> pr')) T"
  using assms unfolding own_ok_def by (auto split: if_splits)

lemma own_ok_new:
  assumes "own_ok P T" "p_threads obj = []" "p_state obj = PROC_RUNNING"
  shows "own_ok (P(p \<mapsto> obj)) T"
  using assms unfolding own_ok_def by auto

lemma proc_create_ok:
  assumes ok: "proc_ok C s" and p: "fresh_proc p s"
    and cp: "curproc s = Some cp" "procs s cp = Some cpr" "p_state cpr = PROC_RUNNING"
    and free: "\<exists>pid. 0 \<le> pid \<and> pid < PROC_MAX_COUNT C \<and> \<not> pid_used s pid"
    and used: "pid_used s PID_IDLE" "pid_used s PID_INIT \<or> p_pid cpr = PID_IDLE"
  obtains pid s' where "proc_create C (Some (p, obj)) pagedir name s = Some (p, s')" "proc_ok C s'"
    "\<not> pid_used s pid" "procs s' = (procs s)(cp \<mapsto> cpr\<lparr>p_children := p_children cpr @ [p]\<rparr>,
       p \<mapsto> new_proc C obj pid name cp pagedir)" "proc_list s' = proc_list s @ [p]"
    "proc_initproc s' = (if pid = PID_INIT then Some p else proc_initproc s)"
proof -
  let ?M = "PROC_MAX_COUNT C"
  note okD = proc_okD [OF ok]
  from proc_getid_free [OF ok free] obtain pid where
    g: "proc_getid C s = Some (pid, s\<lparr>next_pid := (pid + 1) mod ?M\<rparr>)"
    and pid: "0 \<le> pid" "pid < ?M" "\<not> pid_used s pid" by blast
  have a: "pid \<noteq> PID_IDLE" "pid \<noteq> PID_INIT \<or> p_pid cpr = PID_IDLE" using pid used by auto
  let ?obj = "new_proc C obj pid name cp pagedir"
  let ?P = "(procs s)(cp \<mapsto> cpr\<lparr>p_children := p_children cpr @ [p]\<rparr>, p \<mapsto> ?obj)"
  from p have pn: "procs s p = None" by (simp add: fresh_proc_def)
  have "tree_ok ?P (proc_list s @ [p])"
    by (rule tree_ok_create [OF okD(2) pn cp(2,3)]) (simp_all add: new_proc_def)
  moreover have "own_ok ?P (threads s)"
    by (intro own_ok_new own_ok_upd [OF okD(3) cp(2)]) (simp_all add: new_proc_def)
  moreover have "pids_ok ?M ?P"
    by (rule pids_ok_create [OF okD(4) _ _ _ cp(2) _ pn])
      (use pid in \<open>auto simp: new_proc_def pid_used_iff [OF okD(8)]\<close>)
  ultimately show thesis
    using proc_create_eq [OF g okD(1) p cp(1,2) a] that pid okD(1,7) by (simp add: proc_ok_def)
qed

subsection \<open>Exiting\<close>

lemma reparent_eq:
  assumes "init \<notin> set cs" "procs s init \<noteq> None" "set cs \<subseteq> dom (procs s)"
  shows "reparent init cs s = Some (s\<lparr>procs := (\<lambda>q.
     if q \<in> set cs then map_option (\<lambda>pr. pr\<lparr>p_child_link := Some init, p_pproc := Some init\<rparr>) (procs s q)
     else if q = init then map_option (\<lambda>pr. pr\<lparr>p_children := p_children pr @ cs\<rparr>) (procs s q)
     else procs s q)\<rparr>)"
  using assms
proof (induction cs arbitrary: s)
  case Nil
  then show ?case
    by (cases s; cases "procs s init") (auto simp: fun_eq_iff map_option_case split: option.split)
next
  case (Cons c cs)
  from Cons.prems obtain ir cr where r: "procs s init = Some ir" "procs s c = Some cr" "c \<noteq> init" by auto
  let ?s = "s\<lparr>procs := (procs s)(init \<mapsto> ir\<lparr>p_children := p_children ir @ [c]\<rparr>,
               c \<mapsto> cr\<lparr>p_child_link := Some init, p_pproc := Some init\<rparr>)\<rparr>"
  have "reparent init (c # cs) s = reparent init cs ?s"
    using r by (simp add: proc_upd_def)
  also have "\<dots> = Some (?s\<lparr>procs := (\<lambda>q.
     if q \<in> set cs then map_option (\<lambda>pr. pr\<lparr>p_child_link := Some init, p_pproc := Some init\<rparr>) (procs ?s q)
     else if q = init then map_option (\<lambda>pr. pr\<lparr>p_children := p_children pr @ cs\<rparr>) (procs ?s q)
     else procs ?s q)\<rparr>)"
    by (rule Cons.IH) (use Cons.prems r in auto)
  finally show ?case using r Cons.prems(1) by (auto simp: fun_eq_iff)
qed

lemma proc_more:
  assumes "sched_st.more (s' :: 'a proc_st_scheme) = sched_st.more s"
  shows "procs s' = procs s" "proc_list s' = proc_list s" "proc_initproc s' = proc_initproc s"
    "next_pid s' = next_pid s" "km_holder s' = km_holder s"
  using assms by (cases s; cases s'; simp)+

lemma wakeup_wakes:
  assumes inv: "sched_inv s" and q: "q \<noteq> Kt_runq"
  obtains r s' where "sched_wakeup_on q s = Some (r, s')" "wakes s s'"
proof (cases "tq_list (queues s q) = []")
  case True
  with that [of None s] wakes_refl [OF inv] show thesis by (simp add: sched_wakeup_on_empty)
next
  case False
  from sched_inv_last [OF inv False] obtain k where k: "threads s (last (tq_list (queues s q))) = Some k" by blast
  from that sched_wakeup_on_eq [OF inv q False refl k] wake_one_wakes [OF inv q False refl k] show thesis
    by blast
qed

definition init_ready :: "ptr \<Rightarrow> ptr \<Rightarrow> proc \<Rightarrow> 'a proc_st_scheme \<Rightarrow> bool" where
  "init_ready init cp cpr s \<longleftrightarrow> p_children cpr = [] \<or>
     cp \<noteq> init \<and> init \<notin> set (p_children cpr) \<and> is_running (procs s) init"

lemma proc_cleanup_eq:
  assumes inv: "sched_inv s" and tr: "tree_ok (procs s) (proc_list s)" and i: "proc_initproc s = Some init"
    and cp: "curproc s = Some cp" "procs s cp = Some cpr" "p_state cpr = PROC_RUNNING" "1 \<le> p_pid cpr"
      "p_pproc cpr = Some pp"
    and ir: "init_ready init cp cpr s"
    and c: "curthr s = Some c" "threads s c = Some k" "kt_wchan k = None" "kt_state k = KT_EXITED"
    and w: "sched_wakeup_on (P_wait pp) s = Some (r, s1)" "wakes s s1"
  shows "proc_cleanup status s = Some (s1\<lparr>procs := exit_store init cp cpr status (procs s)\<rparr>)"
proof -
  from w(2) have more: "sched_st.more s1 = sched_st.more s" by (simp add: wakes_def)
  note pm = proc_more [OF more]
  have kids: "set (p_children cpr) \<subseteq> dom (procs s)" "cp \<notin> set (p_children cpr)"
    using tree_children(2) [OF tr cp(2,3)] tree_okD(3) [OF tr cp(2)] cp(2)
    by (auto simp: parent_of_def bind_eq_Some_conv node_ok_def)
  obtain s2 where s2: "reparent init (p_children cpr) s1 = Some s2" "s2 = s1\<lparr>procs := (\<lambda>q.
     if q \<in> set (p_children cpr) then map_option (\<lambda>pr. pr\<lparr>p_child_link := Some init, p_pproc := Some init\<rparr>) (procs s q)
     else if q = init then map_option (\<lambda>pr. pr\<lparr>p_children := p_children pr @ p_children cpr\<rparr>) (procs s q)
     else procs s q)\<rparr>"
  proof (cases "p_children cpr = []")
    case True
    then have "s1 = s1\<lparr>procs := (\<lambda>q.
       if q \<in> set (p_children cpr) then map_option (\<lambda>pr. pr\<lparr>p_child_link := Some init, p_pproc := Some init\<rparr>) (procs s q)
       else if q = init then map_option (\<lambda>pr. pr\<lparr>p_children := p_children pr @ p_children cpr\<rparr>) (procs s q)
       else procs s q)\<rparr>"
      using pm(1) by (cases s1) (auto simp: fun_eq_iff map_option_case split: option.split)
    then show thesis by (rule that [rotated]) (simp add: True)
  next
    case False
    with ir have "init \<notin> set (p_children cpr)" "procs s1 init \<noteq> None"
      by (auto simp: init_ready_def is_running_def pm)
    with reparent_eq [of init "p_children cpr" s1] kids(1) show thesis
      unfolding pm(1) by (intro that) blast+
  qed
  have "threads s1 c = Some k" by (rule wakes_thread [OF w(2) c(2)]) (simp_all add: c(3))
  moreover have "curthr s1 = Some c" using w(2) c by (simp add: wakes_def)
  moreover have cpi: "cp \<noteq> init \<or> p_children cpr = []" using ir by (auto simp: init_ready_def)
  moreover have "procs s2 cp = Some cpr"
    using s2(2) kids(2) cp(2) cpi by (cases cpr) auto
  ultimately have "proc_cleanup status s = Some (s2\<lparr>procs := (procs s2)(cp \<mapsto> cpr\<lparr>p_status := status, p_state := PROC_DEAD\<rparr>)\<rparr>)"
    using i cp w(1) s2 c(4) by (auto simp: proc_cleanup_def proc_upd_def)
  moreover have "(procs s2)(cp \<mapsto> cpr\<lparr>p_status := status, p_state := PROC_DEAD\<rparr>) = exit_store init cp cpr status (procs s)"
    using s2(2) by (auto simp: exit_store_def fun_eq_iff)
  ultimately show ?thesis using s2(2) by simp
qed

text \<open>
  What scheduling does to a thread as far as its process is concerned: links and stack are kept, and an
  exited thread stays so.
\<close>

definition keeps_threads :: "(tid \<Rightarrow> kthread option) \<Rightarrow> (tid \<Rightarrow> kthread option) \<Rightarrow> bool" where
  "keeps_threads T T' \<longleftrightarrow> (\<forall>t k. T t = Some k \<longrightarrow> (\<exists>k'. T' t = Some k' \<and> kt_plink k' = kt_plink k \<and>
     kt_kstack k' = kt_kstack k \<and> (kt_state k = KT_EXITED \<longrightarrow> kt_state k' = KT_EXITED)))"

lemma keeps_threads_trans: "keeps_threads T1 T2 \<Longrightarrow> keeps_threads T2 T3 \<Longrightarrow> keeps_threads T1 T3"
  unfolding keeps_threads_def by metis

lemma wakes_keeps_threads:
  assumes inv: "sched_inv s" and w: "wakes s s'"
  shows "keeps_threads (threads s) (threads s')"
  unfolding keeps_threads_def
proof (intro allI impI)
  fix t k assume k: "threads s t = Some k"
  with inv have ok: "state_ok k" by (auto simp: sched_inv_def dest: twfD)
  show "\<exists>k'. threads s' t = Some k' \<and> kt_plink k' = kt_plink k \<and>
     kt_kstack k' = kt_kstack k \<and> (kt_state k = KT_EXITED \<longrightarrow> kt_state k' = KT_EXITED)"
    by (rule wakes_thread [OF w k]) (use ok in \<open>auto simp: state_ok_def\<close>)
qed

lemma sched_switch_keeps_threads:
  assumes inv: "sched_inv s" and irqs: "\<forall>f \<in> set irqs. irq_ok f"
    and c: "curthr s = Some c" "threads s c \<noteq> None" and res: "sched_switch irqs s = Some s'"
  shows "keeps_threads (threads s) (threads s') \<and> sched_st.more s' = sched_st.more s"
proof -
  from sched_switch_spec [OF inv irqs c res] obtain s1 t k where w: "wakes s s1"
    and t: "threads s1 t = Some k" and s': "s' = switch_st c (ipl s) t k s1" by blast
  have "keeps_threads (threads s1) (threads s')"
    using t s' by (auto simp: keeps_threads_def switch_st_def)
  with wakes_keeps_threads [OF inv w] w s' show ?thesis
    by (auto intro: keeps_threads_trans simp: wakes_def switch_st_def)
qed

lemma own_okE:
  assumes "own_ok P T" "P p = Some pr" "t \<in> set (p_threads pr)"
  obtains k where "T t = Some k" "kt_plink k = Some p" "kt_kstack k \<noteq> None"
    "p_state pr = PROC_DEAD \<Longrightarrow> kt_state k = KT_EXITED"
  using assms unfolding own_ok_def by blast

lemma own_ok_keeps: "own_ok P T \<Longrightarrow> keeps_threads T T' \<Longrightarrow> own_ok P T'"
  unfolding own_ok_def keeps_threads_def by metis

lemma own_ok_exit:
  assumes ow: "own_ok P T" and cp: "P cp = Some cpr" "p_threads cpr = [c]"
    and c: "map_option kt_state (T c) = Some KT_EXITED" and kids: "cp \<notin> set (p_children cpr)"
  shows "own_ok (exit_store init cp cpr status P) T"
  unfolding own_ok_def
proof (intro allI impI)
  fix q qr assume q: "exit_store init cp cpr status P q = Some qr"
  show "(\<forall>t \<in> set (p_threads qr). \<exists>k. T t = Some k \<and> kt_plink k = Some q \<and> kt_kstack k \<noteq> None \<and>
        (p_state qr = PROC_DEAD \<longrightarrow> kt_state k = KT_EXITED)) \<and>
     (p_state qr = PROC_DEAD \<longrightarrow> p_threads qr \<noteq> [])"
  proof (cases "q = cp")
    case True
    from cp have "c \<in> set (p_threads cpr)" by simp
    then obtain k where "T c = Some k" "kt_plink k = Some cp" "kt_kstack k \<noteq> None"
      by (rule own_okE [OF ow cp(1)])
    with True q cp c show ?thesis by (auto simp: exit_store_def)
  next
    case False
    then obtain pr where "P q = Some pr" "p_threads qr = p_threads pr" "p_state qr = p_state pr"
      using q by (auto simp: exit_store_def split: if_splits)
    with ow show ?thesis by (auto simp: own_ok_def)
  qed
qed

lemma pids_ok_exit:
  assumes ok: "pids_ok M P" and cp: "P cp = Some cpr"
  shows "pids_ok M (exit_store init cp cpr status P)"
proof -
  have r: "\<exists>pr. P q = Some pr \<and> p_pid pr = p_pid qr" if "exit_store init cp cpr status P q = Some qr" for q qr
    using that cp by (auto simp: exit_store_def split: if_splits)
  show ?thesis
    unfolding pids_ok_def
  proof (intro conjI allI impI)
    fix p q pr qr
    assume "exit_store init cp cpr status P p = Some pr" "exit_store init cp cpr status P q = Some qr" "p_pid pr = p_pid qr"
    with r [of p pr] r [of q qr] ok show "p = q" by (auto simp: pids_ok_def)
  next
    fix p pr assume "exit_store init cp cpr status P p = Some pr"
    with r [of p pr] ok show "0 \<le> p_pid pr" "p_pid pr < M" unfolding pids_ok_def by metis+
  qed
qed

text \<open>The state of a running process with one thread, about to exit.\<close>

definition exiting :: "ptr \<Rightarrow> ptr \<Rightarrow> proc \<Rightarrow> ptr \<Rightarrow> tid \<Rightarrow> 'a proc_st_scheme \<Rightarrow> bool" where
  "exiting init cp cpr pp c s \<longleftrightarrow> running s \<and> proc_initproc s = Some init \<and> curproc s = Some cp \<and>
     procs s cp = Some cpr \<and> p_state cpr = PROC_RUNNING \<and> 1 \<le> p_pid cpr \<and> p_pproc cpr = Some pp \<and>
     init_ready init cp cpr s \<and> curthr s = Some c \<and> p_threads cpr = [c]"

definition exit_thread :: "int \<Rightarrow> kthread \<Rightarrow> kthread" where
  "exit_thread status k = k\<lparr>kt_retval := status, kt_state := KT_EXITED\<rparr>"

lemma kthread_exit_eq:
  assumes ok: "proc_ok C s" and ex: "exiting init cp cpr pp c s" and k: "threads s c = Some k"
    and s0: "s0 = s\<lparr>threads := (threads s)(c \<mapsto> exit_thread status k)\<rparr>"
    and w: "sched_wakeup_on (P_wait pp) s0 = Some (r, s1)"
    and s2: "s2 = s1\<lparr>procs := exit_store init cp cpr status (procs s)\<rparr>"
  shows "kthread_exit irqs status s = sched_switch irqs s2" "wakes s0 s1" "proc_ok C s2"
    "curthr s2 = Some c" "threads s2 c = Some (exit_thread status k)" "proc_list s2 = proc_list s"
proof -
  note okD = proc_okD [OF ok]
  from ex have run: "running s" and i: "proc_initproc s = Some init"
    and cp: "curproc s = Some cp" "procs s cp = Some cpr" "p_state cpr = PROC_RUNNING" "1 \<le> p_pid cpr"
      "p_pproc cpr = Some pp"
    and ir: "init_ready init cp cpr s" and c: "curthr s = Some c" and pt: "p_threads cpr = [c]"
    by (simp_all add: exiting_def)
  from run c k have kw: "kt_wchan k = None" "kt_proc k = Some cp"
    using cp by (auto simp: running_def)
  with okD(1) k have kq: "kt_qlink k = None" by (auto simp: sched_inv_def dest: qwf_link)
  let ?k = "exit_thread status k"
  have k': "kt_wchan ?k = None" "kt_qlink ?k = None" "kt_state ?k = KT_EXITED" "kt_plink ?k = kt_plink k"
    "kt_kstack ?k = kt_kstack k" using kw kq by (simp_all add: exit_thread_def)
  have inv0: "sched_inv s0"
    using okD(1) qwf_upd [of "threads s" "queues s" c k ?k] k k' kw kq twf_upd [of "threads s" ?k c]
    by (simp add: s0 sched_inv_def state_ok_None)
  from wakeup_wakes [OF inv0, of "P_wait pp"] w show ws: "wakes s0 s1" by auto
  from ws have more: "sched_st.more s1 = sched_st.more s0" and inv1: "sched_inv s1" by (simp_all add: wakes_def)
  note pm = proc_more [OF more]
  have tr0: "tree_ok (procs s0) (proc_list s0)" using okD(2) s0 by simp
  have c0: "curthr s0 = Some c" "threads s0 c = Some ?k" using c s0 by simp_all
  have "proc_cleanup status s0 = Some s2"
    unfolding s2 using proc_cleanup_eq [OF inv0 tr0, of init cp cpr pp c ?k r s1 status] i cp ir c0 k' w ws
    by (simp add: s0 init_ready_def)
  with c k kw kq cp s0 show "kthread_exit irqs status s = sched_switch irqs s2"
    by (simp add: kthread_exit_def thr_upd_def proc_thread_exited_def exit_thread_def)
  have th: "threads s1 c = Some ?k" by (rule wakes_thread [OF ws c0(2)]) (simp_all add: k')
  then show "threads s2 c = Some ?k" by (simp add: s2)
  show "curthr s2 = Some c" using ws c0 by (simp add: s2 wakes_def)
  show "proc_list s2 = proc_list s" using pm s0 by (simp add: s2)
  have kids: "cp \<notin> set (p_children cpr)"
    using tree_children(2) [OF okD(2) cp(2,3)] tree_okD(3) [OF okD(2) cp(2)] cp(2) by (auto simp: node_ok_def)
  have "keeps_threads (threads s) (threads s0)" using k k' by (auto simp: s0 keeps_threads_def)
  with wakes_keeps_threads [OF inv0 ws] okD(3) have "own_ok (procs s) (threads s1)"
    by (blast intro: own_ok_keeps)
  from own_ok_exit [OF this cp(2) pt] th k' kids
  have "own_ok (exit_store init cp cpr status (procs s)) (threads s1)" by simp
  moreover have "tree_ok (exit_store init cp cpr status (procs s)) (proc_list s)"
    by (rule tree_ok_exit [OF okD(2) cp(2,3)]) (use ir in \<open>auto simp: init_ready_def\<close>)
  ultimately show "proc_ok C s2"
    using inv1 pm s0 okD(5,6) pids_ok_exit [OF okD(4) cp(2)] by (simp add: proc_ok_def s2)
qed

lemma proc_ok_switch:
  assumes ok: "proc_ok C s" and irqs: "\<forall>f \<in> set irqs. irq_ok f"
    and c: "curthr s = Some c" "threads s c \<noteq> None" and res: "sched_switch irqs s = Some s'"
  shows "proc_ok C s' \<and> running s' \<and> procs s' = procs s \<and> proc_list s' = proc_list s"
proof -
  note okD = proc_okD [OF ok]
  from sched_switch_keeps_threads [OF okD(1) irqs c res] have
    kt: "keeps_threads (threads s) (threads s')" and more: "sched_st.more s' = sched_st.more s" by auto
  from sched_switch_inv [OF okD(1) irqs c res] own_ok_keeps [OF okD(3) kt] proc_more [OF more] okD
  show ?thesis by (simp add: proc_ok_def)
qed

subsection \<open>Reaping\<close>

definition reap_st :: "ptr \<Rightarrow> ptr \<Rightarrow> proc \<Rightarrow> tid \<Rightarrow> 'a proc_st_scheme \<Rightarrow> 'a proc_st_scheme" where
  "reap_st p pp ppr t s = s\<lparr>proc_list := remove1 p (proc_list s),
     procs := (procs s)(pp \<mapsto> ppr\<lparr>p_children := remove1 p (p_children ppr)\<rparr>, p := None),
     threads := (threads s)(t := None)\<rparr>"

lemma reap_eq:
  assumes "procs s p = Some pr" "p_child_link pr = Some pp" "procs s pp = Some ppr" "pp \<noteq> p"
    "p_threads pr = t # ts" "threads s t = Some k" "kt_kstack k \<noteq> None" "kt_plink k = Some p"
  shows "reap p s = Some (reap_st p pp ppr t s)"
  using assms by (auto simp: reap_def reap_st_def proc_upd_def kthread_destroy_def Let_def fun_eq_iff)

lemma reap_ok:
  assumes ok: "proc_ok C s" and p: "procs s p = Some pr" "p_state pr = PROC_DEAD"
    and pp: "p_pproc pr = Some pp" "procs s pp = Some ppr"
  obtains t where "p_threads pr \<noteq> []" "t = hd (p_threads pr)" "reap p s = Some (reap_st p pp ppr t s)"
    "proc_ok C (reap_st p pp ppr t s)" "map_option kt_state (threads s t) = Some KT_EXITED"
proof -
  note okD = proc_okD [OF ok]
  from okD(3) p obtain t ts where t: "p_threads pr = t # ts"
    by (cases "p_threads pr") (auto simp: own_ok_def)
  then have "t \<in> set (p_threads pr)" by simp
  then obtain k where k: "threads s t = Some k" "kt_plink k = Some p" "kt_kstack k \<noteq> None" "kt_state k = KT_EXITED"
    by (rule own_okE [OF okD(3) p(1)]) (use p in auto)
  from tree_okD(3) [OF okD(2) p(1)] pp have cl: "p_child_link pr = Some pp" and ne: "pp \<noteq> p"
    by (auto simp: node_ok_def)
  from okD(1) k have "state_ok k" by (auto simp: sched_inv_def dest: twfD)
  with k(4) have wn: "kt_wchan k = None" by (auto simp: state_ok_def split: option.splits if_splits)
  let ?s = "reap_st p pp ppr t s"
  have "sched_inv ?s"
    using okD(1) qwf_free [of "threads s" "queues s" t k] k(1) wn twf_free [of "threads s" t]
    by (simp add: sched_inv_def reap_st_def)
  moreover have "tree_ok (procs ?s) (proc_list ?s)"
    using tree_ok_reap [OF okD(2) p pp] by (simp add: reap_st_def)
  moreover have "own_ok (procs ?s) (threads ?s)"
    unfolding own_ok_def
  proof (intro allI impI)
    fix q qr assume q: "procs ?s q = Some qr"
    then have "q \<noteq> p" by (auto simp: reap_st_def)
    from q this obtain qr' where qr': "procs s q = Some qr'" "p_threads qr' = p_threads qr" "p_state qr' = p_state qr"
      using pp(2) by (cases "q = pp") (auto simp: reap_st_def)
    have ot: "u \<noteq> t" if "u \<in> set (p_threads qr)" for u
    proof -
      from that qr'(2) have "u \<in> set (p_threads qr')" by simp
      then obtain k' where "threads s u = Some k'" "kt_plink k' = Some q" by (rule own_okE [OF okD(3) qr'(1)])
      with k \<open>q \<noteq> p\<close> show ?thesis by auto
    qed
    have "\<forall>u \<in> set (p_threads qr). \<exists>k. threads s u = Some k \<and> kt_plink k = Some q \<and> kt_kstack k \<noteq> None \<and>
        (p_state qr = PROC_DEAD \<longrightarrow> kt_state k = KT_EXITED)"
      "p_state qr = PROC_DEAD \<longrightarrow> p_threads qr \<noteq> []"
      using okD(3) qr' unfolding own_ok_def by metis+
    with ot show "(\<forall>u \<in> set (p_threads qr). \<exists>k. threads ?s u = Some k \<and> kt_plink k = Some q \<and> kt_kstack k \<noteq> None \<and>
        (p_state qr = PROC_DEAD \<longrightarrow> kt_state k = KT_EXITED)) \<and>
     (p_state qr = PROC_DEAD \<longrightarrow> p_threads qr \<noteq> [])"
      by (auto simp: reap_st_def)
  qed
  moreover have "pids_ok (PROC_MAX_COUNT C) (procs ?s)"
    using okD(4) pp(2) unfolding pids_ok_def reap_st_def by (auto split: if_splits)
  ultimately have pk: "proc_ok C ?s" using okD(5,6) by (simp add: proc_ok_def reap_st_def)
  have r: "reap p s = Some ?s" by (rule reap_eq [OF p(1) cl pp(2) ne t k(1,3,2)])
  show thesis by (rule that [OF _ _ r pk]) (simp_all add: t k(1,4))
qed

text \<open>The scan of \<^verbatim>\<open>do_waitpid(-1)\<close> that finds a dead child.\<close>

lemma waitpid_any_dead:
  assumes ok: "proc_ok C s" and cp: "curproc s = Some cp" "procs s cp = Some cpr" "p_state cpr = PROC_RUNNING"
    and f: "find (\<lambda>c. p_state (the (procs s c)) = PROC_DEAD) (p_children cpr) = Some p"
    and pr: "procs s p = Some pr" "p_pagedir pr \<noteq> None"
  obtains t where "t = hd (p_threads pr)" "proc_ok C (reap_st p cp cpr t s)"
    "map_option kt_state (threads s t) = Some KT_EXITED"
    "waitpid_any irqs True s = Some ((Returned (p_pid pr), Some (p_status pr)), reap_st p cp cpr t s)"
proof -
  note okD = proc_okD [OF ok]
  from f have p: "p \<in> set (p_children cpr)" "p_state pr = PROC_DEAD"
    using pr by (auto simp: find_Some_iff)
  with tree_children(2) [OF okD(2) cp(2,3)] pr have pp: "p_pproc pr = Some cp" by auto
  have "set (p_children cpr) \<subseteq> dom (procs s)"
    using tree_children(2) [OF okD(2) cp(2,3)] by (auto simp: parent_of_def bind_eq_Some_conv)
  then have fc: "find_child (procs s) (\<lambda>c. p_state c = PROC_DEAD) (p_children cpr) = Some (Some p)"
    by (simp add: find_child_eq f)
  obtain t where "p_threads pr \<noteq> []" and t: "t = hd (p_threads pr)" "reap p s = Some (reap_st p cp cpr t s)"
    "proc_ok C (reap_st p cp cpr t s)" "map_option kt_state (threads s t) = Some KT_EXITED"
    by (rule reap_ok [OF ok pr(1) p(2) pp cp(2)])
  show thesis by (rule that [OF t(1,3,4)]) (use cp fc pr t(2) in \<open>simp add: waitpid_any_def\<close>)
qed

end
