(* ===== verification/Proc_Props.thy ===== *)
theory Proc_Props
  imports Proc_Tree
begin

section \<open>Properties of processes\<close>

text \<open>
  The properties of \<^verbatim>\<open>K1/proc.c\<close> and \<^verbatim>\<open>K1/kthread.c\<close>, each with a concrete instance.
\<close>

subsection \<open>From exit to wait\<close>

lemma find_only:
  assumes "x \<in> set xs" "f x" "\<And>y. y \<in> set xs \<Longrightarrow> y \<noteq> x \<Longrightarrow> \<not> f y"
  shows "find f (xs @ ys) = Some x"
  using assms
proof (induction xs)
  case (Cons y xs)
  show ?case
  proof (cases "f y")
    case True
    with Cons.prems(3) [of y] show ?thesis by auto
  next
    case False
    with Cons.prems have "x \<in> set xs" by auto
    with False Cons show ?thesis by simp
  qed
qed simp

text \<open>A waiting parent is the next thread to run when its child exits and nothing else is runnable.\<close>

lemma exit_runs_parent:
  assumes ok: "proc_ok C s" and ex: "exiting init cp cpr pp c s"
    and tp: "tq_contents (P_wait pp) s = [tp]" "tq_contents Kt_runq s = []" "threads s tp = Some ktp"
      "kt_proc ktp = Some pp"
  obtains s1 where "do_exit irqs status s = Some s1" "proc_ok C s1" "running s1" "curthr s1 = Some tp"
    "curproc s1 = Some pp" "procs s1 = exit_store init cp cpr status (procs s)"
proof -
  note okD = proc_okD [OF ok]
  from ex have c: "curthr s = Some c" and "running s" by (simp_all add: exiting_def)
  then obtain k where k: "threads s c = Some k" "kt_wchan k = None" by (auto elim: runningE)
  let ?s0 = "s\<lparr>threads := (threads s)(c \<mapsto> exit_thread status k)\<rparr>"
  have l: "tq_list (queues s (P_wait pp)) = [tp]" "tq_list (queues s Kt_runq) = []"
    using tp(1,2) by (simp_all add: tq_contents_def rev_swap)
  have "tp \<in> waits_on (P_wait pp) s" using l by (simp add: waits_on_def)
  with waits_on_iff [OF okD(1)] tp(3) have kw: "kt_wchan ktp = Some (P_wait pp)" by auto
  then have ne: "tp \<noteq> c" using k tp(3) by auto
  have inv0: "sched_inv ?s0"
    using okD(1) qwf_upd [of "threads s" "queues s" c k "exit_thread status k"] k
      twf_upd [of "threads s" "exit_thread status k" c]
    by (simp add: sched_inv_def state_ok_None exit_thread_def)
  have w: "sched_wakeup_on (P_wait pp) ?s0 = Some (Some tp, wake_one (P_wait pp) tp ktp ?s0)"
    by (rule sched_wakeup_on_eq [OF inv0]) (use l ne tp(3) in simp_all)
  let ?s2 = "(wake_one (P_wait pp) tp ktp ?s0)\<lparr>procs := exit_store init cp cpr status (procs s)\<rparr>"
  note e = kthread_exit_eq [OF ok ex k(1) refl w refl]
  have r: "tq_list (queues ?s2 Kt_runq) = [tp]" using l by (simp add: wake_one_queues)
  from e(3) have inv2: "sched_inv ?s2" by (rule proc_okD)
  have th: "threads ?s2 c \<noteq> None" using e(5) by simp
  have sw: "sched_switch irqs' ?s2 = Some (switch_st c (ipl ?s2) tp (on_runq ktp) (?s2\<lparr>ipl := IPL_LOW\<rparr>))" for irqs'
    by (rule sched_switch_ready [OF inv2 _ e(4) th, of irqs']) (use r ne in auto)
  let ?s1 = "switch_st c (ipl ?s2) tp (on_runq ktp) (?s2\<lparr>ipl := IPL_LOW\<rparr>)"
  have "proc_ok C ?s1 \<and> running ?s1 \<and> procs ?s1 = procs ?s2 \<and> proc_list ?s1 = proc_list ?s2"
    by (rule proc_ok_switch [OF e(3) _ e(4) th sw [of "[]"]]) simp
  moreover have "curthr ?s1 = Some tp" "curproc ?s1 = Some pp" using tp(4) by (simp_all add: switch_st_def)
  moreover have "do_exit irqs status s = Some ?s1" using e(1) sw by (simp add: do_exit_def)
  ultimately show thesis using that [of ?s1] by simp
qed

lemma exit_store_parent:
  assumes tr: "tree_ok P L" and cp: "P cp = Some cpr" "p_pproc cpr = Some pp" and pp: "P pp = Some ppr"
    and others: "\<forall>q \<in> set (p_children ppr). q \<noteq> cp \<longrightarrow> is_running P q"
  obtains ppr' where "exit_store init cp cpr status P pp = Some ppr'" "p_state ppr' = PROC_RUNNING"
    "find (\<lambda>c. p_state (the (exit_store init cp cpr status P c)) = PROC_DEAD) (p_children ppr') = Some cp"
proof -
  let ?P = "exit_store init cp cpr status P"
  from tree_okD(3) [OF tr cp(1)] cp(2) pp have ne: "pp \<noteq> cp" and run: "p_state ppr = PROC_RUNNING"
    by (auto simp: node_ok_def is_running_def)
  have m: "cp \<in> set (p_children ppr)" using tree_children(2) [OF tr pp run] cp by simp
  have d: "p_state (the (?P cp)) = PROC_DEAD" by (simp add: exit_store_def)
  have o: "p_state (the (?P q)) \<noteq> PROC_DEAD" if "q \<in> set (p_children ppr)" "q \<noteq> cp" for q
    using others that by (auto simp: is_running_def exit_store_def)
  obtain ys ppr' where "?P pp = Some ppr'" "p_state ppr' = PROC_RUNNING" "p_children ppr' = p_children ppr @ ys"
    using ne pp run by (cases "pp \<in> set (p_children cpr)"; cases "pp = init") (auto simp: exit_store_def)
  with find_only [of cp "p_children ppr" "\<lambda>c. p_state (the (?P c)) = PROC_DEAD" ys] m d o that show thesis
    by simp
qed

lemma keeps_exited:
  assumes "keeps_threads T T'" "map_option kt_state (T t) = Some KT_EXITED"
  shows "map_option kt_state (T' t) = Some KT_EXITED"
proof -
  from assms(2) obtain k where "T t = Some k" "kt_state k = KT_EXITED" by auto
  with assms(1) show ?thesis unfolding keeps_threads_def by fastforce
qed

subsection \<open>Concrete states\<close>

text \<open>
  The idle process (10, with thread 1) waits for the init process (11, with thread 2), which waits for
  its child (12, with thread 3), which runs.
\<close>

definition kconf_demo :: kconf where
  "kconf_demo = \<lparr>PROC_MAX_COUNT = 100, PROC_NAME_LEN = 256\<rparr>"

definition proc0 :: proc where
  "proc0 = \<lparr>p_pid = 0, p_comm = ''idle'', p_threads = [1], p_children = [11], p_pproc = None, p_status = 0,
     p_state = PROC_RUNNING, p_pagedir = Some 100, p_child_link = None, p_files = [], p_cwd = None,
     p_vmmap = None, p_start_brk = 0, p_brk = 0\<rparr>"

definition proc1 :: proc where
  "proc1 = proc0\<lparr>p_pid := 1, p_comm := ''init'', p_threads := [2], p_children := [12], p_pproc := Some 10,
     p_pagedir := Some 101, p_child_link := Some 10\<rparr>"

definition proc2 :: proc where
  "proc2 = proc0\<lparr>p_pid := 2, p_comm := ''sh'', p_threads := [3], p_children := [], p_pproc := Some 11,
     p_pagedir := Some 102, p_child_link := Some 11\<rparr>"

definition pdemo :: proc_st where
  "pdemo = \<lparr>threads = [1 \<mapsto> thr_on (P_wait 10) KT_SLEEP 10, 2 \<mapsto> thr_on (P_wait 11) KT_SLEEP 11, 3 \<mapsto> thr0 12],
     queues = (\<lambda>_. \<lparr>tq_list = [], tq_size = 0\<rparr>)(P_wait 10 := \<lparr>tq_list = [1], tq_size = 1\<rparr>,
                P_wait 11 := \<lparr>tq_list = [2], tq_size = 1\<rparr>),
     curthr = Some 3, curproc = Some 12, ipl = IPL_LOW, km_holder = Map.empty,
     procs = [10 \<mapsto> proc0, 11 \<mapsto> proc1, 12 \<mapsto> proc2], proc_list = [10, 11, 12],
     proc_initproc = Some 11, next_pid = 3\<rparr>"

lemmas pdemo_defs = pdemo_def proc0_def proc1_def proc2_def thr_on_def thr0_def

lemma pdemo_sched: "sched_inv pdemo" "running pdemo"
proof -
  have "qwf (threads pdemo) (queues pdemo)"
    by (rule qwfI) (auto simp: pdemo_defs split: if_splits)
  moreover have "twf (threads pdemo)" by (auto simp: twf_def pdemo_defs state_ok_def split: if_splits)
  ultimately show "sched_inv pdemo" by (simp add: sched_inv_def)
  show "running pdemo" by (simp add: running_def pdemo_defs)
qed

lemma pdemo_tree: "tree_ok (procs pdemo) (proc_list pdemo)"
proof -
  have par: "parent_of (procs pdemo) c = (if c = 11 then Some 10 else if c = 12 then Some 11 else None)" for c
    by (auto simp: parent_of_def pdemo_defs)
  have run: "is_running (procs pdemo) p \<longleftrightarrow> p = 10 \<or> p = 11 \<or> p = 12" for p
    by (auto simp: is_running_def pdemo_defs)
  show ?thesis
    unfolding tree_ok_def node_ok_def par run
    by (auto simp: pdemo_defs split: if_splits)
qed

lemma pdemo_ok: "proc_ok C pdemo" if "3 < PROC_MAX_COUNT C"
proof -
  have "own_ok (procs pdemo) (threads pdemo)" by (auto simp: own_ok_def pdemo_defs)
  moreover have "pids_ok (PROC_MAX_COUNT C) (procs pdemo)"
    using that by (auto simp: pids_ok_def pdemo_defs split: if_splits)
  moreover have "next_pid pdemo = 3" by (simp add: pdemo_def)
  ultimately show ?thesis using pdemo_sched pdemo_tree that by (simp add: proc_ok_def)
qed

subsection \<open>Properties\<close>

text \<open>
  C22: the search of \<^verbatim>\<open>_proc_getid\<close> ends. When a process id is free it returns one: the first free one in
  cyclic order from \<^verbatim>\<open>next_pid\<close>, in range, and the next search starts behind it. When none is free it
  returns \<open>-1\<close> and changes nothing.
\<close>

theorem proc_getid_first_free:
  assumes "set (proc_list s) \<subseteq> dom (procs s)" "0 < PROC_MAX_COUNT C" "0 \<le> next_pid s" "next_pid s < PROC_MAX_COUNT C"
  shows "\<exists>r s'. proc_getid C s = Some (r, s') \<and>
     (if \<forall>i < nat (PROC_MAX_COUNT C). pid_used s ((next_pid s + int i) mod PROC_MAX_COUNT C)
      then r = - 1 \<and> s' = s
      else \<exists>j < nat (PROC_MAX_COUNT C). r = (next_pid s + int j) mod PROC_MAX_COUNT C \<and> \<not> pid_used s r \<and>
             (\<forall>i < j. pid_used s ((next_pid s + int i) mod PROC_MAX_COUNT C)) \<and>
             s' = s\<lparr>next_pid := (r + 1) mod PROC_MAX_COUNT C\<rparr>)"
proof -
  let ?M = "PROC_MAX_COUNT C" and ?n = "next_pid s"
  have d: "int (nat (?M - 1)) = (?n - ?n - 1) mod ?M" using assms(2) by (simp add: zmod_minus1)
  have le: "i \<le> nat (?M - 1) \<longleftrightarrow> i < nat ?M" for i using assms(2) by linarith
  from proc_getid_loop_spec [OF assms(1,2,3,4,3,4) d] show ?thesis
    unfolding le proc_getid_def by auto
qed

theorem proc_getid_first_free_witness: "\<exists>s'. proc_getid kconf_demo pdemo = Some (3, s') \<and> next_pid s' = 4"
proof -
  have f: "set (proc_list pdemo) \<subseteq> dom (procs pdemo)" "next_pid pdemo = 3" by (auto simp: pdemo_def)
  have free: "\<not> pid_used pdemo 3" by (simp add: pid_used_def pdemo_def proc0_def proc1_def proc2_def)
  have M: "PROC_MAX_COUNT kconf_demo = 100" by (simp add: kconf_demo_def)
  have "0 < PROC_MAX_COUNT kconf_demo" "0 \<le> next_pid pdemo" "next_pid pdemo < PROC_MAX_COUNT kconf_demo"
    by (simp_all add: M f)
  from proc_getid_first_free [OF f(1) this, unfolded M f(2)] obtain r s' where
    r: "proc_getid kconf_demo pdemo = Some (r, s')"
    "if \<forall>i < nat 100. pid_used pdemo ((3 + int i) mod 100) then r = - 1 \<and> s' = pdemo
      else \<exists>j < nat 100. r = (3 + int j) mod 100 \<and> \<not> pid_used pdemo r \<and>
             (\<forall>i < j. pid_used pdemo ((3 + int i) mod 100)) \<and> s' = pdemo\<lparr>next_pid := (r + 1) mod 100\<rparr>"
    by blast
  have nf: "\<not> (\<forall>i < nat 100. pid_used pdemo ((3 + int i) mod 100))" using free by (auto intro!: exI [of _ 0])
  from r(2) [unfolded if_not_P [OF nf]] obtain j where j: "r = (3 + int j) mod 100" "\<forall>i < j. pid_used pdemo ((3 + int i) mod 100)"
    "s' = pdemo\<lparr>next_pid := (r + 1) mod 100\<rparr>" by blast
  with free have "j = 0" by (cases j) auto
  with r j show ?thesis by simp
qed

text \<open>
  C19: \<^verbatim>\<open>proc_create\<close> by a running process, with the idle process (and the init process, or the caller is
  the idle process) present and a process id left, does not fail. The new process runs, has no threads
  and no children, is the last child of the caller and the last of the process list, and
  \<^verbatim>\<open>proc_lookup\<close> of its id finds it; the process tree stays well-formed and process ids unique.
\<close>

theorem proc_create_tree:
  assumes "proc_ok C s" "fresh_proc p s"
    "curproc s = Some cp" "procs s cp = Some cpr" "p_state cpr = PROC_RUNNING"
    "\<exists>pid. 0 \<le> pid \<and> pid < PROC_MAX_COUNT C \<and> \<not> pid_used s pid"
    "pid_used s PID_IDLE" "pid_used s PID_INIT \<or> p_pid cpr = PID_IDLE"
  shows "\<exists>s' pr. proc_create C (Some (p, obj)) pagedir name s = Some (p, s') \<and> proc_ok C s' \<and>
     procs s' p = Some pr \<and> p_state pr = PROC_RUNNING \<and> p_threads pr = [] \<and> p_children pr = [] \<and>
     p_pproc pr = Some cp \<and> p_comm pr = take (PROC_NAME_LEN C - 1) name \<and> \<not> pid_used s (p_pid pr) \<and>
     procs s' cp = Some (cpr\<lparr>p_children := p_children cpr @ [p]\<rparr>) \<and> proc_list s' = proc_list s @ [p] \<and>
     proc_lookup (p_pid pr) s' = Some (Some p)"
proof -
  obtain pid s' where c: "proc_create C (Some (p, obj)) pagedir name s = Some (p, s')" "proc_ok C s'"
    "\<not> pid_used s pid" "procs s' = (procs s)(cp \<mapsto> cpr\<lparr>p_children := p_children cpr @ [p]\<rparr>,
       p \<mapsto> new_proc C obj pid name cp pagedir)" "proc_list s' = proc_list s @ [p]"
    "proc_initproc s' = (if pid = PID_INIT then Some p else proc_initproc s)"
    by (rule proc_create_ok [OF assms])
  let ?pr = "new_proc C obj pid name cp pagedir"
  have ne: "cp \<noteq> p" using assms(2,4) by (auto simp: fresh_proc_def)
  have d: "set (proc_list s') = dom (procs s')" by (rule proc_okD(8) [OF c(2)])
  have p: "procs s' p = Some ?pr" using c(4) by simp
  have "find (\<lambda>q. p_pid (the (procs s' q)) = pid) (proc_list s') = Some p"
  proof -
    have "p \<in> set (proc_list s')" "p_pid (the (procs s' p)) = pid" using c(5) p by (auto simp: new_proc_def)
    moreover have "p_pid (the (procs s' q)) \<noteq> pid" if "q \<in> set (proc_list s')" "q \<noteq> p" for q
    proof -
      from that d obtain qr where "procs s' q = Some qr" by blast
      with proc_okD(4) [OF c(2)] p that(2) show ?thesis by (auto simp: pids_ok_def new_proc_def)
    qed
    ultimately show ?thesis using find_only [of p "proc_list s'" "\<lambda>q. p_pid (the (procs s' q)) = pid" "[]"] by simp
  qed
  then have "proc_lookup pid s' = Some (Some p)"
    using d by (simp add: proc_lookup_def proc_lookup_list_eq)
  with c p ne show ?thesis by (simp add: new_proc_def)
qed

theorem proc_create_tree_witness:
  "\<exists>s' pr. proc_create kconf_demo (Some (13, proc0)) (Some 103) ''ls'' pdemo = Some (13, s') \<and>
     proc_ok kconf_demo s' \<and> procs s' 13 = Some pr \<and> p_comm pr = ''ls'' \<and> p_pproc pr = Some 12"
proof -
  have "proc_ok kconf_demo pdemo" by (rule pdemo_ok) (simp add: kconf_demo_def)
  moreover have "fresh_proc 13 pdemo" by (simp add: fresh_proc_def waits_on_def pdemo_def)
  moreover have "\<not> pid_used pdemo 3" "pid_used pdemo PID_IDLE" "pid_used pdemo PID_INIT"
    by (simp_all add: pid_used_def pdemo_def proc0_def proc1_def proc2_def PID_IDLE_def PID_INIT_def)
  moreover have "curproc pdemo = Some 12" "procs pdemo 12 = Some proc2" "p_state proc2 = PROC_RUNNING"
    by (simp_all add: pdemo_def proc2_def proc0_def)
  moreover have "\<exists>pid. 0 \<le> pid \<and> pid < PROC_MAX_COUNT kconf_demo \<and> \<not> pid_used pdemo pid"
    using calculation(3) by (intro exI [of _ 3]) (simp add: kconf_demo_def)
  ultimately show ?thesis
    using proc_create_tree [of kconf_demo pdemo 13 12 proc2 proc0 "Some 103" "''ls''"]
    by (auto simp: kconf_demo_def)
qed

text \<open>
  C14: when a process with one thread exits (and it is not the init process with children left, and the
  init process runs if it is needed), the process is dead with the given status, each of its children
  is now a child of the init process, behind those it had, and every other process is as before; the
  process tree stays well-formed, and the exit does not return to the exited thread.
\<close>

theorem do_exit_tree:
  assumes "proc_ok C s" "exiting init cp cpr pp c s" "\<forall>f \<in> set irqs. irq_ok f" "do_exit irqs status s = Some s'"
  shows "proc_ok C s' \<and> running s' \<and> curthr s' \<noteq> Some c \<and>
     procs s' cp = Some (cpr\<lparr>p_status := status, p_state := PROC_DEAD\<rparr>) \<and>
     (\<forall>q \<in> set (p_children cpr). parent_of (procs s') q = Some init) \<and>
     (\<forall>q qr. q \<noteq> cp \<longrightarrow> q \<notin> set (p_children cpr) \<longrightarrow> procs s q = Some qr \<longrightarrow>
        procs s' q = Some (if q = init then qr\<lparr>p_children := p_children qr @ p_children cpr\<rparr> else qr))"
proof -
  note okD = proc_okD [OF assms(1)]
  from assms(2) have c: "curthr s = Some c" and run: "running s"
    and cp: "procs s cp = Some cpr" "p_state cpr = PROC_RUNNING" by (simp_all add: exiting_def)
  then obtain k where k: "threads s c = Some k" "kt_wchan k = None" by (auto elim: runningE)
  let ?s0 = "s\<lparr>threads := (threads s)(c \<mapsto> exit_thread status k)\<rparr>"
  have inv0: "sched_inv ?s0"
    using okD(1) qwf_upd [of "threads s" "queues s" c k "exit_thread status k"] k
      twf_upd [of "threads s" "exit_thread status k" c]
    by (simp add: sched_inv_def state_ok_None exit_thread_def)
  obtain r s1 where w: "sched_wakeup_on (P_wait pp) ?s0 = Some (r, s1)" "wakes ?s0 s1"
    by (rule wakeup_wakes [OF inv0, of "P_wait pp"]) simp
  let ?s2 = "s1\<lparr>procs := exit_store init cp cpr status (procs s)\<rparr>"
  note e = kthread_exit_eq [OF assms(1,2) k(1) refl w(1) refl]
  have th: "threads ?s2 c \<noteq> None" using e(5) by simp
  have sw: "sched_switch irqs ?s2 = Some s'" using e(1) assms(4) by (simp add: do_exit_def)
  from proc_ok_switch [OF e(3) assms(3) e(4) th sw] have
    s': "proc_ok C s'" "running s'" "procs s' = exit_store init cp cpr status (procs s)" by auto
  have "map_option kt_state (threads s' c) = Some KT_EXITED"
    by (rule keeps_exited [OF conjunct1 [OF sched_switch_keeps_threads [OF proc_okD(1) [OF e(3)] assms(3) e(4) th sw]]])
      (use e(5) in \<open>simp add: exit_thread_def\<close>)
  then have "curthr s' \<noteq> Some c" using s'(2) by (auto elim: runningE)
  moreover have "cp \<notin> set (p_children cpr)" "set (p_children cpr) \<subseteq> dom (procs s)"
    using tree_children(2) [OF okD(2) cp] tree_okD(3) [OF okD(2) cp(1)] cp(1)
    by (auto simp: node_ok_def parent_of_def bind_eq_Some_conv)
  ultimately show ?thesis using s' by (auto simp: exit_store_def parent_of_def)
qed

lemma pdemo_exiting: "exiting 11 12 proc2 11 3 pdemo"
  using pdemo_sched(2) by (simp add: exiting_def init_ready_def pdemo_def proc2_def proc0_def)

lemma pdemo_contents:
  "tq_contents (P_wait 11) pdemo = [2]" "tq_contents Kt_runq pdemo = []"
  "threads pdemo 2 = Some (thr_on (P_wait 11) KT_SLEEP 11)" "kt_proc (thr_on (P_wait 11) KT_SLEEP 11) = Some 11"
  by (simp_all add: tq_contents_def pdemo_def thr_on_def thr0_def)

theorem do_exit_tree_witness:
  "\<exists>s'. do_exit [] 42 pdemo = Some s' \<and> proc_ok kconf_demo s' \<and> curthr s' \<noteq> Some 3 \<and>
     procs s' 12 = Some (proc2\<lparr>p_status := 42, p_state := PROC_DEAD\<rparr>)"
proof -
  have ok: "proc_ok kconf_demo pdemo" by (rule pdemo_ok) (simp add: kconf_demo_def)
  obtain s' where e: "do_exit [] 42 pdemo = Some s'"
    by (rule exit_runs_parent [OF ok pdemo_exiting pdemo_contents])
  from do_exit_tree [OF ok pdemo_exiting _ e] e show ?thesis by auto
qed

text \<open>
  C4: a parent that waits in \<^verbatim>\<open>do_waitpid(-1)\<close> learns the exit status of its child: when the child exits
  with a status (no other child being dead, no other thread being runnable), the parent runs next, and
  the scan it resumes returns the process id of the child and that status; the process and its thread
  are gone, and the process table is well-formed.
\<close>

theorem exit_wait_roundtrip:
  assumes "proc_ok C s" "exiting init cp cpr pp c s" "procs s pp = Some ppr" "p_pagedir cpr \<noteq> None"
    "tq_contents (P_wait pp) s = [tp]" "tq_contents Kt_runq s = []" "threads s tp = Some ktp" "kt_proc ktp = Some pp"
    "\<forall>q \<in> set (p_children ppr). q \<noteq> cp \<longrightarrow> is_running (procs s) q"
  shows "\<exists>s1 s2. do_exit irqs status s = Some s1 \<and> curthr s1 = Some tp \<and>
     waitpid_any irqs' True s1 = Some ((Returned (p_pid cpr), Some status), s2) \<and>
     proc_ok C s2 \<and> procs s2 cp = None \<and> threads s2 c = None"
proof -
  note okD = proc_okD [OF assms(1)]
  from assms(2) have cp: "procs s cp = Some cpr" "p_pproc cpr = Some pp" "p_threads cpr = [c]"
    by (simp_all add: exiting_def)
  obtain s1 where s1: "do_exit irqs status s = Some s1" "proc_ok C s1" "running s1" "curthr s1 = Some tp"
    "curproc s1 = Some pp" "procs s1 = exit_store init cp cpr status (procs s)"
    by (rule exit_runs_parent [OF assms(1,2,5,6,7,8)])
  obtain ppr' where p: "procs s1 pp = Some ppr'" "p_state ppr' = PROC_RUNNING"
    "find (\<lambda>c. p_state (the (procs s1 c)) = PROC_DEAD) (p_children ppr') = Some cp"
    unfolding s1(6) by (rule exit_store_parent [OF okD(2) cp(1,2) assms(3,9)])
  let ?cpr = "cpr\<lparr>p_status := status, p_state := PROC_DEAD\<rparr>"
  have d: "procs s1 cp = Some ?cpr" "p_pagedir ?cpr \<noteq> None" using s1(6) assms(4) by (simp_all add: exit_store_def)
  obtain t where t: "t = hd (p_threads ?cpr)" "proc_ok C (reap_st cp pp ppr' t s1)"
    "map_option kt_state (threads s1 t) = Some KT_EXITED"
    "waitpid_any irqs' True s1 = Some ((Returned (p_pid ?cpr), Some (p_status ?cpr)), reap_st cp pp ppr' t s1)"
    by (rule waitpid_any_dead [OF s1(2,5) p d])
  with s1(1,4) cp(3) show ?thesis by (auto simp: reap_st_def)
qed

theorem exit_wait_roundtrip_witness:
  "\<exists>s1 s2. do_exit [] 42 pdemo = Some s1 \<and> curthr s1 = Some 2 \<and>
     waitpid_any [] True s1 = Some ((Returned 2, Some 42), s2) \<and> procs s2 12 = None \<and> threads s2 3 = None"
proof -
  have ok: "proc_ok kconf_demo pdemo" by (rule pdemo_ok) (simp add: kconf_demo_def)
  have "procs pdemo 11 = Some proc1" "p_pagedir proc2 \<noteq> None" "p_children proc1 = [12]" "p_pid proc2 = 2"
    by (simp_all add: pdemo_def proc2_def proc1_def proc0_def)
  with exit_wait_roundtrip [OF ok pdemo_exiting _ _ pdemo_contents, of proc1] show ?thesis by fastforce
qed

text \<open>
  \<^verbatim>\<open>do_waitpid\<close> returns \<open>-ECHILD\<close>, at once and with nothing changed or stored, when the caller has no
  children, when the process id is positive and belongs to none of them, and when it is neither
  positive nor \<open>-1\<close>.
\<close>

lemma do_waitpid_echild:
  assumes "proc_ok C s" "curproc s = Some cp" "procs s cp = Some cpr" "p_state cpr = PROC_RUNNING"
    "p_children cpr = [] \<or> pid = 0 \<or> pid < - 1 \<or>
      0 < pid \<and> (\<forall>q \<in> set (p_children cpr). map_option p_pid (procs s q) \<noteq> Some pid)"
  shows "do_waitpid E irqs pid st s = Some ((Returned (- E ECHILD), None), s)"
proof -
  note okD = proc_okD [OF assms(1)]
  have sub: "set (p_children cpr) \<subseteq> dom (procs s)"
    using tree_children(2) [OF okD(2) assms(3,4)] by (auto simp: parent_of_def bind_eq_Some_conv)
  have "find_child (procs s) (\<lambda>c. p_pid c = pid) (p_children cpr) = Some None"
    if "\<forall>q \<in> set (p_children cpr). map_option p_pid (procs s q) \<noteq> Some pid"
    using that sub by (fastforce simp: find_child_eq [OF sub] find_None_iff)
  with assms(2,3,5) show ?thesis by (auto simp: do_waitpid_def)
qed

text \<open>
  C31: \<^verbatim>\<open>do_waitpid\<close> with a positive process id stores the status of the child before it waits: for a child
  that still runs it stores the value the child has at that time, and blocks; the part that runs when
  the child is dead (\<open>waitpid_one\<close>) stores nothing, so the exit status never reaches the caller.
\<close>

theorem do_waitpid_stale_status:
  assumes "proc_ok C s" "running s" "curproc s = Some cp" "procs s cp = Some cpr" "p_state cpr = PROC_RUNNING"
    "p \<in> set (p_children cpr)" "procs s p = Some pr" "p_state pr = PROC_RUNNING" "0 < p_pid pr" "p_pagedir pr \<noteq> None"
    "sched_sleep_on irqs (P_wait cp) s = Some s'"
  shows "do_waitpid E irqs (p_pid pr) True s = Some ((Blocked, Some (p_status pr)), s')"
proof -
  note okD = proc_okD [OF assms(1)]
  have sub: "set (p_children cpr) \<subseteq> dom (procs s)"
    using tree_children(2) [OF okD(2) assms(4,5)] by (auto simp: parent_of_def bind_eq_Some_conv)
  have u: "p_pid (the (procs s q)) \<noteq> p_pid pr" if q: "q \<in> set (p_children cpr)" "q \<noteq> p" for q
  proof -
    from q sub obtain qr where "procs s q = Some qr" by blast
    with okD(4) assms(7) q(2) show ?thesis by (auto simp: pids_ok_def)
  qed
  have "find (\<lambda>c. p_pid (the (procs s c)) = p_pid pr) (p_children cpr) = Some p"
    using find_only [of p "p_children cpr" "\<lambda>c. p_pid (the (procs s c)) = p_pid pr" "[]"] assms(6,7) u by simp
  then have "find_child (procs s) (\<lambda>c. p_pid c = p_pid pr) (p_children cpr) = Some (Some p)"
    by (simp add: find_child_eq [OF sub])
  moreover have "p_children cpr \<noteq> []" using assms(6) by auto
  ultimately show ?thesis using assms by (simp add: do_waitpid_def waitpid_one_def)
qed

text \<open>The init process runs, its child (thread 3) is runnable.\<close>

definition pdemo_init :: proc_st where
  "pdemo_init = pdemo\<lparr>threads := [1 \<mapsto> thr_on (P_wait 10) KT_SLEEP 10, 2 \<mapsto> thr0 11, 3 \<mapsto> thr_on Kt_runq KT_RUN 12],
     queues := (\<lambda>_. \<lparr>tq_list = [], tq_size = 0\<rparr>)(P_wait 10 := \<lparr>tq_list = [1], tq_size = 1\<rparr>,
                Kt_runq := \<lparr>tq_list = [3], tq_size = 1\<rparr>),
     curthr := Some 2, curproc := Some 11\<rparr>"

lemma pdemo_init_ok: "proc_ok kconf_demo pdemo_init" "running pdemo_init"
proof -
  have "qwf (threads pdemo_init) (queues pdemo_init)"
    by (rule qwfI) (auto simp: pdemo_init_def thr_on_def thr0_def split: if_splits)
  moreover have "twf (threads pdemo_init)"
    by (auto simp: twf_def pdemo_init_def thr_on_def thr0_def state_ok_def split: if_splits)
  moreover have "own_ok (procs pdemo_init) (threads pdemo_init)"
    by (auto simp: own_ok_def pdemo_init_def pdemo_defs)
  moreover have "tree_ok (procs pdemo_init) (proc_list pdemo_init)"
    using pdemo_tree by (simp add: pdemo_init_def)
  moreover have "pids_ok (PROC_MAX_COUNT kconf_demo) (procs pdemo_init)" "next_pid pdemo_init = 3"
    by (auto simp: pids_ok_def pdemo_init_def pdemo_defs kconf_demo_def split: if_splits)
  ultimately show "proc_ok kconf_demo pdemo_init" by (simp add: proc_ok_def sched_inv_def kconf_demo_def)
  show "running pdemo_init" by (simp add: running_def pdemo_init_def thr0_def)
qed

theorem do_waitpid_stale_status_witness:
  "\<exists>s'. do_waitpid errno_std [] 2 True pdemo_init = Some ((Blocked, Some 0), s')"
proof -
  have f: "curthr pdemo_init = Some 2" "threads pdemo_init 2 = Some (thr0 11)" "kt_wchan (thr0 11) = None"
    by (simp_all add: pdemo_init_def thr0_def)
  have "sched_inv pdemo_init" using pdemo_init_ok(1) by (rule proc_okD)
  then have inv: "sched_inv (sleep_st KT_SLEEP (P_wait 11) 2 (thr0 11) pdemo_init)"
    by (rule sleep_st_inv [OF _ f(2,3)]) simp_all
  obtain s' where "sched_sleep_on [] (P_wait 11) pdemo_init = Some s'"
    unfolding sched_sleep_on_eq [OF f]
    by (rule sched_switch_ready [OF inv, of 2 "[]"]) (use f in \<open>auto simp: pdemo_init_def\<close>)
  with do_waitpid_stale_status [OF pdemo_init_ok, of 11 proc1 12 proc2 "[]" s' errno_std] show ?thesis
    by (simp add: pdemo_init_def pdemo_def proc2_def proc1_def proc0_def)
qed

text \<open>
  C32: \<^verbatim>\<open>proc_create\<close> does not check the result of \<^verbatim>\<open>_proc_getid\<close>: when every process id is in use it still
  creates a process, with process id \<open>-1\<close>, and links it as a child of the caller.
\<close>

theorem proc_create_full:
  assumes "proc_ok C s" "fresh_proc p s" "curproc s = Some cp" "procs s cp = Some cpr"
    "\<forall>pid. 0 \<le> pid \<and> pid < PROC_MAX_COUNT C \<longrightarrow> pid_used s pid"
  shows "\<exists>s' pr. proc_create C (Some (p, obj)) pagedir name s = Some (p, s') \<and> procs s' p = Some pr \<and> p_pid pr = - 1 \<and>
     procs s' cp = Some (cpr\<lparr>p_children := p_children cpr @ [p]\<rparr>)"
proof -
  let ?M = "PROC_MAX_COUNT C" and ?n = "next_pid s"
  note okD = proc_okD [OF assms(1)]
  have d: "int (nat (?M - 1)) = (?n - ?n - 1) mod ?M" using okD(7) by (simp add: zmod_minus1)
  have used: "pid_used s (x mod ?M)" for x using assms(5) okD(7) by simp
  have L: "set (proc_list s) \<subseteq> dom (procs s)" using okD(8) by simp
  have "proc_getid C s = Some (- 1, s)"
    using proc_getid_loop_spec [OF L okD(7,5,6,5,6) d] used by (auto simp: proc_getid_def)
  moreover have "s = s\<lparr>next_pid := next_pid s\<rparr>" by (cases s) simp
  ultimately have g: "proc_getid C s = Some (- 1, s\<lparr>next_pid := next_pid s\<rparr>)" by simp
  have ne: "cp \<noteq> p" using assms(2,4) by (auto simp: fresh_proc_def)
  show ?thesis
    using proc_create_eq [OF g okD(1) assms(2,3,4)] ne
    by (simp add: PID_IDLE_def PID_INIT_def new_proc_def)
qed

theorem proc_create_full_witness:
  "\<exists>s' pr. proc_create \<lparr>PROC_MAX_COUNT = 3, PROC_NAME_LEN = 8\<rparr> (Some (13, proc0)) None ''sh''
       (pdemo\<lparr>next_pid := 0\<rparr>) = Some (13, s') \<and> procs s' 13 = Some pr \<and> p_pid pr = - 1"
proof -
  let ?C = "\<lparr>PROC_MAX_COUNT = 3, PROC_NAME_LEN = 8\<rparr>" and ?s = "pdemo\<lparr>next_pid := 0\<rparr>"
  have "own_ok (procs pdemo) (threads pdemo)" "pids_ok 3 (procs pdemo)"
    by (auto simp: own_ok_def pids_ok_def pdemo_defs split: if_splits)
  then have ok: "proc_ok ?C ?s" using pdemo_sched pdemo_tree by (simp add: proc_ok_def)
  have "pid_used ?s pid" if "0 \<le> pid" "pid < 3" for pid
  proof -
    from that consider "pid = 0" | "pid = 1" | "pid = 2" by linarith
    then show ?thesis by cases (simp_all add: pid_used_def pdemo_def proc0_def proc1_def proc2_def)
  qed
  moreover have "fresh_proc 13 ?s" by (simp add: fresh_proc_def waits_on_def pdemo_def)
  ultimately show ?thesis
    using proc_create_full [OF ok, of 13 12 proc2 proc0 None "''sh''"] by (auto simp: pdemo_def)
qed

end
