(* ===== verification/Boot.thy ===== *)
theory Boot
  imports Proc_Props
begin

section \<open>Bootstrapping\<close>

text \<open>
  The part of \<^verbatim>\<open>K1/kmain.c\<close> that sets up the process table: \<^verbatim>\<open>proc_init\<close> of \<^verbatim>\<open>K1/proc.c\<close>, \<^verbatim>\<open>bootstrap\<close>, which
  creates the idle process and makes its thread the current one, and \<^verbatim>\<open>initproc_create\<close>. The rest of the
  file initialises devices, runs the test programs of the kernel shell, and halts.
\<close>

subsection \<open>Definitions\<close>

definition proc_init :: "'a proc_st_scheme \<Rightarrow> 'a proc_st_scheme" where
  "proc_init s = s\<lparr>proc_list := []\<rparr>"

definition bootstrap ::
  "kconf \<Rightarrow> ctx_setup \<Rightarrow> (ptr \<times> proc) option \<Rightarrow> ptr option \<Rightarrow> (tid \<times> kthread) option \<Rightarrow> ptr option \<Rightarrow> ptr option
    \<Rightarrow> 'a proc_st_scheme \<Rightarrow> 'a proc_st_scheme option" where
  "bootstrap C context_setup pslab pagedir tslab kstack idleproc_run s = do {
     (p, s) \<leftarrow> proc_create C pslab pagedir ''IDLE'' s;
     let s = s\<lparr>curproc := Some p\<rparr>;
     pr \<leftarrow> procs s p;
     _ \<leftarrow> kassert (PID_IDLE = p_pid pr);
     (t, s) \<leftarrow> kthread_create context_setup tslab kstack (curproc s) idleproc_run 0 None s;
     Some (s\<lparr>curthr := Some t\<rparr>)
   }"

definition initproc_create ::
  "kconf \<Rightarrow> ctx_setup \<Rightarrow> (ptr \<times> proc) option \<Rightarrow> ptr option \<Rightarrow> (tid \<times> kthread) option \<Rightarrow> ptr option \<Rightarrow> ptr option
    \<Rightarrow> 'a proc_st_scheme \<Rightarrow> (tid \<times> 'a proc_st_scheme) option" where
  "initproc_create C context_setup pslab pagedir tslab kstack initproc_run s = do {
     (initP, s) \<leftarrow> proc_create C pslab pagedir ''INIT'' s;
     pr \<leftarrow> procs s initP;
     _ \<leftarrow> kassert (PID_INIT = p_pid pr);
     kthread_create context_setup tslab kstack (Some initP) initproc_run 0 None s
   }"

subsection \<open>A new thread\<close>

definition new_thread :: "ctx_setup \<Rightarrow> kthread \<Rightarrow> ptr option \<Rightarrow> ptr \<Rightarrow> proc \<Rightarrow> ptr option \<Rightarrow> int \<Rightarrow> ptr option \<Rightarrow> kthread" where
  "new_thread cs obj kstack p pr func arg1 arg2 = obj\<lparr>kt_kstack := kstack, kt_retval := 0, kt_errno := 0,
     kt_proc := Some p, kt_cancelled := False, kt_state := KT_RUN, kt_wchan := None, kt_qlink := None,
     kt_plink := Some p, kt_stk_ipl := None, kt_ctx := cs func arg1 arg2 kstack (p_pagedir pr)\<rparr>"

lemma kthread_create_eq:
  assumes "procs s p = Some pr"
  shows "kthread_create cs (Some (t, obj)) kstack (Some p) func arg1 arg2 s = Some (t,
     s\<lparr>procs := (procs s)(p \<mapsto> pr\<lparr>p_threads := p_threads pr @ [t]\<rparr>),
       threads := (threads s)(t \<mapsto> new_thread cs obj kstack p pr func arg1 arg2)\<rparr>)"
  using assms by (simp add: kthread_create_def proc_upd_def new_thread_def Let_def)

lemma tree_ok_same:
  assumes tr: "tree_ok P L" and p: "P p = Some pr" and same: "p_child_link pr' = p_child_link pr"
    "p_pproc pr' = p_pproc pr" "p_state pr' = p_state pr" "p_children pr' = p_children pr"
  shows "tree_ok (P(p \<mapsto> pr')) L"
proof -
  have par: "parent_of (P(p \<mapsto> pr')) = parent_of P" using p same by (auto simp: parent_of_def fun_eq_iff)
  have run: "is_running (P(p \<mapsto> pr')) = is_running P" using p same by (auto simp: is_running_def fun_eq_iff)
  have nd: "node_ok P p pr' \<longleftrightarrow> node_ok P p pr" using same by (simp add: node_ok_def)
  have "node_ok (P(p \<mapsto> pr')) q qr = node_ok P q qr" for q qr by (simp add: node_ok_def par run)
  with tr p nd show ?thesis by (auto simp: tree_ok_def)
qed

lemma kthread_create_ok:
  assumes ok: "proc_ok C s" and p: "procs s p = Some pr" "p_state pr = PROC_RUNNING"
    and t: "threads s t = None" and k: "kstack \<noteq> None"
  shows "proc_ok C (s\<lparr>procs := (procs s)(p \<mapsto> pr\<lparr>p_threads := p_threads pr @ [t]\<rparr>),
       threads := (threads s)(t \<mapsto> new_thread cs obj kstack p pr func arg1 arg2)\<rparr>)"
proof -
  note okD = proc_okD [OF ok]
  let ?k = "new_thread cs obj kstack p pr func arg1 arg2" and ?pr = "pr\<lparr>p_threads := p_threads pr @ [t]\<rparr>"
  let ?P = "(procs s)(p \<mapsto> ?pr)" and ?T = "(threads s)(t \<mapsto> ?k)"
  have k': "kt_wchan ?k = None" "kt_qlink ?k = None" "kt_state ?k = KT_RUN" "kt_plink ?k = Some p" "kt_kstack ?k \<noteq> None"
    using k by (simp_all add: new_thread_def)
  have "qwf ?T (queues s)" "twf ?T"
    using okD(1) qwf_fresh [of "threads s" "queues s" t ?k] twf_upd [of "threads s" ?k t] t k'
    by (simp_all add: sched_inv_def state_ok_None)
  moreover have "tree_ok ?P (proc_list s)" by (rule tree_ok_same [OF okD(2) p(1)]) simp_all
  moreover have "own_ok ?P ?T"
    unfolding own_ok_def
  proof (intro allI impI)
    fix q qr assume q: "?P q = Some qr"
    have old: "\<exists>k. ?T u = Some k \<and> kt_plink k = Some q \<and> kt_kstack k \<noteq> None \<and> (p_state qr' = PROC_DEAD \<longrightarrow> kt_state k = KT_EXITED)"
      if u: "procs s q = Some qr'" "u \<in> set (p_threads qr')" for u qr'
    proof -
      obtain ku where "threads s u = Some ku" "kt_plink ku = Some q" "kt_kstack ku \<noteq> None"
        "p_state qr' = PROC_DEAD \<longrightarrow> kt_state ku = KT_EXITED"
        by (rule own_okE [OF okD(3) u]) blast
      with t show ?thesis by auto
    qed
    have dead: "p_state qr' = PROC_DEAD \<longrightarrow> p_threads qr' \<noteq> []" if "procs s q = Some qr'" for qr'
      using okD(3) that by (simp add: own_ok_def)
    show "(\<forall>u \<in> set (p_threads qr). \<exists>k. ?T u = Some k \<and> kt_plink k = Some q \<and> kt_kstack k \<noteq> None \<and>
        (p_state qr = PROC_DEAD \<longrightarrow> kt_state k = KT_EXITED)) \<and> (p_state qr = PROC_DEAD \<longrightarrow> p_threads qr \<noteq> [])"
    proof (cases "q = p")
      case True
      with q p have qr: "qr = ?pr" "procs s q = Some pr" by simp_all
      have "\<exists>k. ?T u = Some k \<and> kt_plink k = Some q \<and> kt_kstack k \<noteq> None"
        if "u \<in> set (p_threads qr)" for u
      proof (cases "u = t")
        case False
        with that qr(1) have "u \<in> set (p_threads pr)" by simp
        with old [OF qr(2)] show ?thesis by blast
      qed (use k' True in simp)
      moreover have "p_state qr = PROC_RUNNING" using qr p(2) by simp
      ultimately show ?thesis by simp
    next
      case False
      with q have "procs s q = Some qr" by simp
      with old [OF this] dead [OF this] show ?thesis by blast
    qed
  qed
  moreover have "pids_ok (PROC_MAX_COUNT C) ?P"
    using okD(4) p(1) unfolding pids_ok_def by (auto split: if_splits)
  ultimately show ?thesis using okD(5,6) by (simp add: proc_ok_def sched_inv_def)
qed

subsection \<open>The state after booting\<close>

text \<open>
  The memory before \<^verbatim>\<open>bootstrap\<close>: no threads, no processes, empty queues. The memory of the run queue is zero until
  \<^verbatim>\<open>sched_init\<close>, which the idle process calls through \<^verbatim>\<open>init_call_all\<close> after it has created the init process; nothing before that looks at it.
\<close>

definition boot_st :: "'a \<Rightarrow> 'a proc_st_scheme" where
  "boot_st x = \<lparr>threads = Map.empty, queues = (\<lambda>_. \<lparr>tq_list = [], tq_size = 0\<rparr>), curthr = None, curproc = None,
     ipl = IPL_HIGH, km_holder = Map.empty, procs = Map.empty, proc_list = [], proc_initproc = None,
     next_pid = 0, \<dots> = x\<rparr>"

definition root_proc :: "kconf \<Rightarrow> proc \<Rightarrow> ptr option \<Rightarrow> proc" where
  "root_proc C obj pagedir = obj\<lparr>p_pid := 0, p_comm := take (PROC_NAME_LEN C - 1) ''IDLE'', p_threads := [],
     p_children := [], p_pproc := None, p_status := 0, p_state := PROC_RUNNING, p_pagedir := pagedir,
     p_child_link := None\<rparr>"

lemma boot_create:
  assumes "2 < PROC_MAX_COUNT C"
  shows "proc_create C (Some (p, obj)) pagedir ''IDLE'' (boot_st x) =
     Some (p, (boot_st x)\<lparr>next_pid := 1, proc_list := [p], procs := [p \<mapsto> root_proc C obj pagedir]\<rparr>)"
proof -
  have "proc_getid C (boot_st x) = Some (0, (boot_st x)\<lparr>next_pid := 1\<rparr>)"
    unfolding proc_getid_def using assms
    by (subst proc_getid_loop.simps) (simp add: proc_lookup_def boot_st_def)
  then show ?thesis
    by (simp add: proc_create_def PID_IDLE_def PID_INIT_def Let_def root_proc_def boot_st_def
        sched_queue_init_def fun_upd_idem)
qed

lemma boot_ok:
  assumes "2 < PROC_MAX_COUNT C"
  shows "proc_ok C ((boot_st x)\<lparr>next_pid := 1, proc_list := [p], procs := [p \<mapsto> root_proc C obj pagedir]\<rparr>)"
proof -
  have "tree_ok [p \<mapsto> root_proc C obj pagedir] [p]"
    by (auto simp: tree_ok_def node_ok_def parent_of_def root_proc_def split: if_splits)
  then show ?thesis
    using assms by (auto simp: proc_ok_def sched_inv_def qwf_def twf_def own_ok_def pids_ok_def boot_st_def root_proc_def
        split: if_splits)
qed

lemma sched_inv_cur [simp]: "sched_inv (s\<lparr>curthr := c\<rparr>) = sched_inv s" "sched_inv (s\<lparr>curproc := p\<rparr>) = sched_inv s"
  by (simp_all add: sched_inv_def)

lemma proc_ok_cur [simp]: "proc_ok C (s\<lparr>curthr := c\<rparr>) = proc_ok C s" "proc_ok C (s\<lparr>curproc := p\<rparr>) = proc_ok C s"
  by (simp_all add: proc_ok_def)

definition idle_st :: "kconf \<Rightarrow> ctx_setup \<Rightarrow> ptr \<Rightarrow> proc \<Rightarrow> ptr option \<Rightarrow> tid \<Rightarrow> kthread \<Rightarrow> ptr option \<Rightarrow> ptr option \<Rightarrow> 'a \<Rightarrow> 'a proc_st_scheme" where
  "idle_st C cs p0 obj0 pd0 t0 tobj0 k0 f0 x = (boot_st x)\<lparr>next_pid := 1, proc_list := [p0], curproc := Some p0,
     procs := [p0 \<mapsto> (root_proc C obj0 pd0)\<lparr>p_threads := [t0]\<rparr>],
     threads := [t0 \<mapsto> new_thread cs tobj0 k0 p0 (root_proc C obj0 pd0) f0 0 None], curthr := Some t0\<rparr>"

lemma bootstrap_idle:
  assumes "2 < PROC_MAX_COUNT C" "k0 \<noteq> None"
  shows "bootstrap C cs (Some (p0, obj0)) pd0 (Some (t0, tobj0)) k0 f0 (proc_init (boot_st x)) = Some (idle_st C cs p0 obj0 pd0 t0 tobj0 k0 f0 x)"
    and "proc_ok C (idle_st C cs p0 obj0 pd0 t0 tobj0 k0 f0 x)"
proof -
  let ?r = "root_proc C obj0 pd0"
  let ?c = "(boot_st x)\<lparr>next_pid := 1, proc_list := [p0], procs := [p0 \<mapsto> ?r], curproc := Some p0\<rparr>"
  let ?s = "?c\<lparr>procs := [p0 \<mapsto> ?r\<lparr>p_threads := [t0]\<rparr>], threads := [t0 \<mapsto> new_thread cs tobj0 k0 p0 ?r f0 0 None]\<rparr>"
  have okc: "proc_ok C ?c" using boot_ok [OF assms(1)] by simp
  have rt: "p_threads ?r = []" "p_state ?r = PROC_RUNNING" "p_pid ?r = 0" by (simp_all add: root_proc_def)
  have th: "threads ?c = Map.empty" by (simp add: boot_st_def)
  have cr: "kthread_create cs (Some (t0, tobj0)) k0 (Some p0) f0 0 None ?c = Some (t0, ?s)"
    using kthread_create_eq [of ?c p0 ?r cs t0 tobj0 k0 f0 0 None] rt(1) th by simp
  have "proc_ok C ?s" using kthread_create_ok [OF okc, of p0 ?r t0 k0 cs tobj0 f0 0 None] assms(2) rt th by simp
  then show "proc_ok C (idle_st C cs p0 obj0 pd0 t0 tobj0 k0 f0 x)" by (simp add: idle_st_def)
  show "bootstrap C cs (Some (p0, obj0)) pd0 (Some (t0, tobj0)) k0 f0 (proc_init (boot_st x)) = Some (idle_st C cs p0 obj0 pd0 t0 tobj0 k0 f0 x)"
    using boot_create [OF assms(1), of p0 obj0 pd0 x] cr rt(3) by (simp add: bootstrap_def proc_init_def boot_st_def PID_IDLE_def idle_st_def)
qed

text \<open>
  \<^verbatim>\<open>initproc_create\<close> after \<^verbatim>\<open>bootstrap\<close>: the init process has process id 1, is a child of the idle process, is recorded as
  the init process and has one thread, which is not yet queued.
\<close>

lemma initproc_first:
  assumes "2 < PROC_MAX_COUNT C" "p0 \<noteq> p1" "t0 \<noteq> t1" "k0 \<noteq> None" "k1 \<noteq> None"
  shows "\<exists>s2 r0 r1. initproc_create C cs (Some (p1, obj1)) pd1 (Some (t1, tobj1)) k1 f1 (idle_st C cs p0 obj0 pd0 t0 tobj0 k0 f0 x) = Some (t1, s2) \<and>
     proc_ok C s2 \<and> running s2 \<and> curthr s2 = Some t0 \<and> curproc s2 = Some p0 \<and> proc_initproc s2 = Some p1 \<and>
     procs s2 p0 = Some r0 \<and> p_pid r0 = PID_IDLE \<and> p_children r0 = [p1] \<and> p_threads r0 = [t0] \<and>
     procs s2 p1 = Some r1 \<and> p_pid r1 = PID_INIT \<and> p_pproc r1 = Some p0 \<and> p_threads r1 = [t1] \<and>
     unqueued t1 s2 \<and> queues s2 Kt_runq = \<lparr>tq_list = [], tq_size = 0\<rparr>"
proof -
  let ?s1 = "idle_st C cs p0 obj0 pd0 t0 tobj0 k0 f0 x" and ?r' = "(root_proc C obj0 pd0)\<lparr>p_threads := [t0]\<rparr>"
  have rt: "p_state ?r' = PROC_RUNNING" "p_pid ?r' = 0" "p_children ?r' = []" by (simp_all add: root_proc_def)
  have ok1: "proc_ok C ?s1" by (rule bootstrap_idle(2) [OF assms(1,4)])
  have g: "proc_getid C ?s1 = Some (1, ?s1\<lparr>next_pid := 2\<rparr>)" unfolding proc_getid_def using assms(1) rt(2)
    by (subst proc_getid_loop.simps) (simp add: proc_lookup_def idle_st_def)
  have fr: "fresh_proc p1 ?s1" using assms(2) by (simp add: fresh_proc_def waits_on_def boot_st_def idle_st_def)
  have cur: "curproc ?s1 = Some p0" "procs ?s1 p0 = Some ?r'" "p_pid ?r' = PID_IDLE" using rt(2) by (simp_all add: PID_IDLE_def idle_st_def)
  let ?n = "new_proc C obj1 1 ''INIT'' p0 pd1"
  let ?s2 = "?s1\<lparr>next_pid := 2, proc_initproc := Some p1, proc_list := [p0, p1], procs := [p0 \<mapsto> ?r'\<lparr>p_children := [p1]\<rparr>, p1 \<mapsto> ?n]\<rparr>"
  have pc: "proc_create C (Some (p1, obj1)) pd1 ''INIT'' ?s1 = Some (p1, ?s2)"
    using proc_create_eq [OF g proc_okD(1) [OF ok1] fr cur(1,2), of obj1 pd1 "''INIT''"] cur(3) rt(3)
    by (simp add: PID_IDLE_def PID_INIT_def) (simp add: idle_st_def)
  have used: "pid_used ?s1 PID_IDLE" "\<not> pid_used ?s1 1" using rt(2) by (simp_all add: pid_used_def PID_IDLE_def idle_st_def)
  have "\<exists>pid. 0 \<le> pid \<and> pid < PROC_MAX_COUNT C \<and> \<not> pid_used ?s1 pid" using used(2) assms(1) by (intro exI [of _ 1]) simp
  then obtain pid s' where "proc_create C (Some (p1, obj1)) pd1 ''INIT'' ?s1 = Some (p1, s')" "proc_ok C s'"
    using rt(1) cur(3) used(1) by (rule_tac proc_create_ok [OF ok1 fr cur(1,2)]) auto
  with pc have ok2: "proc_ok C ?s2" by simp
  have n: "procs ?s2 p1 = Some ?n" "p_state ?n = PROC_RUNNING" "p_threads ?n = []" "p_pid ?n = 1" "p_pproc ?n = Some p0"
    using assms(2) by (simp_all add: new_proc_def)
  have t1: "threads ?s2 t1 = None" using assms(3) by (simp add: idle_st_def)
  let ?s3 = "?s2\<lparr>procs := (procs ?s2)(p1 \<mapsto> ?n\<lparr>p_threads := p_threads ?n @ [t1]\<rparr>), threads := (threads ?s2)(t1 \<mapsto> new_thread cs tobj1 k1 p1 ?n f1 0 None)\<rparr>"
  have ok3: "proc_ok C ?s3" by (rule kthread_create_ok [OF ok2 n(1,2) t1 assms(5)])
  have ic: "initproc_create C cs (Some (p1, obj1)) pd1 (Some (t1, tobj1)) k1 f1 ?s1 = Some (t1, ?s3)"
    using pc kthread_create_eq [OF n(1), of cs t1 tobj1 k1 f1 0 None] n(1,4) by (simp add: initproc_create_def PID_INIT_def)
  show ?thesis
  proof (intro exI conjI)
    show "initproc_create C cs (Some (p1, obj1)) pd1 (Some (t1, tobj1)) k1 f1 ?s1 = Some (t1, ?s3)" by (rule ic)
    show "proc_ok C ?s3" by (rule ok3)
    show "running ?s3" "unqueued t1 ?s3" "curthr ?s3 = Some t0" "curproc ?s3 = Some p0"
      using assms(3) by (simp_all add: running_def new_thread_def unqueued_def idle_st_def)
    show "queues ?s3 Kt_runq = \<lparr>tq_list = [], tq_size = 0\<rparr>" by (simp add: idle_st_def boot_st_def)
    show "procs ?s3 p0 = Some (?r'\<lparr>p_children := [p1]\<rparr>)" using assms(2) by simp
    show "procs ?s3 p1 = Some (?n\<lparr>p_threads := p_threads ?n @ [t1]\<rparr>)" by simp
  qed (simp_all add: root_proc_def n(3-5) PID_IDLE_def PID_INIT_def)
qed

end
