(* ===== verification/Vfs.thy ===== *)
theory Vfs
  imports Boot
begin

section \<open>Files and vnodes\<close>

text \<open>
  The state of the virtual file system, and the model of \<^verbatim>\<open>K3/vnode.c\<close>: reference counting of vnodes,
  bringing vnodes in and letting them go, and special files.

  Open files and vnodes are keys of the stores \<open>files\<close> and \<open>vnodes\<close>. The code that the repository calls
  but does not contain is collected in the record \<open>fs_ext\<close>, an argument of the definitions that use
  it: \<^verbatim>\<open>fget\<close> and \<^verbatim>\<open>fput\<close>, the operation tables of the mounted file system, and the device drivers. A
  call of theirs returns its result and the new state, or \<open>None\<close> when it does not return.

  A table of vnode operations is known by the set of its entries that are not \<^verbatim>\<open>NULL\<close>; the two tables
  for special files are those of the source.
\<close>

subsection \<open>State\<close>

datatype mode_t = S_IFDIR | S_IFREG | S_IFCHR | S_IFBLK | S_IFOTHER int

datatype vop = Op_read | Op_write | Op_mmap | Op_create | Op_mknod | Op_lookup | Op_link | Op_unlink
  | Op_mkdir | Op_rmdir | Op_readdir | Op_stat | Op_fillpage | Op_dirtypage | Op_cleanpage

datatype vnode_ops = Fs_vops "vop set" | Bytedev_spec_vops | Blockdev_spec_vops

record vnode =
  vn_ops :: vnode_ops
  vn_fs :: ptr
  vn_vno :: int
  vn_mode :: mode_t
  vn_len :: int
  vn_devid :: u32
  vn_cdev :: "ptr option"
  vn_bdev :: "ptr option"
  vn_refcount :: int
  vn_nrespages :: int
  vn_busy :: bool

record file_t =
  f_pos :: int
  f_mode :: u32
  f_refcount :: int
  f_vnode :: "ptr option"

record vfs_st = proc_st +
  files :: "ptr \<Rightarrow> file_t option"
  vnodes :: "ptr \<Rightarrow> vnode option"
  vnode_inuse_list :: "ptr list"
  vfs_root_vn :: "ptr option"
  fs_root :: "ptr \<Rightarrow> ptr option"

text \<open>Constants of the header files.\<close>

record vconf =
  NFILES :: nat
  NAME_LEN :: nat
  MAXPATHLEN :: nat
  O_RDONLY :: u32
  O_WRONLY :: u32
  O_RDWR :: u32
  O_CREAT :: u32
  O_APPEND :: u32
  FMODE_READ :: u32
  FMODE_WRITE :: u32
  FMODE_APPEND :: u32
  SEEK_SET :: int
  SEEK_CUR :: int
  SEEK_END :: int
  DIRENT_SIZE :: int

record 's fs_ext =
  fget :: "int \<Rightarrow> 's \<Rightarrow> (ptr option \<times> 's) option"
  fput :: "ptr \<Rightarrow> 's \<Rightarrow> 's option"
  op_read :: "ptr \<Rightarrow> int \<Rightarrow> u32 \<Rightarrow> 's \<Rightarrow> ((int \<times> 8 word list) \<times> 's) option"
  op_write :: "ptr \<Rightarrow> int \<Rightarrow> 8 word list \<Rightarrow> 's \<Rightarrow> (int \<times> 's) option"
  op_lookup :: "ptr \<Rightarrow> string \<Rightarrow> 's \<Rightarrow> ((int \<times> ptr option) \<times> 's) option"
  op_create :: "ptr \<Rightarrow> string \<Rightarrow> 's \<Rightarrow> ((int \<times> ptr option) \<times> 's) option"
  op_mknod :: "ptr \<Rightarrow> string \<Rightarrow> mode_t \<Rightarrow> u32 \<Rightarrow> 's \<Rightarrow> (int \<times> 's) option"
  op_mkdir :: "ptr \<Rightarrow> string \<Rightarrow> 's \<Rightarrow> (int \<times> 's) option"
  op_rmdir :: "ptr \<Rightarrow> string \<Rightarrow> 's \<Rightarrow> (int \<times> 's) option"
  op_unlink :: "ptr \<Rightarrow> string \<Rightarrow> 's \<Rightarrow> (int \<times> 's) option"
  op_link :: "ptr \<Rightarrow> ptr \<Rightarrow> string \<Rightarrow> 's \<Rightarrow> (int \<times> 's) option"
  op_readdir :: "ptr \<Rightarrow> int \<Rightarrow> 's \<Rightarrow> (int \<times> 's) option"
  op_stat :: "ptr \<Rightarrow> ptr \<Rightarrow> 's \<Rightarrow> (int \<times> 's) option"
  read_vnode :: "ptr \<Rightarrow> 's \<Rightarrow> 's option"
  query_vnode :: "ptr \<Rightarrow> 's \<Rightarrow> bool"
  delete_vnode :: "(ptr \<Rightarrow> 's \<Rightarrow> 's option) option"
  name_match :: "string \<Rightarrow> string \<Rightarrow> nat \<Rightarrow> bool"
  free_respages :: "ptr \<Rightarrow> 's \<Rightarrow> 's option"
  vn_mmobj_init :: "ptr \<Rightarrow> 's \<Rightarrow> 's"
  bytedev_lookup :: "u32 \<Rightarrow> ptr option"
  blockdev_lookup :: "u32 \<Rightarrow> ptr option"
  cd_read :: "ptr \<Rightarrow> int \<Rightarrow> u32 \<Rightarrow> 's \<Rightarrow> ((int \<times> 8 word list) \<times> 's) option"
  cd_write :: "ptr \<Rightarrow> int \<Rightarrow> 8 word list \<Rightarrow> 's \<Rightarrow> (int \<times> 's) option"

definition has_op :: "vnode_ops \<Rightarrow> vop \<Rightarrow> bool" where
  "has_op ops vop = (case ops of
       Fs_vops X \<Rightarrow> vop \<in> X
     | Bytedev_spec_vops \<Rightarrow> vop \<in> {Op_read, Op_write, Op_mmap, Op_stat, Op_fillpage, Op_dirtypage, Op_cleanpage}
     | Blockdev_spec_vops \<Rightarrow> vop = Op_stat)"

definition S_ISDIR :: "mode_t \<Rightarrow> bool" where
  "S_ISDIR m \<longleftrightarrow> m = S_IFDIR"

definition S_ISCHR :: "mode_t \<Rightarrow> bool" where
  "S_ISCHR m \<longleftrightarrow> m = S_IFCHR"

definition S_ISBLK :: "mode_t \<Rightarrow> bool" where
  "S_ISBLK m \<longleftrightarrow> m = S_IFBLK"

definition S_ISREG :: "mode_t \<Rightarrow> bool" where
  "S_ISREG m \<longleftrightarrow> m = S_IFREG"

definition vn_upd :: "ptr \<Rightarrow> (vnode \<Rightarrow> vnode) \<Rightarrow> 'a vfs_st_scheme \<Rightarrow> 'a vfs_st_scheme option" where
  "vn_upd v f s = do {
     vn \<leftarrow> vnodes s v;
     Some (s\<lparr>vnodes := (vnodes s)(v \<mapsto> f vn)\<rparr>)
   }"

definition f_upd :: "ptr \<Rightarrow> (file_t \<Rightarrow> file_t) \<Rightarrow> 'a vfs_st_scheme \<Rightarrow> 'a vfs_st_scheme option" where
  "f_upd x f s = do {
     fl \<leftarrow> files s x;
     Some (s\<lparr>files := (files s)(x \<mapsto> f fl)\<rparr>)
   }"

subsection \<open>Reference counts of vnodes\<close>

definition vnode_init :: "'a vfs_st_scheme \<Rightarrow> 'a vfs_st_scheme" where
  "vnode_init s = s\<lparr>vnode_inuse_list := []\<rparr>"

definition vref :: "ptr \<Rightarrow> 'a vfs_st_scheme \<Rightarrow> 'a vfs_st_scheme option" where
  "vref v s = do {
     vn \<leftarrow> vnodes s v;
     _ \<leftarrow> kassert (0 < vn_refcount vn);
     vn_upd v (\<lambda>vn. vn\<lparr>vn_refcount := vn_refcount vn + 1\<rparr>) s
   }"

text \<open>
  The loop of \<^verbatim>\<open>vput\<close> that frees the resident pages of a vnode is the entry \<open>free_respages\<close>, since it
  runs in the page frame cache. The theory \<open>Vm_Vnode\<close> has its model, and shows that it does what is
  demanded of the entry here; \<open>vput_free\<close> is the end of the function, for a vnode without references.
\<close>

definition vput_free :: "'a vfs_st_scheme fs_ext \<Rightarrow> ptr \<Rightarrow> 'a vfs_st_scheme \<Rightarrow> 'a vfs_st_scheme option" where
  "vput_free F v s = do {
     vn \<leftarrow> vnodes s v;
     _ \<leftarrow> kassert (0 = vn_refcount vn);
     _ \<leftarrow> kassert (0 = vn_nrespages vn);
     s \<leftarrow> vn_upd v (\<lambda>vn. vn\<lparr>vn_busy := True\<rparr>) s;
     s \<leftarrow> (case delete_vnode F of Some del \<Rightarrow> del v s | None \<Rightarrow> Some s);
     s \<leftarrow> sched_broadcast_on (Vn_waitq v) s;
     Some (s\<lparr>vnode_inuse_list := remove1 v (vnode_inuse_list s), vnodes := (vnodes s)(v := None)\<rparr>)
   }"

definition vput :: "'a vfs_st_scheme fs_ext \<Rightarrow> ptr \<Rightarrow> 'a vfs_st_scheme \<Rightarrow> 'a vfs_st_scheme option" where
  "vput F v s = do {
     vn \<leftarrow> vnodes s v;
     _ \<leftarrow> kassert (0 \<le> vn_nrespages vn);
     _ \<leftarrow> kassert (vn_nrespages vn < vn_refcount vn);
     _ \<leftarrow> kassert (\<not> vn_busy vn);
     s \<leftarrow> (if vn_nrespages vn = vn_refcount vn - 1 \<and> \<not> query_vnode F v s then do {
              s \<leftarrow> free_respages F v s;
              vn \<leftarrow> vnodes s v;
              _ \<leftarrow> kassert (0 = vn_nrespages vn);
              _ \<leftarrow> kassert (1 = vn_refcount vn);
              Some s
            } else Some s);
     s \<leftarrow> vn_upd v (\<lambda>vn. vn\<lparr>vn_refcount := vn_refcount vn - 1\<rparr>) s;
     vn \<leftarrow> vnodes s v;
     if 0 < vn_refcount vn then Some s else vput_free F v s
   }"

definition init_special_vnode :: "'a vfs_st_scheme fs_ext \<Rightarrow> ptr \<Rightarrow> 'a vfs_st_scheme \<Rightarrow> 'a vfs_st_scheme option" where
  "init_special_vnode F v s = do {
     vn \<leftarrow> vnodes s v;
     if S_ISCHR (vn_mode vn) then
       vn_upd v (\<lambda>vn. vn\<lparr>vn_ops := Bytedev_spec_vops, vn_cdev := bytedev_lookup F (vn_devid vn)\<rparr>) s
     else do {
       _ \<leftarrow> kassert (S_ISBLK (vn_mode vn));
       vn_upd v (\<lambda>vn. vn\<lparr>vn_ops := Blockdev_spec_vops, vn_bdev := blockdev_lookup F (vn_devid vn)\<rparr>) s
     }
   }"

fun find_vnode :: "(ptr \<Rightarrow> vnode option) \<Rightarrow> ptr \<Rightarrow> int \<Rightarrow> ptr list \<Rightarrow> ptr option option" where
  "find_vnode V fs vno [] = Some None"
| "find_vnode V fs vno (v # vs) = do {
     vn \<leftarrow> V v;
     if vn_fs vn = fs \<and> vn_vno vn = vno then Some (Some v) else find_vnode V fs vno vs
   }"

text \<open>
  \<^verbatim>\<open>vget\<close> is called again by its caller's thread when it has slept on a busy vnode, or yielded because
  memory was exhausted (\<open>slab = None\<close>); both are the outcome \<open>Blocked\<close>. The new vnode is zeroed;
  \<open>vn_mmobj_init\<close> is \<^verbatim>\<open>mmobj_init\<close> of the memory object inside it, which belongs to virtual memory.
\<close>

definition vnode_zero :: "ptr \<Rightarrow> int \<Rightarrow> vnode" where
  "vnode_zero fs vno = \<lparr>vn_ops = Fs_vops {}, vn_fs = fs, vn_vno = vno, vn_mode = S_IFOTHER 0, vn_len = 0,
     vn_devid = 0, vn_cdev = None, vn_bdev = None, vn_refcount = 0, vn_nrespages = 0, vn_busy = False\<rparr>"

definition vget ::
  "'a vfs_st_scheme fs_ext \<Rightarrow> ('a vfs_st_scheme \<Rightarrow> 'a vfs_st_scheme option) list \<Rightarrow> ptr option \<Rightarrow> ptr \<Rightarrow> int
    \<Rightarrow> 'a vfs_st_scheme \<Rightarrow> (ptr outcome \<times> 'a vfs_st_scheme) option" where
  "vget F irqs slab fs vno s = do {
     found \<leftarrow> find_vnode (vnodes s) fs vno (vnode_inuse_list s);
     case found of
       Some v \<Rightarrow> do {
         vn \<leftarrow> vnodes s v;
         if vn_busy vn then do {
           s \<leftarrow> sched_sleep_on irqs (Vn_waitq v) s;
           Some (Blocked, s)
         } else do {
           s \<leftarrow> vref v s;
           Some (Returned v, s)
         }
       }
     | None \<Rightarrow> (case slab of
         None \<Rightarrow> do {
           t \<leftarrow> curthr s;
           s \<leftarrow> sched_make_runnable t s;
           s \<leftarrow> sched_switch irqs s;
           Some (Blocked, s)
         }
       | Some v \<Rightarrow> do {
           let s = s\<lparr>vnodes := (vnodes s)(v \<mapsto> vnode_zero fs vno)\<rparr>;
           let s = kmutex_init v s;
           let s = vn_mmobj_init F v s;
           let s = sched_queue_init (Vn_waitq v) s;
           s \<leftarrow> vn_upd v (\<lambda>vn. vn\<lparr>vn_busy := True\<rparr>) s;
           let s = s\<lparr>vnode_inuse_list := v # vnode_inuse_list s\<rparr>;
           s \<leftarrow> read_vnode F v s;
           s \<leftarrow> vn_upd v (\<lambda>vn. vn\<lparr>vn_busy := False\<rparr>) s;
           vn \<leftarrow> vnodes s v;
           s \<leftarrow> (if S_ISCHR (vn_mode vn) \<or> S_ISBLK (vn_mode vn) then init_special_vnode F v s else Some s);
           s \<leftarrow> vn_upd v (\<lambda>vn. vn\<lparr>vn_refcount := 1\<rparr>) s;
           Some (Returned v, s)
         })
   }"

subsection \<open>Use of a file system\<close>

fun vfs_is_in_use_list :: "(errno \<Rightarrow> int) \<Rightarrow> ptr \<Rightarrow> 'a vfs_st_scheme \<Rightarrow> ptr list \<Rightarrow> int \<Rightarrow> int option" where
  "vfs_is_in_use_list E fs s [] ret = Some ret"
| "vfs_is_in_use_list E fs s (v # vs) ret = do {
     vn \<leftarrow> vnodes s v;
     _ \<leftarrow> kassert (vn_refcount vn \<ge> vn_nrespages vn);
     _ \<leftarrow> kassert (vn_nrespages vn \<ge> 0);
     if fs \<noteq> vn_fs vn then vfs_is_in_use_list E fs s vs ret
     else do {
       let refs = vn_refcount vn - vn_nrespages vn;
       let root = (fs_root s (vn_fs vn) = Some v);
       _ \<leftarrow> kassert (0 \<le> refs);
       _ \<leftarrow> kassert ((root \<and> 1 \<le> refs) \<or> (\<not> root \<and> 0 \<le> refs));
       vfs_is_in_use_list E fs s vs
         (if (root \<and> 1 < refs) \<or> (\<not> root \<and> refs \<noteq> 0) then - E EBUSY else ret)
     }
   }"

definition vfs_is_in_use :: "(errno \<Rightarrow> int) \<Rightarrow> ptr \<Rightarrow> 'a vfs_st_scheme \<Rightarrow> int option" where
  "vfs_is_in_use E fs s = vfs_is_in_use_list E fs s (vnode_inuse_list s) 0"

fun vnode_inuse_list_count :: "ptr \<Rightarrow> (ptr \<Rightarrow> vnode option) \<Rightarrow> ptr list \<Rightarrow> int \<Rightarrow> int option" where
  "vnode_inuse_list_count fs V [] n = Some n"
| "vnode_inuse_list_count fs V (v # vs) n = do {
     vn \<leftarrow> V v;
     vnode_inuse_list_count fs V vs (if vn_fs vn = fs then n + 1 else n)
   }"

definition vnode_inuse :: "ptr \<Rightarrow> 'a vfs_st_scheme \<Rightarrow> int option" where
  "vnode_inuse fs s = vnode_inuse_list_count fs (vnodes s) (vnode_inuse_list s) 0"

subsection \<open>Special files\<close>

definition special_file_stat ::
  "'a vfs_st_scheme fs_ext \<Rightarrow> ptr \<Rightarrow> 'a vfs_st_scheme \<Rightarrow> (int \<times> 'a vfs_st_scheme) option" where
  "special_file_stat F v s = do {
     vn \<leftarrow> vnodes s v;
     root \<leftarrow> fs_root s (vn_fs vn);
     rvn \<leftarrow> vnodes s root;
     _ \<leftarrow> kassert (has_op (vn_ops rvn) Op_stat);
     op_stat F root v s
   }"

definition special_file_read ::
  "(errno \<Rightarrow> int) \<Rightarrow> 'a vfs_st_scheme fs_ext \<Rightarrow> ptr \<Rightarrow> int \<Rightarrow> u32 \<Rightarrow> 'a vfs_st_scheme
    \<Rightarrow> ((int \<times> 8 word list) \<times> 'a vfs_st_scheme) option" where
  "special_file_read E F v off count s = do {
     vn \<leftarrow> vnodes s v;
     _ \<leftarrow> kassert (S_ISCHR (vn_mode vn) \<or> S_ISBLK (vn_mode vn));
     if S_ISBLK (vn_mode vn) then Some ((- E ENOTSUP, []), s)
     else do {
       dev \<leftarrow> vn_cdev vn;
       cd_read F dev off count s
     }
   }"

definition special_file_write ::
  "(errno \<Rightarrow> int) \<Rightarrow> 'a vfs_st_scheme fs_ext \<Rightarrow> ptr \<Rightarrow> int \<Rightarrow> 8 word list \<Rightarrow> 'a vfs_st_scheme
    \<Rightarrow> (int \<times> 'a vfs_st_scheme) option" where
  "special_file_write E F v off buf s = do {
     vn \<leftarrow> vnodes s v;
     _ \<leftarrow> kassert (S_ISCHR (vn_mode vn) \<or> S_ISBLK (vn_mode vn));
     if S_ISBLK (vn_mode vn) then Some (- E ENOTSUP, s)
     else do {
       dev \<leftarrow> vn_cdev vn;
       cd_write F dev off buf s
     }
   }"

text \<open>Calls through the operation table of a vnode.\<close>

definition vop_read ::
  "(errno \<Rightarrow> int) \<Rightarrow> 'a vfs_st_scheme fs_ext \<Rightarrow> ptr \<Rightarrow> int \<Rightarrow> u32 \<Rightarrow> 'a vfs_st_scheme
    \<Rightarrow> ((int \<times> 8 word list) \<times> 'a vfs_st_scheme) option" where
  "vop_read E F v off count s = do {
     vn \<leftarrow> vnodes s v;
     case vn_ops vn of
       Fs_vops _ \<Rightarrow> op_read F v off count s
     | Bytedev_spec_vops \<Rightarrow> special_file_read E F v off count s
     | Blockdev_spec_vops \<Rightarrow> None
   }"

definition vop_write ::
  "(errno \<Rightarrow> int) \<Rightarrow> 'a vfs_st_scheme fs_ext \<Rightarrow> ptr \<Rightarrow> int \<Rightarrow> 8 word list \<Rightarrow> 'a vfs_st_scheme
    \<Rightarrow> (int \<times> 'a vfs_st_scheme) option" where
  "vop_write E F v off buf s = do {
     vn \<leftarrow> vnodes s v;
     case vn_ops vn of
       Fs_vops _ \<Rightarrow> op_write F v off buf s
     | Bytedev_spec_vops \<Rightarrow> special_file_write E F v off buf s
     | Blockdev_spec_vops \<Rightarrow> None
   }"

definition vop_stat ::
  "'a vfs_st_scheme fs_ext \<Rightarrow> ptr \<Rightarrow> 'a vfs_st_scheme \<Rightarrow> (int \<times> 'a vfs_st_scheme) option" where
  "vop_stat F v s = do {
     vn \<leftarrow> vnodes s v;
     case vn_ops vn of
       Fs_vops _ \<Rightarrow> op_stat F v v s
     | _ \<Rightarrow> special_file_stat F v s
   }"

end
