(* ===== verification/Namev.thy ===== *)
theory Namev
  imports Vfs
begin

section \<open>Path names\<close>

text \<open>
  The model of \<^verbatim>\<open>K2/namev.c\<close>. A path name is the list of its characters without the final zero; the
  index \<^verbatim>\<open>i\<close> of the source is the suffix that starts there. The out arguments of \<^verbatim>\<open>dir_namev\<close> are an
  option: the directory, the suffix \<^verbatim>\<open>*name\<close> and \<^verbatim>\<open>*namelen\<close>, when the function stores them. The out
  argument of a \<^verbatim>\<open>lookup\<close> or \<^verbatim>\<open>create\<close> operation is \<open>None\<close> when the operation leaves it as it was.
\<close>

subsection \<open>The functions of the source\<close>

definition lookup ::
  "(errno \<Rightarrow> int) \<Rightarrow> 'a vfs_st_scheme fs_ext \<Rightarrow> ptr \<Rightarrow> string \<Rightarrow> nat \<Rightarrow> 'a vfs_st_scheme
    \<Rightarrow> ((int \<times> ptr option) \<times> 'a vfs_st_scheme) option" where
  "lookup E F dir name len s = do {
     vn \<leftarrow> vnodes s dir;
     if \<not> has_op (vn_ops vn) Op_lookup then Some ((- E ENOTDIR, None), s)
     else op_lookup F dir (take len name) s
   }"

definition is_slash :: "char \<Rightarrow> bool" where
  "is_slash c \<longleftrightarrow> c = CHR ''/''"

text \<open>The part of \<^verbatim>\<open>dir_namev\<close> after its loop; \<open>slash\<close> tells whether \<^verbatim>\<open>pathname[i-1]\<close> is a slash.\<close>

definition dir_namev_end ::
  "(errno \<Rightarrow> int) \<Rightarrow> 'a vfs_st_scheme fs_ext \<Rightarrow> ptr \<Rightarrow> ptr \<Rightarrow> int \<Rightarrow> bool \<Rightarrow> string \<Rightarrow> string \<Rightarrow> nat \<Rightarrow> 'a vfs_st_scheme
    \<Rightarrow> ((int \<times> (ptr \<times> string \<times> nat) option) \<times> 'a vfs_st_scheme) option" where
  "dir_namev_end E F prev_vnode base_vnode returncode slash rest name nameLength s = do {
     not_dir \<leftarrow> (if slash then do { vn \<leftarrow> vnodes s base_vnode; Some (\<not> S_ISDIR (vn_mode vn)) }
                else Some False);
     if not_dir then do {
       s \<leftarrow> vput F prev_vnode s;
       s \<leftarrow> vput F base_vnode s;
       Some ((- E ENOTDIR, None), s)
     } else if rest \<noteq> [] then do {
       s \<leftarrow> vput F prev_vnode s;
       Some ((- E ENOENT, None), s)
     } else do {
       s \<leftarrow> (if returncode = 0 then vput F base_vnode s else Some s);
       Some ((0, Some (prev_vnode, name, nameLength)), s)
     }
   }"

function dir_namev_loop ::
  "(errno \<Rightarrow> int) \<Rightarrow> vconf \<Rightarrow> 'a vfs_st_scheme fs_ext \<Rightarrow> ptr option \<Rightarrow> ptr \<Rightarrow> string \<Rightarrow> 'a vfs_st_scheme
    \<Rightarrow> ((int \<times> (ptr \<times> string \<times> nat) option) \<times> 'a vfs_st_scheme) option" where
  "dir_namev_loop E V F prev_vnode base_vnode path s =
     (if path = [] \<and> prev_vnode = None then Some ((0, Some (base_vnode, ''.'', 1)), s)
      else do {
        s \<leftarrow> (case prev_vnode of Some v \<Rightarrow> vput F v s | None \<Rightarrow> Some s);
        let prev_vnode = base_vnode;
        let nameLength = length (takeWhile (\<lambda>c. \<not> is_slash c) path);
        let rest = dropWhile (\<lambda>c. \<not> is_slash c) path;
        if NAME_LEN V < nameLength then do {
          s \<leftarrow> vput F prev_vnode s;
          Some ((- E ENAMETOOLONG, None), s)
        } else do {
          ((returncode, res), s) \<leftarrow> lookup E F prev_vnode path nameLength s;
          let base_vnode = (case res of Some v \<Rightarrow> v | None \<Rightarrow> base_vnode);
          if returncode = - E ENOTDIR \<or> (returncode < 0 \<and> returncode \<noteq> - E ENOENT) then do {
            s \<leftarrow> vput F prev_vnode s;
            Some ((returncode, None), s)
          } else do {
            let slash = (rest \<noteq> dropWhile is_slash rest);
            let rest = dropWhile is_slash rest;
            if rest \<noteq> [] \<and> 0 \<le> returncode then dir_namev_loop E V F (Some prev_vnode) base_vnode rest s
            else dir_namev_end E F prev_vnode base_vnode returncode slash rest path nameLength s
          }
        }
      })"
  by pat_completeness auto

lemma length_dropWhile_hd: "xs \<noteq> [] \<Longrightarrow> P (hd xs) \<Longrightarrow> length (dropWhile P xs) < length xs"
  by (cases xs) (simp_all add: le_imp_less_Suc length_dropWhile_le)

lemma dropWhile_dropWhile_less:
  assumes "dropWhile is_slash (dropWhile (\<lambda>c. \<not> is_slash c) path) \<noteq> []"
  shows "length (dropWhile is_slash (dropWhile (\<lambda>c. \<not> is_slash c) path)) < length path"
proof -
  let ?r = "dropWhile (\<lambda>c. \<not> is_slash c) path"
  from assms have "?r \<noteq> []" by (metis dropWhile.simps(1))
  with hd_dropWhile [OF this] have "length (dropWhile is_slash ?r) < length ?r"
    by (intro length_dropWhile_hd) simp_all
  also have "\<dots> \<le> length path" by (rule length_dropWhile_le)
  finally show ?thesis .
qed

termination dir_namev_loop
  by (relation "measure (\<lambda>(E, V, F, prev, base, path, s). length path)")
    (simp_all add: dropWhile_dropWhile_less)

declare dir_namev_loop.simps [simp del]

definition dir_namev ::
  "(errno \<Rightarrow> int) \<Rightarrow> vconf \<Rightarrow> 'a vfs_st_scheme fs_ext \<Rightarrow> string \<Rightarrow> ptr option \<Rightarrow> 'a vfs_st_scheme
    \<Rightarrow> ((int \<times> (ptr \<times> string \<times> nat) option) \<times> 'a vfs_st_scheme) option" where
  "dir_namev E V F pathname base s =
     (if pathname = [] then Some ((- E EINVAL, None), s)
      else do {
        base_vnode \<leftarrow> (if is_slash (hd pathname) then vfs_root_vn s
                      else case base of
                        Some b \<Rightarrow> Some b
                      | None \<Rightarrow> do { p \<leftarrow> curproc s; pr \<leftarrow> procs s p; p_cwd pr });
        s \<leftarrow> vref base_vnode s;
        dir_namev_loop E V F None base_vnode (dropWhile is_slash pathname) s
      })"

definition open_namev ::
  "(errno \<Rightarrow> int) \<Rightarrow> vconf \<Rightarrow> 'a vfs_st_scheme fs_ext \<Rightarrow> string \<Rightarrow> u32 \<Rightarrow> ptr option \<Rightarrow> 'a vfs_st_scheme
    \<Rightarrow> ((int \<times> ptr option) \<times> 'a vfs_st_scheme) option" where
  "open_namev E V F pathname flag base s = do {
     ((dirReturnCode, out), s) \<leftarrow> dir_namev E V F pathname base s;
     if dirReturnCode < 0 then Some ((dirReturnCode, None), s)
     else do {
       (res_dir_vnode, name, namelen) \<leftarrow> out;
       ((lookupReturnCode, res_vnode), s) \<leftarrow> lookup E F res_dir_vnode name namelen s;
       if lookupReturnCode < 0 then do {
         dvn \<leftarrow> vnodes s res_dir_vnode;
         _ \<leftarrow> kassert (flag AND O_CREAT V \<noteq> 0 \<longrightarrow> has_op (vn_ops dvn) Op_create);
         if flag AND O_CREAT V \<noteq> 0 \<and> lookupReturnCode = - E ENOENT then do {
           ((createReturnCode, created), s) \<leftarrow> op_create F res_dir_vnode (take namelen name) s;
           s \<leftarrow> vput F res_dir_vnode s;
           Some ((createReturnCode, if created = None then res_vnode else created), s)
         } else do {
           s \<leftarrow> vput F res_dir_vnode s;
           Some ((lookupReturnCode, res_vnode), s)
         }
       } else do {
         is_dir \<leftarrow> (if flag AND O_WRONLY V \<noteq> 0 \<or> flag AND O_RDWR V \<noteq> 0 then do {
                      v \<leftarrow> res_vnode; vn \<leftarrow> vnodes s v; Some (has_op (vn_ops vn) Op_mkdir)
                    } else Some False);
         if is_dir then do {
           v \<leftarrow> res_vnode;
           s \<leftarrow> vput F v s;
           s \<leftarrow> vput F res_dir_vnode s;
           Some ((- E EISDIR, None), s)
         } else do {
           s \<leftarrow> vput F res_dir_vnode s;
           Some ((0, res_vnode), s)
         }
       }
     }
   }"

end
