(* ===== verification/Vfs_Syscall.thy ===== *)
theory Vfs_Syscall
  imports Namev
begin

section \<open>System calls on files\<close>

text \<open>
  The model of \<^verbatim>\<open>K2/open.c\<close> and \<^verbatim>\<open>K2/vfs_syscall.c\<close>. File descriptors are entries of the current process's
  table \<open>p_files\<close>; an access outside the table is \<open>None\<close>, and so is a signed addition that overflows
  (\<open>cint\<close>).
\<close>

subsection \<open>File descriptors\<close>

definition cint :: "int \<Rightarrow> int option" where
  "cint x = (if - (2 ^ 31) \<le> x \<and> x < 2 ^ 31 then Some x else None)"

definition cur_files :: "'a vfs_st_scheme \<Rightarrow> ptr option list option" where
  "cur_files s = do { p \<leftarrow> curproc s; pr \<leftarrow> procs s p; Some (p_files pr) }"

definition fd_get :: "int \<Rightarrow> 'a vfs_st_scheme \<Rightarrow> ptr option option" where
  "fd_get fd s = do {
     fs \<leftarrow> cur_files s;
     if 0 \<le> fd \<and> nat fd < length fs then Some (fs ! nat fd) else None
   }"

definition fd_set :: "int \<Rightarrow> ptr option \<Rightarrow> 'a vfs_st_scheme \<Rightarrow> 'a vfs_st_scheme option" where
  "fd_set fd f s = do {
     p \<leftarrow> curproc s;
     pr \<leftarrow> procs s p;
     if 0 \<le> fd \<and> nat fd < length (p_files pr)
     then Some (s\<lparr>procs := (procs s)(p \<mapsto> pr\<lparr>p_files := (p_files pr)[nat fd := f]\<rparr>)\<rparr>) else None
   }"

definition fd_valid :: "vconf \<Rightarrow> int \<Rightarrow> bool" where
  "fd_valid V fd \<longleftrightarrow> 0 \<le> fd \<and> fd < int (NFILES V)"

fun empty_fd_from :: "(errno \<Rightarrow> int) \<Rightarrow> ptr option list \<Rightarrow> nat \<Rightarrow> nat \<Rightarrow> int option" where
  "empty_fd_from E fs fd 0 = Some (- E EMFILE)"
| "empty_fd_from E fs fd (Suc n) =
     (if \<not> fd < length fs then None
      else if fs ! fd = None then Some (int fd) else empty_fd_from E fs (fd + 1) n)"

definition get_empty_fd :: "(errno \<Rightarrow> int) \<Rightarrow> vconf \<Rightarrow> ptr \<Rightarrow> 'a vfs_st_scheme \<Rightarrow> int option" where
  "get_empty_fd E V p s = do {
     pr \<leftarrow> procs s p;
     empty_fd_from E (p_files pr) 0 (NFILES V)
   }"

definition do_close ::
  "(errno \<Rightarrow> int) \<Rightarrow> vconf \<Rightarrow> 'a vfs_st_scheme fs_ext \<Rightarrow> int \<Rightarrow> 'a vfs_st_scheme \<Rightarrow> (int \<times> 'a vfs_st_scheme) option" where
  "do_close E V F fd s =
     (if \<not> fd_valid V fd then Some (- E EBADF, s)
      else do {
        f \<leftarrow> fd_get fd s;
        case f of
          Some x \<Rightarrow> do {
            s \<leftarrow> fput F x s;
            s \<leftarrow> fd_set fd None s;
            Some (0, s)
          }
        | None \<Rightarrow> Some (- E EBADF, s)
      })"

definition do_dup ::
  "(errno \<Rightarrow> int) \<Rightarrow> vconf \<Rightarrow> 'a vfs_st_scheme fs_ext \<Rightarrow> int \<Rightarrow> 'a vfs_st_scheme \<Rightarrow> (int \<times> 'a vfs_st_scheme) option" where
  "do_dup E V F fd s =
     (if \<not> fd_valid V fd then Some (- E EBADF, s)
      else do {
        f \<leftarrow> fd_get fd s;
        if f = None then Some (- E EBADF, s)
        else do {
          (fl, s) \<leftarrow> fget F fd s;
          p \<leftarrow> curproc s;
          nextFD \<leftarrow> get_empty_fd E V p s;
          if nextFD < 0 then do {
            x \<leftarrow> fl;
            s \<leftarrow> fput F x s;
            Some (nextFD, s)
          } else do {
            f \<leftarrow> fd_get fd s;
            s \<leftarrow> fd_set nextFD f s;
            Some (nextFD, s)
          }
        }
      })"

text \<open>
  In \<^verbatim>\<open>do_dup2\<close> the result of \<^verbatim>\<open>do_close\<close> goes to a variable of the inner block, so that the outer
  \<^verbatim>\<open>closeResult\<close> stays zero.
\<close>

definition do_dup2 ::
  "(errno \<Rightarrow> int) \<Rightarrow> vconf \<Rightarrow> 'a vfs_st_scheme fs_ext \<Rightarrow> int \<Rightarrow> int \<Rightarrow> 'a vfs_st_scheme
    \<Rightarrow> (int \<times> 'a vfs_st_scheme) option" where
  "do_dup2 E V F ofd nfd s =
     (if \<not> (fd_valid V ofd \<and> fd_valid V nfd) then Some (- E EBADF, s)
      else do {
        f \<leftarrow> fd_get ofd s;
        if f = None then Some (- E EBADF, s)
        else if ofd \<noteq> nfd then do {
          g \<leftarrow> fd_get nfd s;
          s \<leftarrow> (if g \<noteq> None then do { (_, s) \<leftarrow> do_close E V F nfd s; Some s } else Some s);
          (fl, s) \<leftarrow> fget F ofd s;
          s \<leftarrow> fd_set nfd fl s;
          Some (nfd, s)
        } else Some (ofd, s)
      })"

subsection \<open>Position, reading and writing\<close>

definition do_lseek ::
  "(errno \<Rightarrow> int) \<Rightarrow> vconf \<Rightarrow> 'a vfs_st_scheme fs_ext \<Rightarrow> int \<Rightarrow> int \<Rightarrow> int \<Rightarrow> 'a vfs_st_scheme
    \<Rightarrow> (int \<times> 'a vfs_st_scheme) option" where
  "do_lseek E V F fd offset whence s =
     (if \<not> fd_valid V fd then Some (- E EBADF, s)
      else do {
        (fo, s) \<leftarrow> fget F fd s;
        case fo of
          None \<Rightarrow> Some (- E EBADF, s)
        | Some x \<Rightarrow>
            if whence = SEEK_SET V \<or> whence = SEEK_CUR V \<or> whence = SEEK_END V then do {
              fl \<leftarrow> files s x;
              newPos \<leftarrow> (if whence = SEEK_SET V then Some offset
                        else if whence = SEEK_CUR V then cint (f_pos fl + offset)
                        else do { v \<leftarrow> f_vnode fl; vn \<leftarrow> vnodes s v; cint (vn_len vn + offset) });
              if newPos < 0 then do {
                s \<leftarrow> fput F x s;
                Some (- E EINVAL, s)
              } else do {
                s \<leftarrow> f_upd x (\<lambda>fl. fl\<lparr>f_pos := newPos\<rparr>) s;
                s \<leftarrow> fput F x s;
                Some (newPos, s)
              }
            } else do {
              s \<leftarrow> fput F x s;
              Some (- E EINVAL, s)
            }
      })"

text \<open>
  \<^verbatim>\<open>do_read\<close> keeps the result of the \<^verbatim>\<open>read\<close> operation in an \<^verbatim>\<open>unsigned int\<close>, and passes it on as the
  \<^verbatim>\<open>int\<close> offset and as its own \<^verbatim>\<open>int\<close> result.
\<close>

definition do_read ::
  "(errno \<Rightarrow> int) \<Rightarrow> vconf \<Rightarrow> 'a vfs_st_scheme fs_ext \<Rightarrow> int \<Rightarrow> u32 \<Rightarrow> 'a vfs_st_scheme
    \<Rightarrow> ((int \<times> 8 word list) \<times> 'a vfs_st_scheme) option" where
  "do_read E V F fd nbytes s =
     (if \<not> fd_valid V fd then Some ((- E EBADF, []), s)
      else do {
        (fo, s) \<leftarrow> fget F fd s;
        case fo of
          None \<Rightarrow> Some ((- E EBADF, []), s)
        | Some x \<Rightarrow> do {
            fl \<leftarrow> files s x;
            if f_mode fl AND FMODE_READ V \<noteq> 0 then do {
              v \<leftarrow> f_vnode fl;
              vn \<leftarrow> vnodes s v;
              if \<not> S_ISDIR (vn_mode vn) \<and> has_op (vn_ops vn) Op_read then do {
                ((n, buf), s) \<leftarrow> vop_read E F v (f_pos fl) nbytes s;
                let bytesRead = (word_of_int n :: u32);
                (seekResult, s) \<leftarrow>
                  (if bytesRead > 0 then do_lseek E V F fd (sint bytesRead) (SEEK_CUR V) s
                   else if nbytes \<noteq> 0 then do_lseek E V F fd 0 (SEEK_END V) s
                   else Some (0, s));
                s \<leftarrow> fput F x s;
                if seekResult < 0 then Some ((seekResult, buf), s) else Some ((sint bytesRead, buf), s)
              } else do {
                s \<leftarrow> fput F x s;
                Some ((- E EISDIR, []), s)
              }
            } else do {
              s \<leftarrow> fput F x s;
              Some ((- E EBADF, []), s)
            }
          }
      })"

definition do_write ::
  "(errno \<Rightarrow> int) \<Rightarrow> vconf \<Rightarrow> 'a vfs_st_scheme fs_ext \<Rightarrow> int \<Rightarrow> 8 word list \<Rightarrow> 'a vfs_st_scheme
    \<Rightarrow> (int \<times> 'a vfs_st_scheme) option" where
  "do_write E V F fd buf s =
     (if \<not> fd_valid V fd then Some (- E EBADF, s)
      else do {
        (fo, s) \<leftarrow> fget F fd s;
        case fo of
          None \<Rightarrow> Some (- E EBADF, s)
        | Some x \<Rightarrow> do {
            fl \<leftarrow> files s x;
            if f_mode fl AND FMODE_WRITE V \<noteq> 0 then do {
              v \<leftarrow> f_vnode fl;
              vn \<leftarrow> vnodes s v;
              if \<not> S_ISDIR (vn_mode vn) \<and> has_op (vn_ops vn) Op_write then do {
                (seekResult, s) \<leftarrow> (if f_mode fl AND FMODE_APPEND V \<noteq> 0 then do_lseek E V F fd 0 (SEEK_END V) s
                                    else Some (0, s));
                fl \<leftarrow> files s x;
                (bytesWritten, s) \<leftarrow> vop_write E F v (f_pos fl) buf s;
                (seekResult, s) \<leftarrow>
                  (if bytesWritten > 0 then do {
                     fl \<leftarrow> files s x;
                     vn \<leftarrow> vnodes s v;
                     _ \<leftarrow> kassert (S_ISCHR (vn_mode vn) \<or> S_ISBLK (vn_mode vn)
                                    \<or> (S_ISREG (vn_mode vn) \<and> f_pos fl \<le> vn_len vn));
                     do_lseek E V F fd bytesWritten (SEEK_CUR V) s
                   } else Some (seekResult, s));
                s \<leftarrow> fput F x s;
                if seekResult < 0 then Some (seekResult, s) else Some (bytesWritten, s)
              } else do {
                s \<leftarrow> fput F x s;
                Some (- E EISDIR, s)
              }
            } else do {
              s \<leftarrow> fput F x s;
              Some (- E EBADF, s)
            }
          }
      })"

definition do_getdent ::
  "(errno \<Rightarrow> int) \<Rightarrow> vconf \<Rightarrow> 'a vfs_st_scheme fs_ext \<Rightarrow> int \<Rightarrow> 'a vfs_st_scheme \<Rightarrow> (int \<times> 'a vfs_st_scheme) option" where
  "do_getdent E V F fd s =
     (if \<not> fd_valid V fd then Some (- E EBADF, s)
      else do {
        (fo, s) \<leftarrow> fget F fd s;
        case fo of
          None \<Rightarrow> Some (- E EBADF, s)
        | Some x \<Rightarrow> do {
            fl \<leftarrow> files s x;
            v \<leftarrow> f_vnode fl;
            vn \<leftarrow> vnodes s v;
            if has_op (vn_ops vn) Op_readdir then do {
              (bytesCopied, s) \<leftarrow> op_readdir F v (f_pos fl) s;
              if bytesCopied \<le> 0 then do {
                s \<leftarrow> fput F x s;
                Some (bytesCopied, s)
              } else do {
                (seekResult, s) \<leftarrow> do_lseek E V F fd bytesCopied (SEEK_CUR V) s;
                s \<leftarrow> fput F x s;
                if seekResult < 0 then Some (seekResult, s) else Some (DIRENT_SIZE V, s)
              }
            } else do {
              s \<leftarrow> fput F x s;
              Some (- E ENOTDIR, s)
            }
          }
      })"

subsection \<open>Opening a file\<close>

definition do_open ::
  "(errno \<Rightarrow> int) \<Rightarrow> vconf \<Rightarrow> 'a vfs_st_scheme fs_ext \<Rightarrow> string \<Rightarrow> u32 \<Rightarrow> 'a vfs_st_scheme
    \<Rightarrow> (int \<times> 'a vfs_st_scheme) option" where
  "do_open E V F filename oflags s = do {
     let readAndWrite = (oflags AND O_RDWR V \<noteq> 0 \<and> \<not> oflags AND O_WRONLY V \<noteq> 0 \<and> \<not> oflags AND O_RDONLY V \<noteq> 0);
     let writeOnly = (oflags AND O_WRONLY V \<noteq> 0 \<and> \<not> oflags AND O_RDWR V \<noteq> 0);
     let readOnly = ((oflags = O_RDONLY V \<or> oflags = (O_RDONLY V OR O_CREAT V)) \<and> \<not> oflags AND O_RDWR V \<noteq> 0);
     let append = (oflags AND O_APPEND V \<noteq> 0);
     if (readOnly \<and> writeOnly) \<or> (readAndWrite \<and> (readOnly \<or> writeOnly)) then Some (- E EINVAL, s)
     else do {
       p \<leftarrow> curproc s;
       fd \<leftarrow> get_empty_fd E V p s;
       if fd = - E EMFILE then Some (- E EMFILE, s)
       else do {
         (fo, s) \<leftarrow> fget F (- 1) s;
         case fo of
           None \<Rightarrow> Some (- E ENOMEM, s)
         | Some x \<Rightarrow> do {
             s \<leftarrow> fd_set fd (Some x) s;
             let mode = (if append then FMODE_APPEND V else 0);
             if \<not> (writeOnly \<or> readAndWrite \<or> readOnly) then do {
               s \<leftarrow> f_upd x (\<lambda>fl. fl\<lparr>f_mode := mode\<rparr>) s;
               s \<leftarrow> fput F x s;
               s \<leftarrow> fd_set fd None s;
               Some (- E EINVAL, s)
             } else do {
               let mode = (if writeOnly then mode OR FMODE_WRITE V
                           else if readAndWrite then mode OR FMODE_READ V OR FMODE_WRITE V
                           else mode OR FMODE_READ V);
               s \<leftarrow> f_upd x (\<lambda>fl. fl\<lparr>f_mode := mode\<rparr>) s;
               ((open_result, res_vnode), s) \<leftarrow> open_namev E V F filename oflags None s;
               if open_result < 0 then do {
                 s \<leftarrow> fd_set fd None s;
                 s \<leftarrow> fput F x s;
                 Some (open_result, s)
               } else do {
                 s \<leftarrow> f_upd x (\<lambda>fl. fl\<lparr>f_pos := 0, f_refcount := 1, f_vnode := res_vnode\<rparr>) s;
                 Some (fd, s)
               }
             }
           }
       }
     }
   }"

subsection \<open>Operations on path names\<close>

definition do_mknod ::
  "(errno \<Rightarrow> int) \<Rightarrow> vconf \<Rightarrow> 'a vfs_st_scheme fs_ext \<Rightarrow> string \<Rightarrow> mode_t \<Rightarrow> u32 \<Rightarrow> 'a vfs_st_scheme
    \<Rightarrow> (int \<times> 'a vfs_st_scheme) option" where
  "do_mknod E V F path mode devid s =
     (if S_ISCHR mode \<or> S_ISBLK mode then do {
        ((dirResult, out), s) \<leftarrow> dir_namev E V F path None s;
        if dirResult = 0 then do {
          (dirVnode, pathName, nameLength) \<leftarrow> out;
          ((lookupResult, result), s) \<leftarrow> lookup E F dirVnode pathName nameLength s;
          if lookupResult = 0 then do {
            r \<leftarrow> result;
            s \<leftarrow> vput F r s;
            s \<leftarrow> vput F dirVnode s;
            Some (- E EEXIST, s)
          } else if lookupResult = - E ENOTDIR then do {
            s \<leftarrow> vput F dirVnode s;
            Some (lookupResult, s)
          } else do {
            dvn \<leftarrow> vnodes s dirVnode;
            _ \<leftarrow> kassert (has_op (vn_ops dvn) Op_mknod);
            (mknodResult, s) \<leftarrow> op_mknod F dirVnode (take nameLength pathName) mode devid s;
            s \<leftarrow> vput F dirVnode s;
            Some (mknodResult, s)
          }
        } else Some (dirResult, s)
      } else Some (- E EINVAL, s))"

definition do_mkdir ::
  "(errno \<Rightarrow> int) \<Rightarrow> vconf \<Rightarrow> 'a vfs_st_scheme fs_ext \<Rightarrow> string \<Rightarrow> 'a vfs_st_scheme
    \<Rightarrow> (int \<times> 'a vfs_st_scheme) option" where
  "do_mkdir E V F path s = do {
     ((dirResult, out), s) \<leftarrow> dir_namev E V F path None s;
     if dirResult < 0 then Some (dirResult, s)
     else do {
       (dirVnode, pathName, nameLength) \<leftarrow> out;
       ((lookupResult, resVnode), s) \<leftarrow> lookup E F dirVnode pathName nameLength s;
       if lookupResult = 0 then do {
         r \<leftarrow> resVnode;
         s \<leftarrow> vput F r s;
         s \<leftarrow> vput F dirVnode s;
         Some (- E EEXIST, s)
       } else if lookupResult = - E ENOTDIR then do {
         s \<leftarrow> vput F dirVnode s;
         Some (lookupResult, s)
       } else do {
         dvn \<leftarrow> vnodes s dirVnode;
         _ \<leftarrow> kassert (has_op (vn_ops dvn) Op_mkdir);
         (mkdirResult, s) \<leftarrow> op_mkdir F dirVnode (take nameLength pathName) s;
         s \<leftarrow> vput F dirVnode s;
         Some (mkdirResult, s)
       }
     }
   }"

definition do_rmdir ::
  "(errno \<Rightarrow> int) \<Rightarrow> vconf \<Rightarrow> 'a vfs_st_scheme fs_ext \<Rightarrow> string \<Rightarrow> 'a vfs_st_scheme
    \<Rightarrow> (int \<times> 'a vfs_st_scheme) option" where
  "do_rmdir E V F path s = do {
     ((dirResult, out), s) \<leftarrow> dir_namev E V F path None s;
     if dirResult < 0 then Some (dirResult, s)
     else do {
       (dirVnode, pathName, nameLength) \<leftarrow> out;
       dvn \<leftarrow> vnodes s dirVnode;
       if \<not> has_op (vn_ops dvn) Op_rmdir then do {
         s \<leftarrow> vput F dirVnode s;
         Some (- E ENOTDIR, s)
       } else if name_match F pathName ''.'' nameLength then do {
         s \<leftarrow> vput F dirVnode s;
         Some (- E EINVAL, s)
       } else if name_match F pathName ''..'' nameLength then do {
         s \<leftarrow> vput F dirVnode s;
         Some (- E ENOTEMPTY, s)
       } else do {
         ((lookupResult, resVnode), s) \<leftarrow> lookup E F dirVnode pathName nameLength s;
         if lookupResult \<noteq> 0 then do {
           s \<leftarrow> vput F dirVnode s;
           Some (lookupResult, s)
         } else do {
           r \<leftarrow> resVnode;
           rvn \<leftarrow> vnodes s r;
           if has_op (vn_ops rvn) Op_rmdir then do {
             dvn \<leftarrow> vnodes s dirVnode;
             _ \<leftarrow> kassert (has_op (vn_ops dvn) Op_rmdir);
             (rmdirResult, s) \<leftarrow> op_rmdir F dirVnode (take nameLength pathName) s;
             s \<leftarrow> vput F r s;
             s \<leftarrow> vput F dirVnode s;
             Some (rmdirResult, s)
           } else do {
             s \<leftarrow> vput F r s;
             s \<leftarrow> vput F dirVnode s;
             Some (- E ENOTDIR, s)
           }
         }
       }
     }
   }"

definition do_unlink ::
  "(errno \<Rightarrow> int) \<Rightarrow> vconf \<Rightarrow> 'a vfs_st_scheme fs_ext \<Rightarrow> string \<Rightarrow> 'a vfs_st_scheme
    \<Rightarrow> (int \<times> 'a vfs_st_scheme) option" where
  "do_unlink E V F path s = do {
     ((dirResult, out), s) \<leftarrow> dir_namev E V F path None s;
     if dirResult < 0 then Some (dirResult, s)
     else do {
       (dirVnode, pathName, nameLength) \<leftarrow> out;
       dvn \<leftarrow> vnodes s dirVnode;
       if \<not> has_op (vn_ops dvn) Op_unlink then do {
         s \<leftarrow> vput F dirVnode s;
         Some (- E ENOTDIR, s)
       } else do {
         ((lookupResult, resVnode), s) \<leftarrow> lookup E F dirVnode pathName nameLength s;
         if lookupResult \<noteq> 0 then do {
           s \<leftarrow> vput F dirVnode s;
           Some (lookupResult, s)
         } else do {
           r \<leftarrow> resVnode;
           rvn \<leftarrow> vnodes s r;
           if has_op (vn_ops rvn) Op_rmdir then do {
             s \<leftarrow> vput F r s;
             s \<leftarrow> vput F dirVnode s;
             Some (- E EPERM, s)
           } else do {
             dvn \<leftarrow> vnodes s dirVnode;
             _ \<leftarrow> kassert (has_op (vn_ops dvn) Op_unlink);
             (unlinkResult, s) \<leftarrow> op_unlink F dirVnode (take nameLength pathName) s;
             s \<leftarrow> vput F r s;
             s \<leftarrow> vput F dirVnode s;
             Some (unlinkResult, s)
           }
         }
       }
     }
   }"

definition do_link ::
  "(errno \<Rightarrow> int) \<Rightarrow> vconf \<Rightarrow> 'a vfs_st_scheme fs_ext \<Rightarrow> string \<Rightarrow> string \<Rightarrow> 'a vfs_st_scheme
    \<Rightarrow> (int \<times> 'a vfs_st_scheme) option" where
  "do_link E V F from to s =
     (if MAXPATHLEN V < length from \<or> MAXPATHLEN V < length to then Some (- E ENAMETOOLONG, s)
      else do {
        ((openResult, fromVnode), s) \<leftarrow> open_namev E V F from (O_RDONLY V) None s;
        if openResult < 0 then Some (openResult, s)
        else do {
          ((dirResult, out), s) \<leftarrow> dir_namev E V F to None s;
          if dirResult < 0 then do {
            fromV \<leftarrow> fromVnode;
            s \<leftarrow> vput F fromV s;
            Some (dirResult, s)
          } else do {
            (toVnode, pathName, nameLength) \<leftarrow> out;
            tvn \<leftarrow> vnodes s toVnode;
            if \<not> has_op (vn_ops tvn) Op_link then Some (- E ENOTDIR, s)
            else do {
              ((lookupResult, resVnode), s) \<leftarrow> lookup E F toVnode pathName nameLength s;
              fromV \<leftarrow> fromVnode;
              if lookupResult \<noteq> 0 then do {
                (linkResult, s) \<leftarrow> op_link F fromV toVnode (take nameLength pathName) s;
                s \<leftarrow> vput F fromV s;
                s \<leftarrow> vput F toVnode s;
                Some (linkResult, s)
              } else do {
                r \<leftarrow> resVnode;
                s \<leftarrow> vput F r s;
                s \<leftarrow> vput F fromV s;
                s \<leftarrow> vput F toVnode s;
                Some (- E EEXIST, s)
              }
            }
          }
        }
      })"

definition do_rename ::
  "(errno \<Rightarrow> int) \<Rightarrow> vconf \<Rightarrow> 'a vfs_st_scheme fs_ext \<Rightarrow> string \<Rightarrow> string \<Rightarrow> 'a vfs_st_scheme
    \<Rightarrow> (int \<times> 'a vfs_st_scheme) option" where
  "do_rename E V F oldname newname s = do {
     (linkResult, s) \<leftarrow> do_link E V F oldname newname s;
     if linkResult < 0 then Some (linkResult, s) else do_unlink E V F oldname s
   }"

definition do_chdir ::
  "(errno \<Rightarrow> int) \<Rightarrow> vconf \<Rightarrow> 'a vfs_st_scheme fs_ext \<Rightarrow> string \<Rightarrow> 'a vfs_st_scheme
    \<Rightarrow> (int \<times> 'a vfs_st_scheme) option" where
  "do_chdir E V F path s = do {
     ((openResult, newDirVnode), s) \<leftarrow> open_namev E V F path (O_RDONLY V) None s;
     if openResult < 0 then Some (openResult, s)
     else do {
       v \<leftarrow> newDirVnode;
       vn \<leftarrow> vnodes s v;
       if S_ISDIR (vn_mode vn) \<and> has_op (vn_ops vn) Op_mkdir then do {
         p \<leftarrow> curproc s;
         pr \<leftarrow> procs s p;
         cwd \<leftarrow> p_cwd pr;
         s \<leftarrow> vput F cwd s;
         s \<leftarrow> proc_upd p (\<lambda>pr. pr\<lparr>p_cwd := Some v\<rparr>) s;
         Some (0, s)
       } else do {
         s \<leftarrow> vput F v s;
         Some (- E ENOTDIR, s)
       }
     }
   }"

definition do_stat ::
  "(errno \<Rightarrow> int) \<Rightarrow> vconf \<Rightarrow> 'a vfs_st_scheme fs_ext \<Rightarrow> string \<Rightarrow> 'a vfs_st_scheme
    \<Rightarrow> (int \<times> 'a vfs_st_scheme) option" where
  "do_stat E V F path s = do {
     ((openResult, resVnode), s) \<leftarrow> open_namev E V F path (O_RDONLY V) None s;
     if openResult < 0 then Some (openResult, s)
     else do {
       v \<leftarrow> resVnode;
       vn \<leftarrow> vnodes s v;
       _ \<leftarrow> kassert (has_op (vn_ops vn) Op_stat);
       (statResult, s) \<leftarrow> vop_stat F v s;
       s \<leftarrow> vput F v s;
       Some (statResult, s)
     }
   }"

end
