(* ===== verification/Vfs_Refs.thy ===== *)
theory Vfs_Refs
  imports Vfs_Syscall
begin

section \<open>Reference counts of vnodes\<close>

text \<open>
  What the virtual file system relies on, and what it gives. The count of a vnode is the number of its
  references that are not held by its resident pages, \<open>arc\<close>. The laws \<open>fs_ok\<close> of the file system below
  are those the comments of the source state: a successful \<^verbatim>\<open>lookup\<close> or \<^verbatim>\<open>create\<close> returns with the
  count of its result incremented, every other operation gives back what it takes, and freeing the
  resident pages of a vnode drops exactly their references. The operations of the file system return,
  and leave the tables of open files and processes alone.
\<close>

definition arc :: "'a vfs_st_scheme \<Rightarrow> ptr \<Rightarrow> int" where
  "arc s v = (case vnodes s v of None \<Rightarrow> 0 | Some vn \<Rightarrow> vn_refcount vn - vn_nrespages vn)"

definition addc :: "ptr \<Rightarrow> int \<Rightarrow> (ptr \<Rightarrow> int) \<Rightarrow> ptr \<Rightarrow> int" where
  "addc v k f = f(v := f v + k)"

lemma addc_apply: "addc v k f w = f w + (if w = v then k else 0)"
  by (simp add: addc_def)

lemma addc_cancel [simp]: "addc v (- 1) (addc v 1 f) = f" "addc v 1 (addc v (- 1) f) = f"
  by (simp_all add: addc_def fun_eq_iff)

lemma addc_commute: "addc v k (addc w l f) = addc w l (addc v k f)"
  by (simp add: addc_def fun_eq_iff)

text \<open>A directory has the operations on directories, and only a directory has them.\<close>

definition table_ok :: "vnode \<Rightarrow> bool" where
  "table_ok vn \<longleftrightarrow> (\<forall>vop \<in> {Op_create, Op_mknod, Op_lookup, Op_link, Op_unlink, Op_mkdir, Op_rmdir, Op_readdir}.
      has_op (vn_ops vn) vop \<longleftrightarrow> S_ISDIR (vn_mode vn)) \<and> has_op (vn_ops vn) Op_stat"

definition vnode_ok :: "vnode \<Rightarrow> bool" where
  "vnode_ok vn \<longleftrightarrow> \<not> vn_busy vn \<and> 0 \<le> vn_nrespages vn \<and> vn_nrespages vn \<le> vn_refcount vn \<and> 0 < vn_refcount vn
     \<and> table_ok vn"

definition vfs_ok :: "'a vfs_st_scheme \<Rightarrow> bool" where
  "vfs_ok s \<longleftrightarrow> sched_inv s \<and> (\<forall>v vn. vnodes s v = Some vn \<longrightarrow> vnode_ok vn)"

definition same_tables :: "'a vfs_st_scheme \<Rightarrow> 'a vfs_st_scheme \<Rightarrow> bool" where
  "same_tables s s' \<longleftrightarrow> files s' = files s \<and> procs s' = procs s \<and> curproc s' = curproc s
     \<and> vfs_root_vn s' = vfs_root_vn s"

definition effect :: "(ptr \<Rightarrow> int) \<Rightarrow> 'a vfs_st_scheme \<Rightarrow> 'a vfs_st_scheme \<Rightarrow> bool" where
  "effect g s s' \<longleftrightarrow> vfs_ok s' \<and> arc s' = g \<and> same_tables s s'"

definition kind :: "'a vfs_st_scheme \<Rightarrow> ptr \<Rightarrow> (mode_t \<times> vnode_ops) option" where
  "kind s v = map_option (\<lambda>vn. (vn_mode vn, vn_ops vn)) (vnodes s v)"

definition is_dir :: "'a vfs_st_scheme \<Rightarrow> ptr \<Rightarrow> bool" where
  "is_dir s v \<longleftrightarrow> (\<exists>vn. vnodes s v = Some vn \<and> S_ISDIR (vn_mode vn))"

lemma is_dir_kind: "kind s' v = kind s v \<Longrightarrow> is_dir s' v = is_dir s v"
  by (cases "vnodes s v"; cases "vnodes s' v") (simp_all add: kind_def is_dir_def)

definition quiet :: "ptr \<Rightarrow> ('a vfs_st_scheme \<Rightarrow> (int \<times> 'a vfs_st_scheme) option) \<Rightarrow> bool" where
  "quiet v f \<longleftrightarrow> (\<forall>s. vfs_ok s \<longrightarrow> 0 < arc s v \<longrightarrow>
     (\<exists>r s'. f s = Some (r, s') \<and> effect (arc s) s s'))"

definition finds :: "ptr \<Rightarrow> ('a vfs_st_scheme \<Rightarrow> ((int \<times> ptr option) \<times> 'a vfs_st_scheme) option) \<Rightarrow> bool" where
  "finds d f \<longleftrightarrow> (\<forall>s. vfs_ok s \<longrightarrow> 0 < arc s d \<longrightarrow>
     (\<exists>r out s'. f s = Some ((r, out), s') \<and> kind s' d = kind s d \<and>
        (r = 0 \<and> (\<exists>v. out = Some v \<and> effect (addc v 1 (arc s)) s s')
         \<or> r < 0 \<and> out = None \<and> effect (arc s) s s')))"

definition fs_ok :: "'a vfs_st_scheme fs_ext \<Rightarrow> bool" where
  "fs_ok F \<longleftrightarrow> (\<forall>d n. finds d (op_lookup F d n)) \<and> (\<forall>d n. finds d (op_create F d n))
   \<and> (\<forall>d n m i. quiet d (op_mknod F d n m i)) \<and> (\<forall>d n. quiet d (op_mkdir F d n))
   \<and> (\<forall>d n. quiet d (op_rmdir F d n)) \<and> (\<forall>d n. quiet d (op_unlink F d n))
   \<and> (\<forall>v d n. quiet d (op_link F v d n)) \<and> (\<forall>t v. quiet v (op_stat F t v))
   \<and> (\<forall>v s. vfs_ok s \<longrightarrow> arc s v = 1 \<longrightarrow> (\<exists>s'. free_respages F v s = Some s' \<and> effect (arc s) s s'
         \<and> (\<forall>vn. vnodes s' v = Some vn \<longrightarrow> vn_nrespages vn = 0) \<and> kind s' = kind s))
   \<and> (\<forall>del v s. delete_vnode F = Some del \<longrightarrow> sched_inv s \<longrightarrow> (\<exists>s'. del v s = Some s' \<and> sched_inv s'
         \<and> same_tables s s' \<and> (\<forall>w. w \<noteq> v \<longrightarrow> vnodes s' w = vnodes s w)))"

lemma fs_ok_delete:
  assumes "fs_ok F" "delete_vnode F = Some del" "sched_inv s"
  shows "\<exists>s'. del v s = Some s' \<and> sched_inv s' \<and> same_tables s s' \<and> (\<forall>w. w \<noteq> v \<longrightarrow> vnodes s' w = vnodes s w)"
  using assms by (simp add: fs_ok_def)

lemma fs_ok_free:
  assumes "fs_ok F" "vfs_ok s" "arc s v = 1"
  obtains s' where "free_respages F v s = Some s'" "effect (arc s) s s'"
    "\<And>vn. vnodes s' v = Some vn \<Longrightarrow> vn_nrespages vn = 0" "kind s' = kind s"
proof -
  from assms(1) have "\<forall>v s. vfs_ok s \<longrightarrow> arc s v = 1 \<longrightarrow> (\<exists>s'. free_respages F v s = Some s' \<and> effect (arc s) s s'
         \<and> (\<forall>vn. vnodes s' v = Some vn \<longrightarrow> vn_nrespages vn = 0) \<and> kind s' = kind s)"
    by (simp add: fs_ok_def)
  with assms(2,3) that show thesis by blast
qed

lemma fs_ok_ops:
  assumes "fs_ok F"
  shows "finds d (op_lookup F d n)" "finds d (op_create F d n)" "quiet d (op_mknod F d n m i)"
    "quiet d (op_mkdir F d n)" "quiet d (op_rmdir F d n)" "quiet d (op_unlink F d n)"
    "quiet d (op_link F v d n)" "quiet v (op_stat F t v)"
  using assms by (simp_all add: fs_ok_def)

lemma quietE:
  assumes "quiet v f" "vfs_ok s" "0 < arc s v"
  obtains r s' where "f s = Some (r, s')" "effect (arc s) s s'"
  using assms by (auto simp: quiet_def)

lemma findsE:
  assumes "finds d f" "vfs_ok s" "0 < arc s d"
  obtains (found) v s' where "f s = Some ((0, Some v), s')" "kind s' d = kind s d" "effect (addc v 1 (arc s)) s s'"
  | (failed) r s' where "f s = Some ((r, None), s')" "r < 0" "kind s' d = kind s d" "effect (arc s) s s'"
  using assms unfolding finds_def by blast

subsection \<open>Taking and dropping a reference\<close>

lemma arc_nonneg: "vfs_ok s \<Longrightarrow> 0 \<le> arc s v"
  by (auto simp: vfs_ok_def vnode_ok_def arc_def split: option.split)

lemma arc_pos_vnode:
  assumes "0 < arc s v"
  obtains vn where "vnodes s v = Some vn"
  using assms by (cases "vnodes s v") (auto simp: arc_def)

lemma vfs_okD: "vfs_ok s \<Longrightarrow> vnodes s v = Some vn \<Longrightarrow> vnode_ok vn"
  by (simp add: vfs_ok_def)

lemma sched_inv_more [simp]:
  "sched_inv (s\<lparr>vnodes := x\<rparr>) = sched_inv s" "sched_inv (s\<lparr>vnode_inuse_list := y\<rparr>) = sched_inv s"
  "sched_inv (s\<lparr>files := z\<rparr>) = sched_inv s"
  by (simp_all add: sched_inv_def)

lemma same_tables_trans: "same_tables s s' \<Longrightarrow> same_tables s' s'' \<Longrightarrow> same_tables s s''"
  by (simp add: same_tables_def)

lemma effect_trans: "effect g s s' \<Longrightarrow> effect h s' s'' \<Longrightarrow> effect h s s''"
  by (auto simp: effect_def intro: same_tables_trans)

lemma effect_refl: "vfs_ok s \<Longrightarrow> effect (arc s) s s"
  by (simp add: effect_def same_tables_def)

lemma effectD:
  assumes "effect g s s'"
  shows "vfs_ok s'" "arc s' = g" "same_tables s s'"
  using assms by (simp_all add: effect_def)

lemma vref_effect:
  assumes "vfs_ok s" "0 < arc s v"
  obtains s' where "vref v s = Some s'" "effect (addc v 1 (arc s)) s s'" "kind s' = kind s"
proof -
  obtain vn where vn: "vnodes s v = Some vn" using arc_pos_vnode [OF assms(2)] .
  with assms(1) have ok: "vnode_ok vn" by (rule vfs_okD)
  let ?s = "s\<lparr>vnodes := (vnodes s)(v \<mapsto> vn\<lparr>vn_refcount := vn_refcount vn + 1\<rparr>)\<rparr>"
  have "vref v s = Some ?s"
    using vn ok by (simp add: vref_def vn_upd_def vnode_ok_def)
  moreover have "arc ?s = addc v 1 (arc s)"
    using vn by (simp add: fun_eq_iff arc_def addc_def)
  moreover have "vfs_ok ?s"
    using assms(1) ok by (auto simp: vfs_ok_def vnode_ok_def table_ok_def)
  moreover have "same_tables s ?s" by (simp add: same_tables_def)
  moreover have "kind ?s = kind s" using vn by (simp add: kind_def fun_eq_iff)
  ultimately show thesis
    by (intro that [of ?s]) (simp_all add: effect_def)
qed

lemma wake_all_more [simp]:
  "vnodes (wake_all q s) = vnodes s" "files (wake_all q s) = files s" "procs (wake_all q s) = procs s"
  "curproc (wake_all q s) = curproc s" "vfs_root_vn (wake_all q s) = vfs_root_vn s"
  by (simp_all add: wake_all_def Let_def)

text \<open>The vnode goes away when its last reference is dropped.\<close>

lemma vput_free_effect:
  assumes "fs_ok F" "sched_inv s" and vn: "vnodes s v = Some vn" "vn_refcount vn = 0" "vn_nrespages vn = 0"
    and others: "\<And>w x. w \<noteq> v \<Longrightarrow> vnodes s w = Some x \<Longrightarrow> vnode_ok x"
  obtains s' where "vput_free F v s = Some s'" "effect ((arc s)(v := 0)) s s'" "\<And>w. w \<noteq> v \<Longrightarrow> kind s' w = kind s w"
proof -
  let ?s = "s\<lparr>vnodes := (vnodes s)(v \<mapsto> vn\<lparr>vn_busy := True\<rparr>)\<rparr>"
  have "\<exists>s1. (case delete_vnode F of Some del \<Rightarrow> del v ?s | None \<Rightarrow> Some ?s) = Some s1 \<and> sched_inv s1
      \<and> same_tables ?s s1 \<and> (\<forall>w. w \<noteq> v \<longrightarrow> vnodes s1 w = vnodes ?s w)"
  proof (cases "delete_vnode F")
    case (Some del)
    have "sched_inv ?s" using assms(2) by simp
    from fs_ok_delete [OF assms(1) Some this, of v] Some show ?thesis by simp
  qed (simp add: assms(2) same_tables_def)
  then obtain s1 where s1: "(case delete_vnode F of Some del \<Rightarrow> del v ?s | None \<Rightarrow> Some ?s) = Some s1"
    "sched_inv s1" "same_tables ?s s1" "\<And>w. w \<noteq> v \<Longrightarrow> vnodes s1 w = vnodes s w" by auto
  have bc: "sched_broadcast_on (Vn_waitq v) s1 = Some (wake_all (Vn_waitq v) s1)" "sched_inv (wake_all (Vn_waitq v) s1)"
    using sched_broadcast_on_eq [OF s1(2), of "Vn_waitq v"] by simp_all
  let ?w = "wake_all (Vn_waitq v) s1"
  let ?r = "?w\<lparr>vnode_inuse_list := remove1 v (vnode_inuse_list ?w), vnodes := (vnodes ?w)(v := None)\<rparr>"
  have "arc ?r = (arc s)(v := 0)"
    using s1(4) by (simp add: fun_eq_iff arc_def)
  moreover have "vfs_ok ?r"
    using bc(2) s1(4) others by (simp add: vfs_ok_def)
  moreover have "same_tables s ?r"
    using s1(3) by (simp add: same_tables_def)
  moreover have "kind ?r w = kind s w" if "w \<noteq> v" for w
    using s1(4) that by (simp add: kind_def)
  ultimately show thesis
    using vn s1(1) bc(1) by (intro that [of ?r]) (simp_all add: effect_def vput_free_def vn_upd_def)
qed

lemma vput_drop:
  assumes "fs_ok F" "vfs_ok s" and vn: "vnodes s v = Some vn" "0 < arc s v"
  obtains s' where "(do {
       s \<leftarrow> vn_upd v (\<lambda>vn. vn\<lparr>vn_refcount := vn_refcount vn - 1\<rparr>) s;
       vn \<leftarrow> vnodes s v;
       if 0 < vn_refcount vn then Some s else vput_free F v s
     }) = Some s'" "effect (addc v (- 1) (arc s)) s s'" "\<And>w. 0 < arc s' w \<Longrightarrow> kind s' w = kind s w"
proof -
  let ?vn = "vn\<lparr>vn_refcount := vn_refcount vn - 1\<rparr>"
  let ?s = "s\<lparr>vnodes := (vnodes s)(v \<mapsto> ?vn)\<rparr>"
  have ok: "vnode_ok vn" using assms(2) vn(1) by (rule vfs_okD)
  have arc: "arc ?s = addc v (- 1) (arc s)" using vn by (simp add: fun_eq_iff arc_def addc_def)
  have same: "same_tables s ?s" by (simp add: same_tables_def)
  show thesis
  proof (cases "1 < vn_refcount vn")
    case True
    with ok vn have "vnode_ok ?vn" by (auto simp: vnode_ok_def table_ok_def arc_def)
    with assms(2) have "vfs_ok ?s" by (auto simp: vfs_ok_def)
    with arc same have "effect (addc v (- 1) (arc s)) s ?s" by (simp add: effect_def)
    with True vn(1) show thesis by (intro that [of ?s]) (simp_all add: vn_upd_def kind_def)
  next
    case False
    with ok vn have z: "vn_refcount vn = 1" "vn_nrespages vn = 0" by (auto simp: vnode_ok_def arc_def)
    obtain s' where s': "vput_free F v ?s = Some s'" "effect ((arc ?s)(v := 0)) ?s s'"
      "\<And>w. w \<noteq> v \<Longrightarrow> kind s' w = kind ?s w"
      by (rule vput_free_effect [OF assms(1), of ?s v ?vn])
        (use assms(2) z in \<open>auto simp: vfs_ok_def split: if_split_asm\<close>)
    have "(arc ?s)(v := 0) = addc v (- 1) (arc s)"
      using vn z by (simp add: fun_eq_iff arc_def addc_def)
    with s'(2) same have "effect (addc v (- 1) (arc s)) s s'"
      by (auto simp: effect_def intro: same_tables_trans)
    moreover have "kind s' w = kind s w" if "0 < arc s' w" for w
      using that s'(3) [of w] effectD(2) [OF s'(2)] by (cases "w = v") (simp_all add: kind_def)
    ultimately show thesis using s'(1) vn(1) False by (intro that [of s']) (simp_all add: vn_upd_def)
  qed
qed

lemma vput_effect:
  assumes "fs_ok F" "vfs_ok s" "0 < arc s v"
  obtains s' where "vput F v s = Some s'" "effect (addc v (- 1) (arc s)) s s'" "\<And>w. 0 < arc s' w \<Longrightarrow> kind s' w = kind s w"
proof -
  obtain vn where vn: "vnodes s v = Some vn" using arc_pos_vnode [OF assms(3)] .
  with assms(2) have ok: "vnode_ok vn" by (rule vfs_okD)
  from assms(3) vn have rc: "vn_nrespages vn < vn_refcount vn" by (simp add: arc_def)
  show thesis
  proof (cases "vn_nrespages vn = vn_refcount vn - 1 \<and> \<not> query_vnode F v s")
    case True
    then have a1: "arc s v = 1" using vn by (simp add: arc_def)
    from fs_ok_free [OF assms(1,2) this] obtain s1 where s1: "free_respages F v s = Some s1"
      "effect (arc s) s s1" "\<And>x. vnodes s1 v = Some x \<Longrightarrow> vn_nrespages x = 0" "kind s1 = kind s" by blast
    then have e1: "vfs_ok s1" "arc s1 = arc s" "same_tables s s1" by (simp_all add: effect_def)
    then have p1: "0 < arc s1 v" using a1 by simp
    then obtain vn1 where vn1: "vnodes s1 v = Some vn1" by (rule arc_pos_vnode)
    with s1(3) have n0: "vn_nrespages vn1 = 0" by simp
    have "arc s1 v = 1" using e1(2) a1 by simp
    with vn1 n0 have n1: "vn_nrespages vn1 = 0" "vn_refcount vn1 = 1" by (simp_all add: arc_def)
    obtain s' where s': "(do {
        s \<leftarrow> vn_upd v (\<lambda>vn. vn\<lparr>vn_refcount := vn_refcount vn - 1\<rparr>) s1;
        vn \<leftarrow> vnodes s v;
        if 0 < vn_refcount vn then Some s else vput_free F v s
      }) = Some s'" "effect (addc v (- 1) (arc s1)) s1 s'" "\<And>w. 0 < arc s' w \<Longrightarrow> kind s' w = kind s1 w"
      by (rule vput_drop [OF assms(1) e1(1) vn1 p1]) (rule that)
    have "vput F v s = Some s'"
      using True ok rc vn s1(1) vn1 n1 s'(1) by (simp add: vput_def vnode_ok_def)
    moreover have "effect (addc v (- 1) (arc s)) s s'"
      using effect_trans [OF s1(2) s'(2)] by (simp add: e1)
    ultimately show thesis by (rule that) (simp add: s' s1(4))
  next
    case False
    obtain s' where s': "(do {
        s \<leftarrow> vn_upd v (\<lambda>vn. vn\<lparr>vn_refcount := vn_refcount vn - 1\<rparr>) s;
        vn \<leftarrow> vnodes s v;
        if 0 < vn_refcount vn then Some s else vput_free F v s
      }) = Some s'" "effect (addc v (- 1) (arc s)) s s'" "\<And>w. 0 < arc s' w \<Longrightarrow> kind s' w = kind s w"
      by (rule vput_drop [OF assms(1,2) vn assms(3)]) (rule that)
    have "vput F v s = Some s'"
      using False ok rc vn s'(1) by (auto simp: vput_def vnode_ok_def)
    then show thesis using s'(2,3) by (rule that)
  qed
qed

end
