(* ===== verification/Namev_Props.thy ===== *)
theory Namev_Props
  imports Vfs_Refs
begin

section \<open>Resolving path names\<close>

text \<open>
  A path name is a list of components, the non-empty parts between slashes. \<open>dir_walk\<close> resolves such a
  list by recursion on it; the index arithmetic of \<^verbatim>\<open>dir_namev\<close> comes to the same, and neither function
  gains or loses a reference on the way.
\<close>

subsection \<open>The reference definition\<close>

fun parts :: "string \<Rightarrow> string list" where
  "parts [] = [[]]"
| "parts (c # cs) = (if is_slash c then [] # parts cs else (c # hd (parts cs)) # tl (parts cs))"

definition components :: "string \<Rightarrow> string list" where
  "components path = filter (\<lambda>c. c \<noteq> []) (parts path)"

fun dir_walk ::
  "(errno \<Rightarrow> int) \<Rightarrow> vconf \<Rightarrow> 'a vfs_st_scheme fs_ext \<Rightarrow> bool \<Rightarrow> ptr \<Rightarrow> string list \<Rightarrow> 'a vfs_st_scheme
    \<Rightarrow> ((int \<times> (ptr \<times> string) option) \<times> 'a vfs_st_scheme) option" where
  "dir_walk E V F slash dir [] s = Some ((0, Some (dir, ''.'')), s)"
| "dir_walk E V F slash dir (c # cs) s =
     (if NAME_LEN V < length c then do { s \<leftarrow> vput F dir s; Some ((- E ENAMETOOLONG, None), s) }
      else do {
        ((r, found), s) \<leftarrow> lookup E F dir c (length c) s;
        if cs \<noteq> [] then
          (case found of
             Some v \<Rightarrow> do { s \<leftarrow> vput F dir s; dir_walk E V F slash v cs s }
           | None \<Rightarrow> do { s \<leftarrow> vput F dir s; Some ((r, None), s) })
        else
          (case found of
             Some v \<Rightarrow> do {
               vn \<leftarrow> vnodes s v;
               if slash \<and> \<not> S_ISDIR (vn_mode vn)
               then do { s \<leftarrow> vput F dir s; s \<leftarrow> vput F v s; Some ((- E ENOTDIR, None), s) }
               else do { s \<leftarrow> vput F v s; Some ((0, Some (dir, c)), s) }
             }
           | None \<Rightarrow> (if r = - E ENOENT then Some ((0, Some (dir, c)), s)
                      else do { s \<leftarrow> vput F dir s; Some ((r, None), s) }))
      })"

text \<open>The name that \<^verbatim>\<open>dir_namev\<close> reports is the first \<^verbatim>\<open>namelen\<close> characters at \<^verbatim>\<open>name\<close>.\<close>

definition named ::
  "((int \<times> (ptr \<times> string \<times> nat) option) \<times> 's) option \<Rightarrow> ((int \<times> (ptr \<times> string) option) \<times> 's) option" where
  "named = map_option (\<lambda>((r, out), s). ((r, map_option (\<lambda>(d, name, n). (d, take n name)) out), s))"

definition start_dir :: "string \<Rightarrow> ptr option \<Rightarrow> 'a vfs_st_scheme \<Rightarrow> ptr option" where
  "start_dir path base s = (if is_slash (hd path) then vfs_root_vn s
     else case base of Some b \<Rightarrow> Some b | None \<Rightarrow> do { p \<leftarrow> curproc s; pr \<leftarrow> procs s p; p_cwd pr })"

subsection \<open>Components\<close>

lemma parts_ne [simp]: "parts cs \<noteq> []"
  by (cases cs) simp_all

lemma parts_append_slash: "is_slash c \<Longrightarrow> \<forall>x \<in> set xs. \<not> is_slash x \<Longrightarrow> parts (xs @ c # ys) = xs # parts ys"
  by (induction xs) simp_all

lemma parts_noslash: "\<forall>x \<in> set xs. \<not> is_slash x \<Longrightarrow> parts xs = [xs]"
  by (induction xs) simp_all

lemma components_Nil [simp]: "components [] = []"
  by (simp add: components_def)

lemma components_slash: "is_slash c \<Longrightarrow> components (c # cs) = components cs"
  by (simp add: components_def)

lemma components_dropWhile: "components (dropWhile is_slash cs) = components cs"
  by (induction cs) (simp_all add: components_slash)

lemma components_step:
  assumes "path \<noteq> []" "\<not> is_slash (hd path)"
  shows "components path = takeWhile (\<lambda>c. \<not> is_slash c) path #
    components (dropWhile is_slash (dropWhile (\<lambda>c. \<not> is_slash c) path))"
proof -
  let ?n = "takeWhile (\<lambda>c. \<not> is_slash c) path" and ?r = "dropWhile (\<lambda>c. \<not> is_slash c) path"
  have n: "\<forall>x \<in> set ?n. \<not> is_slash x" by (auto dest: set_takeWhileD)
  have ne: "?n \<noteq> []" using assms by (cases path) simp_all
  show ?thesis
  proof (cases ?r)
    case Nil
    then have "path = ?n" by (metis append_Nil2 takeWhile_dropWhile_id)
    then have "components path = [?n]" using ne n parts_noslash [of ?n] by (simp add: components_def)
    then show ?thesis unfolding Nil by simp
  next
    case (Cons c ys)
    then have c: "is_slash c" using hd_dropWhile [of "\<lambda>c. \<not> is_slash c" path] by simp
    have "path = ?n @ c # ys" using Cons by (metis takeWhile_dropWhile_id)
    then have "parts path = ?n # parts ys" using parts_append_slash [OF c n] by metis
    with ne have "components path = ?n # components ys" by (simp add: components_def)
    with Cons c show ?thesis by (simp add: components_dropWhile)
  qed
qed

lemma components_empty:
  assumes "components (dropWhile is_slash path) = []"
  shows "dropWhile is_slash path = []"
proof (rule ccontr)
  assume ne: "dropWhile is_slash path \<noteq> []"
  with hd_dropWhile [OF this] components_step [OF ne] assms show False by simp
qed

subsection \<open>Lookup\<close>

lemma lookup_cases:
  assumes "errno_ok E" "fs_ok F" "vfs_ok s" "0 < arc s d"
  obtains (found) v s' where "lookup E F d n l s = Some ((0, Some v), s')" "effect (addc v 1 (arc s)) s s'"
    "kind s' d = kind s d" "is_dir s d"
  | (failed) r s' where "lookup E F d n l s = Some ((r, None), s')" "r < 0" "effect (arc s) s s'"
    "kind s' d = kind s d" "r = - E ENOTDIR \<or> is_dir s d"
proof -
  obtain vn where vn: "vnodes s d = Some vn" using arc_pos_vnode [OF assms(4)] .
  show thesis
  proof (cases "has_op (vn_ops vn) Op_lookup")
    case True
    then have dir: "is_dir s d"
      using vfs_okD [OF assms(3) vn] vn by (simp add: vnode_ok_def table_ok_def is_dir_def)
    from fs_ok_ops(1) [OF assms(2), of d "take l n"] assms(3,4) show thesis
    proof (cases rule: findsE)
      case (found v s')
      with True vn dir show thesis by (intro that(1) [of v s']) (simp_all add: lookup_def)
    next
      case (failed r s')
      with True vn dir show thesis by (intro that(2) [of r s']) (simp_all add: lookup_def)
    qed
  next
    case False
    with vn have "lookup E F d n l s = Some ((- E ENOTDIR, None), s)" by (simp add: lookup_def)
    then show thesis
      by (rule that(2)) (simp_all add: effect_refl assms(3) errno_pos [OF assms(1)])
  qed
qed

subsection \<open>The walk neither gains nor loses references\<close>

definition walk_post :: "ptr \<Rightarrow> 'a vfs_st_scheme \<Rightarrow> ((int \<times> (ptr \<times> string) option) \<times> 'a vfs_st_scheme) option \<Rightarrow> bool" where
  "walk_post dir s res \<longleftrightarrow> (\<exists>r out s'. res = Some ((r, out), s') \<and>
     (r = 0 \<and> (\<exists>d name. out = Some (d, name) \<and> is_dir s' d \<and> effect (addc d 1 (addc dir (- 1) (arc s))) s s')
      \<or> r < 0 \<and> out = None \<and> effect (addc dir (- 1) (arc s)) s s'))"

lemma walk_post_ok: "is_dir s' d \<Longrightarrow> effect (addc d 1 (addc dir (- 1) (arc s))) s s' \<Longrightarrow> walk_post dir s (Some ((0, Some (d, name)), s'))"
  by (auto simp: walk_post_def)

lemma walk_post_err: "r < 0 \<Longrightarrow> effect (addc dir (- 1) (arc s)) s s' \<Longrightarrow> walk_post dir s (Some ((r, None), s'))"
  by (auto simp: walk_post_def)

lemma walk_post_trans:
  assumes "walk_post v s1 res" "effect (addc v 1 (addc dir (- 1) (arc s))) s s1"
  shows "walk_post dir s res"
proof -
  from assms(1) obtain r out s' where r: "res = Some ((r, out), s')" and
    c: "r = 0 \<and> (\<exists>d name. out = Some (d, name) \<and> is_dir s' d \<and> effect (addc d 1 (addc v (- 1) (arc s1))) s1 s')
      \<or> r < 0 \<and> out = None \<and> effect (addc v (- 1) (arc s1)) s1 s'"
    unfolding walk_post_def by blast
  have a: "addc v (- 1) (arc s1) = addc dir (- 1) (arc s)" using assms(2) by (simp add: effect_def)
  show ?thesis using r c effect_trans [OF assms(2)] unfolding walk_post_def a by blast
qed

lemma drop_after:
  assumes "fs_ok F" "effect g s s1" "0 < g v"
  obtains s2 where "vput F v s1 = Some s2" "effect (addc v (- 1) g) s s2"
    "\<And>w. 0 < addc v (- 1) g w \<Longrightarrow> kind s2 w = kind s1 w"
proof -
  have "vfs_ok s1" "0 < arc s1 v" using assms(2,3) by (simp_all add: effect_def)
  from vput_effect [OF assms(1) this] obtain s2 where
    s2: "vput F v s1 = Some s2" "effect (addc v (- 1) (arc s1)) s1 s2" "\<And>w. 0 < arc s2 w \<Longrightarrow> kind s2 w = kind s1 w"
    by blast
  from effect_trans [OF assms(2) s2(2)] effectD(2) [OF assms(2)] have "effect (addc v (- 1) g) s s2" by simp
  with s2(1) show thesis by (rule that) (simp add: s2(3) effectD(2) [OF s2(2)] effectD(2) [OF assms(2)])
qed

lemma dir_walk_refs:
  assumes "errno_ok E" "fs_ok F" "vfs_ok s" "0 < arc s dir" "cs \<noteq> [] \<or> is_dir s dir"
  shows "walk_post dir s (dir_walk E V F slash dir cs s)"
  using assms(3-5)
proof (induction cs arbitrary: dir s)
  case Nil
  then show ?case by (simp add: walk_post_ok effect_refl)
next
  case (Cons c cs)
  note neg = errno_pos [OF assms(1)]
  obtain t where t: "vput F dir s = Some t" "effect (addc dir (- 1) (arc s)) s t"
    by (rule vput_effect [OF assms(2) Cons.prems(1,2)])
  show ?case
  proof (cases "NAME_LEN V < length c")
    case True
    then show ?thesis using t by (simp add: walk_post_err neg)
  next
    case False
    note len = False
    from assms(1,2) Cons.prems(1,2) show ?thesis
    proof (cases rule: lookup_cases [where n = c and l = "length c"])
      case (found v s1)
      have pos: "0 < addc v 1 (arc s) dir" "0 < addc v 1 (arc s) v" "0 < addc v 1 (addc dir (- 1) (arc s)) v"
        using Cons.prems arc_nonneg [of s v] by (simp_all add: addc_apply)
      obtain s2 where s2: "vput F dir s1 = Some s2" "effect (addc dir (- 1) (addc v 1 (arc s))) s s2"
        by (rule drop_after [OF assms(2) found(2) pos(1)])
      then have s2': "effect (addc v 1 (addc dir (- 1) (arc s))) s s2" by (simp only: addc_commute)
      obtain s3 where s3: "vput F v s1 = Some s3" "effect (arc s) s s3" "kind s3 dir = kind s1 dir"
        by (rule drop_after [OF assms(2) found(2) pos(2)]) (use Cons.prems(2) in simp)
      have dir3: "is_dir s3 dir" using found(4) is_dir_kind [OF found(3)] is_dir_kind [OF s3(3)] by simp
      obtain s4 where s4: "vput F v s2 = Some s4" "effect (addc dir (- 1) (arc s)) s s4"
        by (rule drop_after [OF assms(2) s2' pos(3)]) simp
      have "0 < arc s1 v" using found(2) pos by (simp add: effect_def)
      then obtain vn where vn: "vnodes s1 v = Some vn" by (rule arc_pos_vnode)
      have "walk_post dir s (dir_walk E V F slash v cs s2)" if "cs \<noteq> []"
        by (rule walk_post_trans [OF Cons.IH s2']) (use effectD [OF s2'] pos that in simp_all)
      then show ?thesis
        using len found(1) s2(1) s3(1,2) s4 vn dir3
        by (auto intro!: walk_post_ok walk_post_err simp: neg)
    next
      case (failed r s1)
      obtain s2 where s2: "vput F dir s1 = Some s2" "effect (addc dir (- 1) (arc s)) s s2"
        by (rule drop_after [OF assms(2) failed(3) Cons.prems(2)])
      have "is_dir s1 dir" if "r \<noteq> - E ENOTDIR" using that failed(5) is_dir_kind [OF failed(4)] by simp
      moreover have "E ENOENT \<noteq> E ENOTDIR" using errno_eq_iff [OF assms(1)] by simp
      ultimately show ?thesis using len failed s2 by (auto intro!: walk_post_ok walk_post_err)
    qed
  qed
qed

subsection \<open>The loop of the source is the walk\<close>

lemma dir_namev_loop_prev:
  assumes "path \<noteq> []"
  shows "dir_namev_loop E V F (Some p) d path s = do { s \<leftarrow> vput F p s; dir_namev_loop E V F None d path s }"
  using assms
  by (cases "vput F p s") (simp_all add: dir_namev_loop.simps [of E V F "Some p" d path] dir_namev_loop.simps [of E V F None d path])

lemma slash_last:
  fixes path :: string
  defines "r \<equiv> dropWhile (\<lambda>c. \<not> is_slash c) path"
  assumes "path \<noteq> []"
  shows "dropWhile is_slash r = [] \<Longrightarrow> is_slash (last path) \<longleftrightarrow> r \<noteq> []"
    and "dropWhile is_slash r \<noteq> [] \<Longrightarrow> last (dropWhile is_slash r) = last path"
    and "dropWhile is_slash r \<noteq> [] \<Longrightarrow> r \<noteq> dropWhile is_slash r"
proof -
  have last_r: "last path = last r" if "r \<noteq> []"
    using that unfolding r_def by (metis last_append takeWhile_dropWhile_id)
  show "is_slash (last path) \<longleftrightarrow> r \<noteq> []" if e: "dropWhile is_slash r = []"
  proof (cases "r = []")
    case True
    then show ?thesis using assms(2) last_in_set [of path] unfolding r_def by (simp add: dropWhile_eq_Nil_conv)
  next
    case False
    then show ?thesis using e last_r last_in_set [of r] by (simp add: dropWhile_eq_Nil_conv)
  qed
  show "last (dropWhile is_slash r) = last path" if ne: "dropWhile is_slash r \<noteq> []"
  proof -
    have "r \<noteq> []" using ne by auto
    moreover have "last (dropWhile is_slash r) = last r"
      using ne by (metis last_append takeWhile_dropWhile_id)
    ultimately show ?thesis using last_r by simp
  qed
  show "r \<noteq> dropWhile is_slash r" if ne: "dropWhile is_slash r \<noteq> []"
  proof
    assume eq: "r = dropWhile is_slash r"
    with ne have "r \<noteq> []" by metis
    then have "is_slash (hd r)" using hd_dropWhile [of "\<lambda>c. \<not> is_slash c" path] unfolding r_def by simp
    moreover have "\<not> is_slash (hd r)" using hd_dropWhile [OF ne] eq by metis
    ultimately show False by simp
  qed
qed

lemma named_simps [simp]:
  "named None = None" "named (Some ((r, None), s)) = Some ((r, None), s)"
  "named (Some ((r, Some (d, n, l)), s)) = Some ((r, Some (d, take l n)), s)"
  by (simp_all add: named_def)

lemma named_bind [simp]: "named (Option.bind m f) = Option.bind m (\<lambda>x. named (f x))"
  by (cases m) simp_all

lemma named_if [simp]: "named (if b then x else y) = (if b then named x else named y)"
  by simp

text \<open>One round of the loop, with the name, what follows it, and what follows the slashes after it.\<close>

lemma dir_namev_loop_round:
  assumes "path \<noteq> []" "takeWhile (\<lambda>c. \<not> is_slash c) path = n" "dropWhile (\<lambda>c. \<not> is_slash c) path = r"
    "dropWhile is_slash r = r'" "\<not> NAME_LEN V < length n" "lookup E F dir n (length n) s = Some ((code, found), s1)"
  shows "dir_namev_loop E V F None dir path s =
     (let v = (case found of Some v \<Rightarrow> v | None \<Rightarrow> dir) in
      if code = - E ENOTDIR \<or> (code < 0 \<and> code \<noteq> - E ENOENT) then do { s \<leftarrow> vput F dir s1; Some ((code, None), s) }
      else if r' \<noteq> [] \<and> 0 \<le> code then do { s \<leftarrow> vput F dir s1; dir_namev_loop E V F None v r' s }
      else dir_namev_end E F dir v code (r \<noteq> r') r' path (length n) s1)"
proof -
  have n: "take (length n) path = n" using assms(2) takeWhile_eq_take by metis
  have "lookup E F dir path (length n) s = Some ((code, found), s1)"
    using assms(6) by (cases "vnodes s dir") (simp_all add: lookup_def n split: if_split_asm)
  with assms(1-5) show ?thesis
    by (simp add: dir_namev_loop.simps [of E V F None dir path s] dir_namev_loop_prev Let_def)
qed

lemma dir_namev_loop_walk:
  assumes "errno_ok E" "fs_ok F" "path \<noteq> []" "\<not> is_slash (hd path)" "vfs_ok s" "0 < arc s dir"
  shows "named (dir_namev_loop E V F None dir path s)
    = dir_walk E V F (is_slash (last path)) dir (components path) s"
  using assms(3-6)
proof (induction "length path" arbitrary: path dir s rule: less_induct)
  case less
  define n r r' where "n = takeWhile (\<lambda>c. \<not> is_slash c) path" and "r = dropWhile (\<lambda>c. \<not> is_slash c) path"
    and "r' = dropWhile is_slash r"
  note nr = n_def [symmetric] r_def [symmetric] r'_def [symmetric]
  note comps = components_step [OF less.prems(1,2), unfolded nr] and sl = slash_last [OF less.prems(1), unfolded nr]
  have ne: "components r' = [] \<longleftrightarrow> r' = []" using components_empty [of r] unfolding nr by auto
  have take: "take (length n) path = n" unfolding n_def using takeWhile_eq_take by metis
  note pos = errno_pos [OF assms(1)]
  show ?case
  proof (cases "NAME_LEN V < length n")
    case True
    then show ?thesis
      using less.prems(1) by (simp add: dir_namev_loop.simps [of E V F None dir path s] comps nr)
  next
    case False
    note round = dir_namev_loop_round [OF less.prems(1) nr this]
    from assms(1,2) less.prems(3,4) show ?thesis
    proof (cases rule: lookup_cases [where n = n and l = "length n"])
      case (found v s1)
      have a: "0 < addc v 1 (arc s) dir" "0 < addc v 1 (arc s) v" "0 < addc dir (- 1) (addc v 1 (arc s)) v"
        using less.prems arc_nonneg [of s v] by (simp_all add: addc_apply)
      have "0 < arc s1 v" using found(2) a by (simp add: effect_def)
      then obtain vn where vn: "vnodes s1 v = Some vn" by (rule arc_pos_vnode)
      obtain s2 where s2: "vput F dir s1 = Some s2" "effect (addc dir (- 1) (addc v 1 (arc s))) s s2"
        by (rule drop_after [OF assms(2) found(2) a(1)])
      show ?thesis
      proof (cases "r' = []")
        case True
        then show ?thesis
          using False found(1) vn sl(1) pos [of ENOTDIR] by (simp add: round comps take dir_namev_end_def)
      next
        case ne': False
        have "named (dir_namev_loop E V F None v r' s2) = dir_walk E V F (is_slash (last r')) v (components r') s2"
          by (rule less.hyps) (use ne' hd_dropWhile [of is_slash r] dropWhile_dropWhile_less [of path]
              effectD [OF s2(2)] a in \<open>simp_all add: nr\<close>)
        then show ?thesis
          using False ne' ne found(1) s2(1) sl(2) pos [of ENOTDIR] by (simp add: round comps)
      qed
    next
      case (failed code s1)
      show ?thesis
      proof (cases "code = - E ENOENT")
        case True
        then have "code \<noteq> - E ENOTDIR" using errno_eq_iff [OF assms(1), of ENOENT ENOTDIR] by simp
        with failed is_dir_kind [OF failed(4)] have "is_dir s1 dir" by simp
        then obtain vn1 where "vnodes s1 dir = Some vn1" "S_ISDIR (vn_mode vn1)" by (auto simp: is_dir_def)
        with True \<open>code \<noteq> - E ENOTDIR\<close> False failed(1,2) ne show ?thesis
          by (auto simp: round comps take dir_namev_end_def)
      next
        case other: False
        with False failed(1,2) show ?thesis by (simp add: round comps)
      qed
    qed
  qed
qed

subsection \<open>The functions of the source\<close>

definition start_ok :: "string \<Rightarrow> ptr option \<Rightarrow> 'a vfs_st_scheme \<Rightarrow> bool" where
  "start_ok path base s \<longleftrightarrow> (\<exists>d. start_dir path base s = Some d \<and> 0 < arc s d \<and> is_dir s d)"

lemma dir_namev_loop_named:
  assumes "errno_ok E" "fs_ok F" "path \<noteq> []" "vfs_ok s" "0 < arc s dir"
  shows "named (dir_namev_loop E V F None dir (dropWhile is_slash path) s)
    = dir_walk E V F (is_slash (last path)) dir (components path) s"
proof (cases "dropWhile is_slash path = []")
  case True
  have "components path = []" using components_dropWhile [of path] unfolding True by simp
  then show ?thesis unfolding True by (simp add: dir_namev_loop.simps)
next
  case False
  then have "last (dropWhile is_slash path) = last path" by (metis last_append takeWhile_dropWhile_id)
  then show ?thesis
    using dir_namev_loop_walk [OF assms(1,2) False hd_dropWhile [OF False] assms(4,5)]
    by (simp add: components_dropWhile)
qed

lemma dir_namev_result:
  assumes "errno_ok E" "fs_ok F" "vfs_ok s" "path = [] \<or> start_ok path base s"
  obtains (ok) d name n s' where "dir_namev E V F path base s = Some ((0, Some (d, name, n)), s')"
      "effect (addc d 1 (arc s)) s s'" "is_dir s' d"
  | (err) r s' where "dir_namev E V F path base s = Some ((r, None), s')" "r < 0" "effect (arc s) s s'"
proof (cases "path = []")
  case True
  then show thesis
    by (intro that(2) [of "- E EINVAL" s]) (simp_all add: dir_namev_def errno_pos [OF assms(1)] effect_refl assms(3))
next
  case False
  then obtain d where d: "start_dir path base s = Some d" "0 < arc s d" "is_dir s d"
    using assms(4) by (auto simp: start_ok_def)
  obtain s1 where s1: "vref d s = Some s1" "effect (addc d 1 (arc s)) s s1" "kind s1 = kind s"
    by (rule vref_effect [OF assms(3) d(2)])
  have e: "vfs_ok s1" "0 < arc s1 d" "is_dir s1 d"
    using s1(2) d(2,3) is_dir_kind [OF fun_cong [OF s1(3)]] by (simp_all add: effect_def addc_apply)
  have "walk_post d s1 (dir_walk E V F (is_slash (last path)) d (components path) s1)"
    by (rule dir_walk_refs [OF assms(1,2) e(1,2)]) (simp add: e(3))
  moreover have "named (dir_namev E V F path base s) = dir_walk E V F (is_slash (last path)) d (components path) s1"
    using dir_namev_loop_named [OF assms(1,2) False e(1,2)] False d(1) s1(1) by (simp add: dir_namev_def start_dir_def)
  ultimately have "walk_post d s1 (named (dir_namev E V F path base s))" by simp
  moreover have "addc d (- 1) (arc s1) = arc s" using s1(2) by (simp add: effect_def)
  ultimately obtain r out s' where n: "named (dir_namev E V F path base s) = Some ((r, out), s')"
    and c: "r = 0 \<and> (\<exists>d name. out = Some (d, name) \<and> is_dir s' d \<and> effect (addc d 1 (arc s)) s1 s')
      \<or> r < 0 \<and> out = None \<and> effect (arc s) s1 s'"
    unfolding walk_post_def by auto
  then obtain out' where "dir_namev E V F path base s = Some ((r, out'), s')"
    "out = map_option (\<lambda>(d, name, n). (d, take n name)) out'" by (auto simp: named_def)
  then show thesis using c that effect_trans [OF s1(2)] by (cases out') auto
qed

lemma dir_has_ops:
  assumes "vfs_ok s" "is_dir s d"
  obtains vn where "vnodes s d = Some vn" "has_op (vn_ops vn) Op_create" "has_op (vn_ops vn) Op_mknod"
    "has_op (vn_ops vn) Op_lookup" "has_op (vn_ops vn) Op_link" "has_op (vn_ops vn) Op_unlink"
    "has_op (vn_ops vn) Op_mkdir" "has_op (vn_ops vn) Op_rmdir"
  using assms by (auto simp: is_dir_def vfs_ok_def vnode_ok_def table_ok_def)

lemma live_vnode:
  assumes "effect g s s'" "0 < g v"
  obtains vn where "vnodes s' v = Some vn"
  using assms by (auto simp: effect_def intro: arc_pos_vnode)

lemma open_namev_created:
  assumes "errno_ok E" "fs_ok F" "vfs_ok s" "is_dir s d" "0 < arc s d"
    and "effect g s0 s" "addc d (- 1) (arc s) = g0"
  obtains (ok) v s1 s2 where "op_create F d name s = Some ((0, Some v), s1)" "vput F d s1 = Some s2"
      "effect (addc v 1 g0) s0 s2"
  | (err) r s1 s2 where "op_create F d name s = Some ((r, None), s1)" "r < 0" "vput F d s1 = Some s2" "effect g0 s0 s2"
  using fs_ok_ops(2) [OF assms(2), of d name] assms(3,5)
proof (cases rule: findsE)
  case (found v s1)
  have "0 < addc v 1 (arc s) d" using assms(5) by (auto simp: addc_apply)
  then obtain s2 where s2: "vput F d s1 = Some s2" "effect (addc d (- 1) (addc v 1 (arc s))) s s2"
    by (rule drop_after [OF assms(2) found(3)])
  then have "effect (addc v 1 g0) s s2" using assms(7) by (simp add: addc_commute [of d "- 1" v])
  from found(1) s2(1) effect_trans [OF assms(6) this] show thesis by (rule ok)
next
  case (failed r s1)
  obtain s2 where s2: "vput F d s1 = Some s2" "effect (addc d (- 1) (arc s)) s s2"
    by (rule drop_after [OF assms(2) failed(4) assms(5)])
  from effect_trans [OF assms(6) s2(2)] have "effect g0 s0 s2" by (simp add: assms(7))
  with failed(1,2) s2(1) show thesis by (rule err)
qed

lemma open_namev_result:
  assumes "errno_ok E" "fs_ok F" "vfs_ok s" "path = [] \<or> start_ok path base s"
  obtains (ok) v s' where "open_namev E V F path flag base s = Some ((0, Some v), s')" "effect (addc v 1 (arc s)) s s'"
  | (err) r out s' where "open_namev E V F path flag base s = Some ((r, out), s')" "r < 0" "effect (arc s) s s'"
  using assms
proof (cases rule: dir_namev_result [where V = V])
  case err': (err r s')
  then show thesis by (intro err [of r None s']) (simp_all add: open_namev_def)
next
  case dir: (ok d name n s1)
  note eff1 = effectD [OF dir(2)]
  have d1: "0 < arc s1 d" using eff1 arc_nonneg [OF assms(3), of d] by (simp add: addc_apply)
  from assms(1,2) eff1(1) d1 show thesis
  proof (cases rule: lookup_cases [where n = name and l = n])
    case (found v s2)
    have e2: "effect (addc v 1 (addc d 1 (arc s))) s s2"
      using effect_trans [OF dir(2) found(2)] eff1(2) by simp
    have a: "0 < addc v 1 (addc d 1 (arc s)) v" "0 < addc v 1 (addc d 1 (arc s)) d" "0 < addc d 1 (arc s) d"
      using arc_nonneg [OF assms(3), of v] arc_nonneg [OF assms(3), of d] by (simp_all add: addc_apply)
    obtain vn where vn: "vnodes s2 v = Some vn" by (rule live_vnode [OF e2 a(1)])
    obtain s3 where s3: "vput F d s2 = Some s3" "effect (addc d (- 1) (addc v 1 (addc d 1 (arc s)))) s s3"
      by (rule drop_after [OF assms(2) e2 a(2)])
    then have s3': "effect (addc v 1 (arc s)) s s3" by (simp add: addc_commute [of d "- 1" v])
    obtain s4 where s4: "vput F v s2 = Some s4" "effect (addc d 1 (arc s)) s s4"
      by (rule drop_after [OF assms(2) e2 a(1)]) simp
    obtain s5 where s5: "vput F d s4 = Some s5" "effect (arc s) s s5"
      by (rule drop_after [OF assms(2) s4(2) a(3)]) simp
    show thesis
    proof (cases "(flag AND O_WRONLY V \<noteq> 0 \<or> flag AND O_RDWR V \<noteq> 0) \<and> has_op (vn_ops vn) Op_mkdir")
      case True
      with dir(1) found(1) vn s4(1) s5 errno_pos [OF assms(1)] show thesis
        by (intro err [of "- E EISDIR" None s5]) (auto simp: open_namev_def)
    next
      case False
      with dir(1) found(1) vn s3(1) s3' show thesis
        by (intro ok [of v s3]) (auto simp: open_namev_def)
    qed
  next
    case (failed r s2)
    have e2: "effect (addc d 1 (arc s)) s s2" using effect_trans [OF dir(2) failed(3)] eff1(2) by simp
    have dir2: "is_dir s2 d" using dir(3) is_dir_kind [OF failed(4)] by simp
    have d2: "0 < arc s2 d" "vfs_ok s2" "addc d (- 1) (arc s2) = arc s"
      using d1 effectD [OF failed(3)] eff1(2) by simp_all
    obtain vn where vn: "vnodes s2 d = Some vn" "has_op (vn_ops vn) Op_create"
      by (rule dir_has_ops [OF d2(2) dir2])
    have pd: "0 < addc d 1 (arc s) d" using d1 eff1(2) by simp
    obtain s3 where s3: "vput F d s2 = Some s3" "effect (arc s) s s3"
      by (rule drop_after [OF assms(2) e2 pd]) simp
    show thesis
    proof (cases "flag AND O_CREAT V \<noteq> 0 \<and> r = - E ENOENT")
      case True
      from assms(1,2) d2(2) dir2 d2(1) e2 d2(3) show thesis
      proof (cases rule: open_namev_created [where name = "take n name"])
        case (ok v t1 t2)
        with True dir(1) failed(1,2) vn show thesis
          by (intro that(1) [of v t2]) (simp_all add: open_namev_def)
      next
        case (err c t1 t2)
        with True dir(1) failed(1,2) vn show thesis
          by (intro that(2) [of c None t2]) (simp_all add: open_namev_def)
      qed
    next
      case False
      with dir(1) failed(1,2) vn s3 show thesis
        by (intro err [of r None s3]) (auto simp: open_namev_def)
    qed
  qed
qed

end
