(* ===== verification/Vfs_Path.thy ===== *)
theory Vfs_Path
  imports Namev_Props
begin

section \<open>Calls on path names keep the reference counts\<close>

text \<open>
  Every call that takes a path name drops the references it takes, on its error paths too. The cases
  after \<^verbatim>\<open>dir_namev\<close> and \<^verbatim>\<open>lookup\<close> are shared: \<open>dir_entry_cases\<close>.
\<close>

subsection \<open>A directory and an entry\<close>

lemma dir_entry_cases:
  assumes "errno_ok E" "fs_ok F" "vfs_ok s" "path = [] \<or> start_ok path None s"
  obtains (nodir) r s' where "dir_namev E V F path None s = Some ((r, None), s')" "r < 0" "effect (arc s) s s'"
  | (missing) d name n s1 r s2 where "dir_namev E V F path None s = Some ((0, Some (d, name, n)), s1)"
      "effect (addc d 1 (arc s)) s s1" "is_dir s1 d" "lookup E F d name n s1 = Some ((r, None), s2)" "r < 0"
      "effect (addc d 1 (arc s)) s s2" "is_dir s2 d"
  | (present) d name n s1 v s2 where "dir_namev E V F path None s = Some ((0, Some (d, name, n)), s1)"
      "effect (addc d 1 (arc s)) s s1" "is_dir s1 d" "lookup E F d name n s1 = Some ((0, Some v), s2)"
      "effect (addc v 1 (addc d 1 (arc s))) s s2" "is_dir s2 d"
  using assms
proof (cases rule: dir_namev_result [where V = V])
  case (err r s')
  then show thesis by (rule nodir)
next
  case (ok d name n s1)
  note e1 = effectD [OF ok(2)]
  have d1: "0 < arc s1 d" using e1 arc_nonneg [OF assms(3), of d] by (simp add: addc_apply)
  from assms(1,2) e1(1) d1 show thesis
  proof (cases rule: lookup_cases [where n = name and l = n])
    case (found v s2)
    have "effect (addc v 1 (addc d 1 (arc s))) s s2" using effect_trans [OF ok(2) found(2)] e1(2) by simp
    with ok found(1) is_dir_kind [OF found(3)] show thesis by (intro present [of d name n s1 v s2]) simp_all
  next
    case (failed r s2)
    have "effect (addc d 1 (arc s)) s s2" using effect_trans [OF ok(2) failed(3)] e1(2) by simp
    with ok failed(1,2) is_dir_kind [OF failed(4)] show thesis by (intro missing [of d name n s1 r s2]) simp_all
  qed
qed

lemma vput_dir:
  assumes "fs_ok F" "vfs_ok s" "effect (addc d 1 (arc s)) s s1"
  obtains s2 where "vput F d s1 = Some s2" "effect (arc s) s s2"
proof -
  have "0 < addc d 1 (arc s) d" using arc_nonneg [OF assms(2), of d] by (simp add: addc_apply)
  then show thesis by (rule drop_after [OF assms(1,3)]) (simp add: that)
qed

lemma vput_entry:
  assumes "fs_ok F" "vfs_ok s" "effect (addc v 1 (addc d 1 (arc s))) s s1"
  obtains s2 s3 where "vput F v s1 = Some s2" "vput F d s2 = Some s3" "effect (arc s) s s3"
proof -
  have "0 < addc v 1 (addc d 1 (arc s)) v"
    using arc_nonneg [OF assms(2), of v] by (simp add: addc_apply)
  then obtain s2 where s2: "vput F v s1 = Some s2" "effect (addc d 1 (arc s)) s s2"
    by (rule drop_after [OF assms(1,3)]) simp
  obtain s3 where "vput F d s2 = Some s3" "effect (arc s) s s3" by (rule vput_dir [OF assms(1,2) s2(2)])
  with s2(1) show thesis by (rule that)
qed

lemma op_keeps:
  assumes "quiet d f" "effect g s s1" "0 < g d"
  obtains r s2 where "f s1 = Some (r, s2)" "effect g s s2"
proof -
  have "vfs_ok s1" "0 < arc s1 d" using assms(2,3) by (simp_all add: effect_def)
  with assms(1) obtain r s2 where "f s1 = Some (r, s2)" "effect (arc s1) s1 s2" by (rule quietE)
  with effect_trans [OF assms(2)] effectD(2) [OF assms(2)] show thesis by (intro that) auto
qed

lemma addc_pos:
  assumes "vfs_ok s"
  shows "0 < addc d 1 (arc s) d" "0 < addc v 1 (addc d 1 (arc s)) d" "0 < addc v 1 (addc d 1 (arc s)) v"
  using arc_nonneg [OF assms, of d] arc_nonneg [OF assms, of v] by (auto simp: addc_apply)

subsection \<open>The calls\<close>

definition balanced :: "('a vfs_st_scheme \<Rightarrow> (int \<times> 'a vfs_st_scheme) option) \<Rightarrow> 'a vfs_st_scheme \<Rightarrow> bool" where
  "balanced f s \<longleftrightarrow> (\<exists>r s'. f s = Some (r, s') \<and> effect (arc s) s s')"

lemma balancedI: "f s = Some (r, s') \<Longrightarrow> effect (arc s) s s' \<Longrightarrow> balanced f s"
  by (auto simp: balanced_def)

lemma do_mkdir_balanced:
  assumes "errno_ok E" "fs_ok F" "vfs_ok s" "path = [] \<or> start_ok path None s"
  shows "balanced (do_mkdir E V F path) s"
  using assms
proof (cases rule: dir_entry_cases [where V = V])
  case (nodir r s')
  then show ?thesis by (auto simp: balanced_def do_mkdir_def)
next
  case (missing d name n s1 r s2)
  obtain s3 where s3: "vput F d s2 = Some s3" "effect (arc s) s s3"
    by (rule vput_dir [OF assms(2,3) missing(6)])
  obtain c t where t: "op_mkdir F d (take n name) s2 = Some (c, t)" "effect (addc d 1 (arc s)) s t"
    by (rule op_keeps [OF fs_ok_ops(4) [OF assms(2)] missing(6) addc_pos(1) [OF assms(3)]])
  obtain t' where t': "vput F d t = Some t'" "effect (arc s) s t'" by (rule vput_dir [OF assms(2,3) t(2)])
  obtain vn where "vnodes s2 d = Some vn" "has_op (vn_ops vn) Op_mkdir"
    by (rule dir_has_ops [OF effectD(1) [OF missing(6)] missing(7)])
  with missing(1,4,5) s3 t(1) t' show ?thesis by (auto simp: balanced_def do_mkdir_def)
next
  case (present d name n s1 v s2)
  obtain s3 s4 where "vput F v s2 = Some s3" "vput F d s3 = Some s4" "effect (arc s) s s4"
    by (rule vput_entry [OF assms(2,3) present(5)])
  with present(1,4) show ?thesis by (auto simp: balanced_def do_mkdir_def)
qed

lemma do_mknod_balanced:
  assumes "errno_ok E" "fs_ok F" "vfs_ok s" "path = [] \<or> start_ok path None s"
  shows "balanced (do_mknod E V F path mode devid) s"
  using assms
proof (cases rule: dir_entry_cases [where V = V])
  case (nodir r s')
  then show ?thesis by (auto simp: balanced_def do_mknod_def effect_refl [OF assms(3)])
next
  case (missing d name n s1 r s2)
  obtain s3 where s3: "vput F d s2 = Some s3" "effect (arc s) s s3"
    by (rule vput_dir [OF assms(2,3) missing(6)])
  obtain c t where t: "op_mknod F d (take n name) mode devid s2 = Some (c, t)" "effect (addc d 1 (arc s)) s t"
    by (rule op_keeps [OF fs_ok_ops(3) [OF assms(2)] missing(6) addc_pos(1) [OF assms(3)]])
  obtain t' where t': "vput F d t = Some t'" "effect (arc s) s t'" by (rule vput_dir [OF assms(2,3) t(2)])
  obtain vn where "vnodes s2 d = Some vn" "has_op (vn_ops vn) Op_mknod"
    by (rule dir_has_ops [OF effectD(1) [OF missing(6)] missing(7)])
  with missing(1,4,5) s3 t(1) t' show ?thesis by (auto simp: balanced_def do_mknod_def effect_refl [OF assms(3)])
next
  case (present d name n s1 v s2)
  obtain s3 s4 where "vput F v s2 = Some s3" "vput F d s3 = Some s4" "effect (arc s) s s4"
    by (rule vput_entry [OF assms(2,3) present(5)])
  with present(1,4) show ?thesis by (auto simp: balanced_def do_mknod_def effect_refl [OF assms(3)])
qed

lemma do_rmdir_balanced:
  assumes "errno_ok E" "fs_ok F" "vfs_ok s" "path = [] \<or> start_ok path None s"
  shows "balanced (do_rmdir E V F path) s"
  using assms
proof (cases rule: dir_entry_cases [where V = V])
  case (nodir r s')
  then show ?thesis by (auto simp: balanced_def do_rmdir_def)
next
  case (missing d name n s1 r s2)
  obtain vn where "vnodes s1 d = Some vn" "has_op (vn_ops vn) Op_rmdir"
    by (rule dir_has_ops [OF effectD(1) [OF missing(2)] missing(3)])
  moreover obtain s3 where "vput F d s2 = Some s3" "effect (arc s) s s3"
    by (rule vput_dir [OF assms(2,3) missing(6)])
  moreover obtain s4 where "vput F d s1 = Some s4" "effect (arc s) s s4"
    by (rule vput_dir [OF assms(2,3) missing(2)])
  ultimately show ?thesis using missing(1,4,5) by (auto simp: balanced_def do_rmdir_def)
next
  case (present d name n s1 v s2)
  obtain vn where vn: "vnodes s1 d = Some vn" "has_op (vn_ops vn) Op_rmdir"
    by (rule dir_has_ops [OF effectD(1) [OF present(2)] present(3)])
  obtain vn2 where vn2: "vnodes s2 d = Some vn2" "has_op (vn_ops vn2) Op_rmdir"
    by (rule dir_has_ops [OF effectD(1) [OF present(5)] present(6)])
  obtain rvn where rvn: "vnodes s2 v = Some rvn"
    by (rule live_vnode [OF present(5) addc_pos(3) [OF assms(3)]])
  obtain s3 s4 where s4: "vput F v s2 = Some s3" "vput F d s3 = Some s4" "effect (arc s) s s4"
    by (rule vput_entry [OF assms(2,3) present(5)])
  obtain s5 where s5: "vput F d s1 = Some s5" "effect (arc s) s s5" by (rule vput_dir [OF assms(2,3) present(2)])
  obtain c t where t: "op_rmdir F d (take n name) s2 = Some (c, t)" "effect (addc v 1 (addc d 1 (arc s))) s t"
    by (rule op_keeps [OF fs_ok_ops(5) [OF assms(2)] present(5) addc_pos(2) [OF assms(3)]])
  obtain t1 t2 where "vput F v t = Some t1" "vput F d t1 = Some t2" "effect (arc s) s t2"
    by (rule vput_entry [OF assms(2,3) t(2)])
  with present(1,4) vn vn2 rvn s4 s5 t(1) show ?thesis by (auto simp: balanced_def do_rmdir_def)
qed

lemma do_unlink_balanced:
  assumes "errno_ok E" "fs_ok F" "vfs_ok s" "path = [] \<or> start_ok path None s"
  shows "balanced (do_unlink E V F path) s"
  using assms
proof (cases rule: dir_entry_cases [where V = V])
  case (nodir r s')
  then show ?thesis by (auto simp: balanced_def do_unlink_def)
next
  case (missing d name n s1 r s2)
  obtain vn where "vnodes s1 d = Some vn" "has_op (vn_ops vn) Op_unlink"
    by (rule dir_has_ops [OF effectD(1) [OF missing(2)] missing(3)])
  moreover obtain s3 where "vput F d s2 = Some s3" "effect (arc s) s s3"
    by (rule vput_dir [OF assms(2,3) missing(6)])
  ultimately show ?thesis using missing(1,4,5) by (auto simp: balanced_def do_unlink_def)
next
  case (present d name n s1 v s2)
  obtain vn where vn: "vnodes s1 d = Some vn" "has_op (vn_ops vn) Op_unlink"
    by (rule dir_has_ops [OF effectD(1) [OF present(2)] present(3)])
  obtain vn2 where vn2: "vnodes s2 d = Some vn2" "has_op (vn_ops vn2) Op_unlink"
    by (rule dir_has_ops [OF effectD(1) [OF present(5)] present(6)])
  obtain rvn where rvn: "vnodes s2 v = Some rvn"
    by (rule live_vnode [OF present(5) addc_pos(3) [OF assms(3)]])
  obtain s3 s4 where s4: "vput F v s2 = Some s3" "vput F d s3 = Some s4" "effect (arc s) s s4"
    by (rule vput_entry [OF assms(2,3) present(5)])
  obtain c t where t: "op_unlink F d (take n name) s2 = Some (c, t)" "effect (addc v 1 (addc d 1 (arc s))) s t"
    by (rule op_keeps [OF fs_ok_ops(6) [OF assms(2)] present(5) addc_pos(2) [OF assms(3)]])
  obtain t1 t2 where "vput F v t = Some t1" "vput F d t1 = Some t2" "effect (arc s) s t2"
    by (rule vput_entry [OF assms(2,3) t(2)])
  with present(1,4) vn vn2 rvn s4 t(1) show ?thesis by (auto simp: balanced_def do_unlink_def)
qed

lemma vop_stat_keeps:
  assumes "fs_ok F" "effect g s s1" "0 < g v" "vop_stat F v s1 = Some (r, s2)"
  shows "effect g s s2"
proof -
  obtain vn where vn: "vnodes s1 v = Some vn" using assms(4) by (auto simp: vop_stat_def bind_eq_Some_conv)
  with assms(4) obtain t where "op_stat F t v s1 = Some (r, s2)"
    by (cases "vn_ops vn") (auto simp: vop_stat_def special_file_stat_def bind_eq_Some_conv split: if_split_asm)
  moreover obtain r' s3 where "op_stat F t v s1 = Some (r', s3)" "effect g s s3"
    by (rule op_keeps [OF fs_ok_ops(8) [OF assms(1)] assms(2,3)])
  ultimately show ?thesis by simp
qed

lemma do_stat_balanced:
  assumes "errno_ok E" "fs_ok F" "vfs_ok s" "path = [] \<or> start_ok path None s" "do_stat E V F path s = Some (r, s')"
  shows "effect (arc s) s s'"
  using assms(1-4)
proof (cases rule: open_namev_result [where V = V and flag = "O_RDONLY V"])
  case (ok v s1)
  have pos: "0 < addc v 1 (arc s) v" using arc_nonneg [OF assms(3), of v] by (simp add: addc_apply)
  from assms(5) ok(1) obtain c s2 where s2: "vop_stat F v s1 = Some (c, s2)" "vput F v s2 = Some s'"
    by (auto simp: do_stat_def bind_eq_Some_conv split: if_split_asm)
  have e2: "effect (addc v 1 (arc s)) s s2" by (rule vop_stat_keeps [OF assms(2) ok(2) pos s2(1)])
  obtain s3 where "vput F v s2 = Some s3" "effect (arc s) s s3" by (rule vput_dir [OF assms(2,3) e2])
  with s2(2) show ?thesis by simp
next
  case (err c out s1)
  with assms(5) show ?thesis by (simp add: do_stat_def)
qed

text \<open>
  \<^verbatim>\<open>do_chdir\<close> moves one reference from the old current directory to the new one.
\<close>

lemma do_chdir_moves:
  assumes "errno_ok E" "fs_ok F" "vfs_ok s" "path = [] \<or> start_ok path None s"
    and cur: "curproc s = Some p" "procs s p = Some pr" "p_cwd pr = Some old" "0 < arc s old"
  shows "(\<exists>new s1. do_chdir E V F path s = Some (0, s1\<lparr>procs := (procs s)(p \<mapsto> pr\<lparr>p_cwd := Some new\<rparr>)\<rparr>)
             \<and> effect (addc new 1 (addc old (- 1) (arc s))) s s1)
    \<or> (\<exists>r s'. do_chdir E V F path s = Some (r, s') \<and> r < 0 \<and> effect (arc s) s s')"
  using assms(1-4)
proof (cases rule: open_namev_result [where V = V and flag = "O_RDONLY V"])
  case (ok v s1)
  have pos: "0 < addc v 1 (arc s) v" "0 < addc v 1 (arc s) old"
    using arc_nonneg [OF assms(3), of v] cur(4) by (simp_all add: addc_apply)
  obtain vn where vn: "vnodes s1 v = Some vn" by (rule live_vnode [OF ok(2) pos(1)])
  obtain s2 where s2: "vput F v s1 = Some s2" "effect (arc s) s s2" by (rule vput_dir [OF assms(2,3) ok(2)])
  obtain s3 where s3: "vput F old s1 = Some s3" "effect (addc old (- 1) (addc v 1 (arc s))) s s3"
    by (rule drop_after [OF assms(2) ok(2) pos(2)])
  have e3: "effect (addc v 1 (addc old (- 1) (arc s))) s s3" using s3(2) by (simp add: addc_commute [of old "- 1" v])
  have same: "curproc s1 = curproc s" "procs s1 = procs s" "procs s3 = procs s"
    using effectD(3) [OF ok(2)] effectD(3) [OF e3] by (simp_all add: same_tables_def)
  show ?thesis
  proof (cases "S_ISDIR (vn_mode vn) \<and> has_op (vn_ops vn) Op_mkdir")
    case True
    have "do_chdir E V F path s = Some (0, s3\<lparr>procs := (procs s)(p \<mapsto> pr\<lparr>p_cwd := Some v\<rparr>)\<rparr>)"
      using True ok(1) vn same cur s3(1) by (simp add: do_chdir_def proc_upd_def)
    with e3 show ?thesis by blast
  next
    case False
    with ok(1) vn s2 errno_pos [OF assms(1)] show ?thesis by (auto simp: do_chdir_def)
  qed
next
  case (err c out s1)
  then show ?thesis by (auto simp: do_chdir_def)
qed

end
