(* ===== verification/Vfs_Files.thy ===== *)
theory Vfs_Files
  imports Vfs_Path
begin

section \<open>The file descriptor table and the counts of open files\<close>

text \<open>
  The count of an open file is the number of table entries that refer to it: \<open>file_refs R\<close> says so for
  the current process's table, where \<open>R x\<close> is the number of references to \<open>x\<close> from elsewhere. The laws
  \<open>file_ok\<close> are what the comments of the source say of \<^verbatim>\<open>fget\<close> and \<^verbatim>\<open>fput\<close>: one counts a reference up and
  returns the entry of the table, or a fresh file for \<^verbatim>\<open>-1\<close>, the other counts it down and frees the file
  with the last one. \<open>frame_ok\<close> says that operations of file systems and devices leave the tables
  alone.
\<close>

definition frame_ok :: "'a vfs_st_scheme fs_ext \<Rightarrow> bool" where
  "frame_ok F \<longleftrightarrow>
     (\<forall>v i n s r s'. op_read F v i n s = Some (r, s') \<longrightarrow> same_tables s s')
   \<and> (\<forall>v i b s r s'. op_write F v i b s = Some (r, s') \<longrightarrow> same_tables s s')
   \<and> (\<forall>v i n s r s'. cd_read F v i n s = Some (r, s') \<longrightarrow> same_tables s s')
   \<and> (\<forall>v i b s r s'. cd_write F v i b s = Some (r, s') \<longrightarrow> same_tables s s')
   \<and> (\<forall>v i s r s'. op_readdir F v i s = Some (r, s') \<longrightarrow> same_tables s s')
   \<and> (\<forall>v n s r s'. op_lookup F v n s = Some (r, s') \<longrightarrow> same_tables s s')
   \<and> (\<forall>v n s r s'. op_create F v n s = Some (r, s') \<longrightarrow> same_tables s s')
   \<and> (\<forall>v s s'. free_respages F v s = Some s' \<longrightarrow> same_tables s s')
   \<and> (\<forall>del v s s'. delete_vnode F = Some del \<longrightarrow> del v s = Some s' \<longrightarrow> same_tables s s')"

definition file_ok :: "'a vfs_st_scheme fs_ext \<Rightarrow> bool" where
  "file_ok F \<longleftrightarrow>
     (\<forall>fd s x fl. fd_get fd s = Some (Some x) \<longrightarrow> files s x = Some fl \<longrightarrow>
        fget F fd s = Some (Some x, s\<lparr>files := (files s)(x \<mapsto> fl\<lparr>f_refcount := f_refcount fl + 1\<rparr>)\<rparr>))
   \<and> (\<forall>fd s. fd_get fd s = Some None \<longrightarrow> fget F fd s = Some (None, s))
   \<and> (\<forall>s. fget F (- 1) s = Some (None, s) \<or> (\<exists>x fl. files s x = None \<and> f_refcount fl = 1 \<and>
        fget F (- 1) s = Some (Some x, s\<lparr>files := (files s)(x \<mapsto> fl)\<rparr>)))
   \<and> (\<forall>x s fl. files s x = Some fl \<longrightarrow> 1 < f_refcount fl \<longrightarrow>
        fput F x s = Some (s\<lparr>files := (files s)(x \<mapsto> fl\<lparr>f_refcount := f_refcount fl - 1\<rparr>)\<rparr>))
   \<and> (\<forall>x s fl s'. files s x = Some fl \<longrightarrow> f_refcount fl = 1 \<longrightarrow> fput F x s = Some s' \<longrightarrow>
        files s' = (files s)(x := None) \<and> procs s' = procs s \<and> curproc s' = curproc s)
   \<and> (\<forall>x s. files s x = None \<longrightarrow> fput F x s = None)"

lemma file_okD:
  assumes "file_ok F"
  shows "fd_get fd s = Some (Some x) \<Longrightarrow> files s x = Some fl \<Longrightarrow>
      fget F fd s = Some (Some x, s\<lparr>files := (files s)(x \<mapsto> fl\<lparr>f_refcount := f_refcount fl + 1\<rparr>)\<rparr>)"
    and "fd_get fd s = Some None \<Longrightarrow> fget F fd s = Some (None, s)"
    and "files s x = Some fl \<Longrightarrow> 1 < f_refcount fl \<Longrightarrow>
      fput F x s = Some (s\<lparr>files := (files s)(x \<mapsto> fl\<lparr>f_refcount := f_refcount fl - 1\<rparr>)\<rparr>)"
    and "files s x = Some fl \<Longrightarrow> f_refcount fl = 1 \<Longrightarrow> fput F x s = Some s' \<Longrightarrow> files s' = (files s)(x := None)"
    and "files s x = Some fl \<Longrightarrow> f_refcount fl = 1 \<Longrightarrow> fput F x s = Some s' \<Longrightarrow> procs s' = procs s"
    and "files s x = Some fl \<Longrightarrow> f_refcount fl = 1 \<Longrightarrow> fput F x s = Some s' \<Longrightarrow> curproc s' = curproc s"
    and "files s x = None \<Longrightarrow> fput F x s = None"
  using assms unfolding file_ok_def by blast+

lemma fget_fresh:
  assumes "file_ok F"
  obtains (full) "fget F (- 1) s = Some (None, s)"
  | (fresh) x fl where "files s x = None" "f_refcount fl = 1" "fget F (- 1) s = Some (Some x, s\<lparr>files := (files s)(x \<mapsto> fl)\<rparr>)"
  using assms unfolding file_ok_def by blast

definition refs_at :: "ptr option list \<Rightarrow> ptr \<Rightarrow> int" where
  "refs_at fs x = int (count_list fs (Some x))"

definition count_ok :: "(ptr \<Rightarrow> file_t option) \<Rightarrow> (ptr \<Rightarrow> int) \<Rightarrow> bool" where
  "count_ok fls n \<longleftrightarrow> (\<forall>x. fls x = None \<longrightarrow> n x = 0) \<and> (\<forall>x fl. fls x = Some fl \<longrightarrow> f_refcount fl = n x \<and> 0 < n x)"

definition file_refs :: "vconf \<Rightarrow> (ptr \<Rightarrow> int) \<Rightarrow> 'a vfs_st_scheme \<Rightarrow> bool" where
  "file_refs V R s \<longleftrightarrow>
     (\<exists>fs. cur_files s = Some fs \<and> length fs = NFILES V \<and> count_ok (files s) (\<lambda>x. refs_at fs x + R x))"

subsection \<open>Effect of the primitive operations on the counts\<close>

lemma count_list_update:
  "i < length xs \<Longrightarrow> int (count_list (xs[i := v]) y) = int (count_list xs y) - of_bool (xs ! i = y) + of_bool (v = y)"
proof (induction xs arbitrary: i)
  case (Cons a xs)
  then show ?case by (cases i) auto
qed simp

lemma file_refs_same:
  assumes "same_tables s s'"
  shows "file_refs V R s' = file_refs V R s" "fd_get fd s' = fd_get fd s" "cur_files s' = cur_files s"
  using assms by (simp_all add: same_tables_def file_refs_def cur_files_def fd_get_def)

lemma count_ok_upd:
  assumes "count_ok fls n" "fls x = Some fl" "f_refcount g = m x" "0 < m x" "\<And>y. y \<noteq> x \<Longrightarrow> m y = n y"
  shows "count_ok (fls(x \<mapsto> g)) m"
  using assms by (auto simp: count_ok_def split: option.split)

lemma count_okD:
  assumes "count_ok fls n"
  shows "fls x = None \<Longrightarrow> n x = 0" "fls x = Some fl \<Longrightarrow> f_refcount fl = n x" "fls x = Some fl \<Longrightarrow> 0 < n x"
  using assms by (auto simp: count_ok_def)

lemma cur_files_files [simp]: "cur_files (s\<lparr>files := f\<rparr>) = cur_files s"
  by (simp add: cur_files_def)

lemma fd_get_files [simp]: "fd_get fd (s\<lparr>files := f\<rparr>) = fd_get fd s"
  by (simp add: fd_get_def)

definition same_procs :: "'a vfs_st_scheme \<Rightarrow> 'a vfs_st_scheme \<Rightarrow> bool" where
  "same_procs s s' \<longleftrightarrow> procs s' = procs s \<and> curproc s' = curproc s"

lemma same_procs_simps:
  "same_procs s s" "same_procs s (s\<lparr>files := f\<rparr>)" "same_tables s s' \<Longrightarrow> same_procs s s'"
  by (simp_all add: same_procs_def same_tables_def)

lemma same_procs_trans: "same_procs s s' \<Longrightarrow> same_procs s' s'' \<Longrightarrow> same_procs s s''"
  by (simp add: same_procs_def)

lemma same_procs_fds: "same_procs s s' \<Longrightarrow> cur_files s' = cur_files s" "same_procs s s' \<Longrightarrow> fd_get fd s' = fd_get fd s"
  by (simp_all add: same_procs_def cur_files_def fd_get_def)

lemma nth_count_pos: "i < length xs \<Longrightarrow> xs ! i = y \<Longrightarrow> 0 < count_list xs y"
  using count_list_0_iff [of xs y] nth_mem [of i xs] by auto

lemma file_refs_entry:
  assumes "file_refs V R s" "0 \<le> R x" "fd_get fd s = Some (Some x)"
  obtains fl where "files s x = Some fl" "0 < f_refcount fl"
proof -
  obtain fs where fs: "cur_files s = Some fs" "count_ok (files s) (\<lambda>x. refs_at fs x + R x)"
    using assms(1) by (auto simp: file_refs_def split: option.splits)
  with assms(3) have "0 < refs_at fs x"
    by (auto simp: fd_get_def refs_at_def intro!: nth_count_pos split: if_split_asm)
  with count_okD [OF fs(2), of x] assms(2) that show thesis by (cases "files s x") auto
qed

lemma fd_get_valid:
  assumes "file_refs V R s" "fd_valid V fd"
  shows "fd_get fd s \<noteq> None"
  using assms by (auto simp: file_refs_def fd_get_def fd_valid_def split: option.splits)

lemma fget_cases:
  assumes "file_ok F" "file_refs V R s" "\<And>x. 0 \<le> R x" "fd_valid V fd"
  obtains (closed) "fd_get fd s = Some None" "fget F fd s = Some (None, s)"
  | (opened) x fl s1 where "fd_get fd s = Some (Some x)" "files s x = Some fl" "0 < f_refcount fl"
      "s1 = s\<lparr>files := (files s)(x \<mapsto> fl\<lparr>f_refcount := f_refcount fl + 1\<rparr>)\<rparr>"
      "fget F fd s = Some (Some x, s1)" "file_refs V (addc x 1 R) s1"
proof (cases "the (fd_get fd s)")
  case None
  then have "fd_get fd s = Some None" using fd_get_valid [OF assms(2,4)] by auto
  with file_okD(2) [OF assms(1)] show thesis by (intro closed) simp_all
next
  case (Some x)
  then have x: "fd_get fd s = Some (Some x)" using fd_get_valid [OF assms(2,4)] by auto
  obtain fl where fl: "files s x = Some fl" "0 < f_refcount fl" by (rule file_refs_entry [OF assms(2,3) x])
  let ?s = "s\<lparr>files := (files s)(x \<mapsto> fl\<lparr>f_refcount := f_refcount fl + 1\<rparr>)\<rparr>"
  obtain fs where fs: "cur_files s = Some fs" "length fs = NFILES V" "count_ok (files s) (\<lambda>x. refs_at fs x + R x)"
    using assms(2) by (auto simp: file_refs_def split: option.splits)
  have "f_refcount fl = refs_at fs x + R x" using fs(3) fl by (auto simp: count_ok_def)
  then have "count_ok (files ?s) (\<lambda>y. refs_at fs y + addc x 1 R y)"
    using fl by (auto intro!: count_ok_upd [OF fs(3) fl(1)] simp: addc_apply)
  then have "file_refs V (addc x 1 R) ?s" using fs by (simp add: file_refs_def)
  with x fl file_okD(1) [OF assms(1) x fl(1)] show thesis by (intro opened [of x fl ?s]) simp_all
qed

lemma fput_refs:
  assumes "file_ok F" "file_refs V R s" "fput F x s = Some s'"
  shows "file_refs V (addc x (- 1) R) s' \<and> same_procs s s'"
proof -
  obtain fs where fs: "cur_files s = Some fs" "length fs = NFILES V" "count_ok (files s) (\<lambda>x. refs_at fs x + R x)"
    using assms(2) by (auto simp: file_refs_def split: option.splits)
  obtain fl where fl: "files s x = Some fl" using file_okD(7) [OF assms(1)] assms(3) by (cases "files s x") auto
  with fs(3) have c: "f_refcount fl = refs_at fs x + R x" "0 < f_refcount fl"
    by (auto simp: count_ok_def)
  show ?thesis
  proof (cases "f_refcount fl = 1")
    case True
    with file_okD(4-6) [OF assms(1) fl _ assms(3)] have s': "files s' = (files s)(x := None)" "same_procs s s'"
      by (simp_all add: same_procs_def)
    have "count_ok (files s') (\<lambda>y. refs_at fs y + addc x (- 1) R y)"
      using fs(3) c True unfolding s'(1) by (auto simp: count_ok_def addc_apply)
    with s'(2) fs show ?thesis by (simp add: file_refs_def same_procs_fds)
  next
    case False
    with file_okD(3) [OF assms(1) fl] assms(3) c have s': "s' = s\<lparr>files := (files s)(x \<mapsto> fl\<lparr>f_refcount := f_refcount fl - 1\<rparr>)\<rparr>"
      by simp
    have "count_ok (files s') (\<lambda>y. refs_at fs y + addc x (- 1) R y)"
      using c False unfolding s' by (auto intro!: count_ok_upd [OF fs(3) fl] simp: addc_apply)
    with fs s' show ?thesis by (simp add: file_refs_def same_procs_simps)
  qed
qed

lemma f_upd_refs:
  assumes "file_refs V R s" "f_upd x g s = Some s'" "\<And>fl. files s x = Some fl \<Longrightarrow> f_refcount (g fl) = f_refcount fl"
  shows "file_refs V R s' \<and> same_procs s s'"
proof -
  obtain fl where fl: "files s x = Some fl" "s' = s\<lparr>files := (files s)(x \<mapsto> g fl)\<rparr>"
    using assms(2) by (auto simp: f_upd_def bind_eq_Some_conv)
  with assms(1,3) show ?thesis
    by (auto simp: file_refs_def count_ok_def same_procs_def split: option.splits)
qed

definition addo :: "ptr option \<Rightarrow> int \<Rightarrow> (ptr \<Rightarrow> int) \<Rightarrow> ptr \<Rightarrow> int" where
  "addo v k f x = f x + (if v = Some x then k else 0)"

lemma addo_simps [simp]: "addo None k f = f" "addo (Some v) k f = addc v k f"
  by (simp_all add: addo_def addc_apply fun_eq_iff)

lemma fd_set_refs:
  assumes "file_refs V R s" "fd_get fd s = Some old" "fd_set fd new s = Some s'"
  shows "file_refs V (addo new (- 1) (addo old 1 R)) s'" "fd_get fd s' = Some new" "files s' = files s"
proof -
  obtain p pr where p: "curproc s = Some p" "procs s p = Some pr" "0 \<le> fd" "nat fd < length (p_files pr)"
    and s': "s' = s\<lparr>procs := (procs s)(p \<mapsto> pr\<lparr>p_files := (p_files pr)[nat fd := new]\<rparr>)\<rparr>"
    using assms(3) by (auto simp: fd_set_def bind_eq_Some_conv split: if_split_asm)
  have fs: "cur_files s = Some (p_files pr)" "cur_files s' = Some ((p_files pr)[nat fd := new])"
    using p s' by (simp_all add: cur_files_def)
  have old: "p_files pr ! nat fd = old" using assms(2) fs p by (simp add: fd_get_def)
  have "refs_at ((p_files pr)[nat fd := new]) x + addo new (- 1) (addo old 1 R) x = refs_at (p_files pr) x + R x" for x
    using count_list_update [OF p(4), of new "Some x"] old by (simp add: refs_at_def addo_def)
  with assms(1) fs s' show "file_refs V (addo new (- 1) (addo old 1 R)) s'" by (simp add: file_refs_def)
  show "fd_get fd s' = Some new" using fs p by (simp add: fd_get_def)
  show "files s' = files s" using s' by simp
qed

subsection \<open>The calls on descriptors keep the counts\<close>

lemma do_close_refs:
  assumes "file_ok F" "file_refs V R s" "do_close E V F fd s = Some (r, s')"
  shows "file_refs V R s'"
proof (cases "fd_valid V fd")
  case False
  with assms(2,3) show ?thesis by (simp add: do_close_def)
next
  case True
  obtain f where f: "fd_get fd s = Some f" using fd_get_valid [OF assms(2) True] by auto
  show ?thesis
  proof (cases f)
    case None
    with f True assms(2,3) show ?thesis by (simp add: do_close_def)
  next
    case (Some x)
    with f True assms(3) obtain s1 where s1: "fput F x s = Some s1" "fd_set fd None s1 = Some s'"
      by (auto simp: do_close_def bind_eq_Some_conv)
    note p = fput_refs [OF assms(1,2) s1(1)]
    have "fd_get fd s1 = Some (Some x)" using f Some same_procs_fds(2) [OF conjunct2 [OF p]] by simp
    from fd_set_refs(1) [OF conjunct1 [OF p] this s1(2)] show ?thesis by simp
  qed
qed

lemma empty_fd_from_result:
  assumes "empty_fd_from E fs i n = Some fd" "errno_ok E"
  shows "fd = - E EMFILE \<and> (\<forall>j \<ge> i. j < i + n \<longrightarrow> fs ! j \<noteq> None)
    \<or> (\<exists>k. fd = int k \<and> i \<le> k \<and> k < i + n \<and> k < length fs \<and> fs ! k = None \<and> (\<forall>j \<ge> i. j < k \<longrightarrow> fs ! j \<noteq> None))"
  using assms(1)
proof (induction n arbitrary: i)
  case (Suc n)
  show ?case
  proof (cases "i < length fs \<and> fs ! i \<noteq> None")
    case True
    with Suc.prems have e: "empty_fd_from E fs (i + 1) n = Some fd" by simp
    have step: "fs ! j \<noteq> None" if "\<forall>j \<ge> i + 1. j < m \<longrightarrow> fs ! j \<noteq> None" "i \<le> j" "j < m" for j m
      using that True by (cases "j = i") auto
    from Suc.IH [OF e] show ?thesis
    proof
      assume "fd = - E EMFILE \<and> (\<forall>j\<ge>i + 1. j < i + 1 + n \<longrightarrow> fs ! j \<noteq> None)"
      with step [of "i + 1 + n"] show ?thesis by simp
    next
      assume "\<exists>k. fd = int k \<and> i + 1 \<le> k \<and> k < i + 1 + n \<and> k < length fs \<and> fs ! k = None \<and> (\<forall>j\<ge>i + 1. j < k \<longrightarrow> fs ! j \<noteq> None)"
      then obtain k where k: "fd = int k" "i + 1 \<le> k" "k < i + 1 + n" "k < length fs" "fs ! k = None"
        "\<forall>j\<ge>i + 1. j < k \<longrightarrow> fs ! j \<noteq> None" by blast
      have "\<forall>j \<ge> i. j < k \<longrightarrow> fs ! j \<noteq> None" using step [OF k(6)] by blast
      with k show ?thesis by (intro disjI2 exI [of _ k]) simp
    qed
  next
    case False
    with Suc.prems have "fd = int i" "i < length fs" "fs ! i = None" by (auto split: if_split_asm)
    then show ?thesis by auto
  qed
qed (simp add: errno_pos)

lemma get_empty_fd_free:
  assumes "errno_ok E" "curproc s = Some p" "get_empty_fd E V p s = Some fd" "fd \<noteq> - E EMFILE"
  shows "0 \<le> fd \<and> fd_valid V fd \<and> fd_get fd s = Some None"
proof -
  obtain pr where pr: "procs s p = Some pr" "empty_fd_from E (p_files pr) 0 (NFILES V) = Some fd"
    using assms(3) by (auto simp: get_empty_fd_def bind_eq_Some_conv)
  from empty_fd_from_result [OF pr(2) assms(1)] assms(4) obtain k where
    "fd = int k" "k < NFILES V" "k < length (p_files pr)" "p_files pr ! k = None" by auto
  with assms(2) pr(1) show ?thesis by (simp add: fd_valid_def fd_get_def cur_files_def)
qed

lemma do_dup_refs:
  assumes "errno_ok E" "file_ok F" "file_refs V R s" "\<And>x. 0 \<le> R x" "do_dup E V F fd s = Some (r, s')"
  shows "file_refs V R s'"
proof (cases "fd_valid V fd")
  case False
  with assms(3,5) show ?thesis by (simp add: do_dup_def)
next
  case True
  from assms(2,3,4) True show ?thesis
  proof (cases rule: fget_cases)
    case closed
    with True assms(3,5) show ?thesis by (simp add: do_dup_def)
  next
    case (opened x fl s1)
    have get: "fd_get fd s1 = Some (Some x)" using opened(1,4) by simp
    from opened(1,5) get True assms(5) obtain p nfd where p: "curproc s1 = Some p" "get_empty_fd E V p s1 = Some nfd"
      and c: "nfd < 0 \<Longrightarrow> fput F x s1 = Some s'" "\<not> nfd < 0 \<Longrightarrow> fd_set nfd (Some x) s1 = Some s'"
      by (auto simp: do_dup_def bind_eq_Some_conv split: if_split_asm)
    show ?thesis
    proof (cases "nfd < 0")
      case True
      from fput_refs [OF assms(2) opened(6) c(1) [OF True]] show ?thesis by simp
    next
      case False
      then have "nfd \<noteq> - E EMFILE" using errno_pos [OF assms(1), of EMFILE] by auto
      note free = get_empty_fd_free [OF assms(1) p this]
      from fd_set_refs(1) [OF opened(6) _ c(2) [OF False]] free show ?thesis by simp
    qed
  qed
qed

lemma fd_set_other:
  assumes "fd_set fd new s = Some s'" "fd' \<noteq> fd"
  shows "fd_get fd' s' = fd_get fd' s"
proof -
  obtain p pr where p: "curproc s = Some p" "procs s p = Some pr" "0 \<le> fd"
    and s': "s' = s\<lparr>procs := (procs s)(p \<mapsto> pr\<lparr>p_files := (p_files pr)[nat fd := new]\<rparr>)\<rparr>"
    using assms(1) by (auto simp: fd_set_def bind_eq_Some_conv split: if_split_asm)
  have "nat fd' \<noteq> nat fd" if "0 \<le> fd'" using that p(3) assms(2) by auto
  with p s' show ?thesis by (auto simp: fd_get_def cur_files_def)
qed

lemma do_close_entries:
  assumes "file_ok F" "file_refs V R s" "do_close E V F fd s = Some (r, s')" "fd_valid V fd" "fd_get fd s = Some (Some x)"
  shows "fd_get fd s' = Some None" "fd' \<noteq> fd \<Longrightarrow> fd_get fd' s' = fd_get fd' s"
proof -
  from assms(3-5) obtain s1 where s1: "fput F x s = Some s1" "fd_set fd None s1 = Some s'"
    by (auto simp: do_close_def bind_eq_Some_conv)
  note p = fput_refs [OF assms(1,2) s1(1)]
  note e = same_procs_fds(2) [OF conjunct2 [OF p]]
  have "fd_get fd s1 = Some (Some x)" using e assms(5) by simp
  from fd_set_refs(2) [OF conjunct1 [OF p] this s1(2)] show "fd_get fd s' = Some None" .
  show "fd' \<noteq> fd \<Longrightarrow> fd_get fd' s' = fd_get fd' s" using fd_set_other [OF s1(2), of fd'] e [of fd'] by simp
qed

lemma dup2_install:
  assumes "file_ok F" "file_refs V R s" "\<And>x. 0 \<le> R x" "fd_valid V ofd" "fd_get nfd s = Some None"
    "fget F ofd s = Some (fl, s1)" "fd_set nfd fl s1 = Some s'"
  shows "file_refs V R s'"
  using assms(1-4)
proof (cases rule: fget_cases)
  case closed
  with assms(6,7) have "fd_set nfd None s = Some s'" by simp
  from fd_set_refs(1) [OF assms(2,5) this] show ?thesis by simp
next
  case (opened x g t)
  with assms(6,7) have "fd_set nfd (Some x) t = Some s'" by simp
  moreover have "fd_get nfd t = Some None" using opened(4) assms(5) by simp
  ultimately show ?thesis using fd_set_refs(1) [OF opened(6)] by fastforce
qed

lemma do_dup2_refs:
  assumes "file_ok F" "file_refs V R s" "\<And>x. 0 \<le> R x" "do_dup2 E V F ofd nfd s = Some (r, s')"
  shows "file_refs V R s'"
proof (cases "fd_valid V ofd \<and> fd_valid V nfd")
  case False
  with assms(2,4) show ?thesis by (simp add: do_dup2_def)
next
  case True
  obtain f g where f: "fd_get ofd s = Some f" and g: "fd_get nfd s = Some g"
    using fd_get_valid [OF assms(2)] True by blast
  show ?thesis
  proof (cases "f = None \<or> ofd = nfd")
    case True
    with f assms(2,4) show ?thesis by (auto simp: do_dup2_def split: if_split_asm)
  next
    case False
    with f g True assms(4) obtain s1 fl s2 where
      close: "g = None \<Longrightarrow> s1 = s" "g \<noteq> None \<Longrightarrow> \<exists>c. do_close E V F nfd s = Some (c, s1)"
      and i: "fget F ofd s1 = Some (fl, s2)" "fd_set nfd fl s2 = Some s'"
      by (auto simp: do_dup2_def bind_eq_Some_conv split: if_split_asm)
    have "file_refs V R s1 \<and> fd_get nfd s1 = Some None"
    proof (cases g)
      case None
      with close g assms(2) show ?thesis by simp
    next
      case (Some y)
      with close obtain c where c: "do_close E V F nfd s = Some (c, s1)" by auto
      from do_close_refs [OF assms(1,2) c] do_close_entries(1) [OF assms(1,2) c] True g Some
      show ?thesis by simp
    qed
    then show ?thesis using dup2_install [of F V R s1 ofd nfd fl s2 s'] assms(1,3) i True by blast
  qed
qed

lemma do_lseek_refs:
  assumes "file_ok F" "file_refs V R s" "\<And>x. 0 \<le> R x" "do_lseek E V F fd off wh s = Some (r, s')"
  shows "file_refs V R s' \<and> same_procs s s'"
proof (cases "fd_valid V fd")
  case False
  with assms(2,4) show ?thesis by (simp add: do_lseek_def same_procs_simps)
next
  case True
  from assms(1-3) True show ?thesis
  proof (cases rule: fget_cases)
    case closed
    with True assms(2,4) show ?thesis by (simp add: do_lseek_def same_procs_simps)
  next
    case (opened x fl s1)
    have same: "same_procs s s1" using opened(4) by (simp add: same_procs_simps)
    from True opened(5) assms(4) obtain s2 where s2: "s2 = s1 \<or> (\<exists>np. f_upd x (\<lambda>fl. fl\<lparr>f_pos := np\<rparr>) s1 = Some s2)"
      "fput F x s2 = Some s'"
      by (auto simp: do_lseek_def bind_eq_Some_conv split: if_split_asm)
    have "file_refs V (addc x 1 R) s2 \<and> same_procs s1 s2"
      using s2(1) opened(6) f_upd_refs [OF opened(6)] by (auto simp: same_procs_simps)
    then show ?thesis
      using fput_refs [OF assms(1) _ s2(2)] same same_procs_trans by fastforce
  qed
qed

end
