(* ===== verification/Vfs_Io.thy ===== *)
theory Vfs_Io
  imports Vfs_Files
begin

section \<open>Reading, writing and opening files\<close>

text \<open>
  The remaining calls on file descriptors keep the counts of open files, so that every sequence of
  calls does: \<open>fd_step\<close> is the relation of one call, and the counts are its invariant. The functional
  behaviour of the calls follows: positions, duplicated descriptors, and errors.
\<close>

subsection \<open>Resolving names leaves the tables alone\<close>

lemma frame_okD:
  assumes "frame_ok F"
  shows "op_read F v i n s = Some (r, s') \<Longrightarrow> same_tables s s'"
    and "op_write F v i b s = Some (r', s') \<Longrightarrow> same_tables s s'"
    and "cd_read F v i n s = Some (r, s') \<Longrightarrow> same_tables s s'"
    and "cd_write F v i b s = Some (r', s') \<Longrightarrow> same_tables s s'"
    and "op_readdir F v i s = Some (r', s') \<Longrightarrow> same_tables s s'"
    and "op_lookup F v nm s = Some (l, s') \<Longrightarrow> same_tables s s'"
    and "op_create F v nm s = Some (l, s') \<Longrightarrow> same_tables s s'"
    and "free_respages F v s = Some s' \<Longrightarrow> same_tables s s'"
    and "delete_vnode F = Some del \<Longrightarrow> del v s = Some s' \<Longrightarrow> same_tables s s'"
  using assms unfolding frame_ok_def by meson+

lemma vn_upd_same: "vn_upd v f s = Some s' \<Longrightarrow> same_tables s s'"
  by (auto simp: vn_upd_def bind_eq_Some_conv same_tables_def)

lemma sched_broadcast_on_frame:
  assumes "sched_broadcast_on q s = Some s'"
  shows "sched_st.more s' = sched_st.more s \<and> curproc s' = curproc s"
proof (rule sched_broadcast_on.raw_induct [OF _ assms])
  fix bc :: "qaddr \<Rightarrow> 'b sched_st_scheme \<Rightarrow> 'b sched_st_scheme option" and q s y
  assume IH: "\<And>q s y. bc q s = Some y \<Longrightarrow> sched_st.more y = sched_st.more s \<and> curproc y = curproc s"
  assume "(if \<not> sched_queue_empty q s then do {
        (kthread, s) \<leftarrow> ktqueue_dequeue q s;
        t \<leftarrow> kthread;
        s \<leftarrow> sched_make_runnable t s;
        bc q s
      } else Some s) = Some y"
  then show "sched_st.more y = sched_st.more s \<and> curproc y = curproc s"
    by (auto simp: bind_eq_Some_conv ktqueue_dequeue_def sched_make_runnable_def thr_upd_def ktqueue_enqueue_def
        Let_def split: if_split_asm dest!: IH)
qed

lemma sched_broadcast_on_same:
  assumes "sched_broadcast_on q s = Some s'"
  shows "same_tables s s'"
  using sched_broadcast_on_frame [OF assms] by (cases s; cases s') (simp add: same_tables_def)

lemma vput_free_same:
  assumes "frame_ok F" "vput_free F v s = Some s'"
  shows "same_tables s s'"
proof -
  from assms(2) obtain s1 s2 s3 where s1: "vn_upd v (\<lambda>vn. vn\<lparr>vn_busy := True\<rparr>) s = Some s1"
    and s2: "(case delete_vnode F of Some del \<Rightarrow> del v s1 | None \<Rightarrow> Some s1) = Some s2"
    and s3: "sched_broadcast_on (Vn_waitq v) s2 = Some s3" "same_tables s3 s'"
    by (auto simp: vput_free_def bind_eq_Some_conv same_tables_def split: if_split_asm)
  have "same_tables s1 s2"
    using s2 frame_okD(9) [OF assms(1)] by (cases "delete_vnode F") (auto simp: same_tables_def)
  with vn_upd_same [OF s1] sched_broadcast_on_same [OF s3(1)] s3(2) show ?thesis
    by (blast intro: same_tables_trans)
qed

lemma vput_same:
  assumes "frame_ok F" "vput F v s = Some s'"
  shows "same_tables s s'"
proof -
  from assms(2) obtain s1 s2 where s1: "s1 = s \<or> free_respages F v s = Some s1"
    and s2: "vn_upd v (\<lambda>vn. vn\<lparr>vn_refcount := vn_refcount vn - 1\<rparr>) s1 = Some s2"
    and s': "s' = s2 \<or> vput_free F v s2 = Some s'"
    by (auto simp: vput_def bind_eq_Some_conv split: if_split_asm)
  have "same_tables s s1" using s1 frame_okD(8) [OF assms(1)] by (auto simp: same_tables_def)
  moreover have "same_tables s1 s2" using s2 by (rule vn_upd_same)
  moreover have "same_tables s2 s'" using s' vput_free_same [OF assms(1)] by (auto simp: same_tables_def)
  ultimately show ?thesis by (blast intro: same_tables_trans)
qed

lemma vref_same: "vref v s = Some s' \<Longrightarrow> same_tables s s'"
  by (auto simp: vref_def bind_eq_Some_conv split: if_split_asm dest: vn_upd_same)

lemma same_tables_refl: "same_tables s s"
  by (simp add: same_tables_def)

lemma lookup_same:
  assumes "frame_ok F" "lookup E F d n l s = Some (r, s')"
  shows "same_tables s s'"
  using assms(2)
  by (cases r) (auto simp: lookup_def bind_eq_Some_conv same_tables_refl split: if_split_asm
      dest: frame_okD(6) [OF assms(1)])

text \<open>\<open>framed s0 res\<close>: a run that starts in \<open>s0\<close> and ends with \<open>res\<close> leaves the tables alone.\<close>

definition framed :: "'a vfs_st_scheme \<Rightarrow> ('r \<times> 'a vfs_st_scheme) option \<Rightarrow> bool" where
  "framed s0 res \<longleftrightarrow> (\<forall>r s'. res = Some (r, s') \<longrightarrow> same_tables s0 s')"

lemma framed_simps [simp]:
  "framed s0 None" "framed s0 (Some (r, s')) = same_tables s0 s'"
  "framed s0 (if b then x else y) = (if b then framed s0 x else framed s0 y)"
  by (simp_all add: framed_def)

lemma framed_read: "(\<And>x. m = Some x \<Longrightarrow> framed s0 (f x)) \<Longrightarrow> framed s0 (Option.bind m f)"
  by (cases m) simp_all

lemma framed_state:
  assumes "\<And>s1. m = Some s1 \<Longrightarrow> same_tables s s1" "same_tables s0 s" "\<And>s1. same_tables s0 s1 \<Longrightarrow> framed s0 (f s1)"
  shows "framed s0 (Option.bind m f)"
  using assms by (cases m) (auto intro: same_tables_trans)

lemma framed_call:
  assumes "\<And>x s1. m = Some (x, s1) \<Longrightarrow> same_tables s s1" "same_tables s0 s"
    "\<And>x s1. same_tables s0 s1 \<Longrightarrow> framed s0 (f (x, s1))"
  shows "framed s0 (Option.bind m f)"
proof (cases m)
  case (Some xs)
  obtain x s1 where xs: "xs = (x, s1)" by (cases xs)
  with Some have "same_tables s0 s1" using assms(1,2) by (blast intro: same_tables_trans)
  with Some xs assms(3) show ?thesis by simp
qed simp

lemma framed_vput:
  assumes "frame_ok F" "same_tables s0 s" "\<And>s1. same_tables s0 s1 \<Longrightarrow> framed s0 (f s1)"
  shows "framed s0 (Option.bind (vput F v s) f)"
  using vput_same [OF assms(1)] assms(2,3) by (rule framed_state)

lemma framed_lookup:
  assumes "frame_ok F" "same_tables s0 s" "\<And>x s1. same_tables s0 s1 \<Longrightarrow> framed s0 (f (x, s1))"
  shows "framed s0 (Option.bind (lookup E F d n l s) f)"
  using lookup_same [OF assms(1)] assms(2,3) by (rule framed_call)

lemma framedD: "framed s0 res \<Longrightarrow> res = Some (r, s') \<Longrightarrow> same_tables s0 s'"
  by (simp add: framed_def)

lemma framed_end:
  assumes "frame_ok F" "same_tables s0 s"
  shows "framed s0 (dir_namev_end E F p b c sl rest n l s)"
  unfolding dir_namev_end_def
  by (rule framed_read) (auto intro!: framed_vput [OF assms(1)] simp: assms(2))

lemma framed_loop:
  assumes "frame_ok F" "same_tables s0 s"
  shows "framed s0 (dir_namev_loop E V F p b path s)"
  using assms(2)
proof (induction "length path" arbitrary: p b path s rule: less_induct)
  case less
  have start: "same_tables s0 s1" if "(case p of Some v \<Rightarrow> vput F v s | None \<Rightarrow> Some s) = Some s1" for s1
    using that less.prems vput_same [OF assms(1)] by (cases p) (auto intro: same_tables_trans)
  have IH: "framed s0 (dir_namev_loop E V F (Some b) v (dropWhile is_slash (dropWhile (\<lambda>c. \<not> is_slash c) path)) s1)"
    if "dropWhile is_slash (dropWhile (\<lambda>c. \<not> is_slash c) path) \<noteq> []" "same_tables s0 s1" for v s1
    using less.hyps [OF dropWhile_dropWhile_less [OF that(1)] that(2)] .
  show ?case
  proof (cases "path = [] \<and> p = None")
    case True
    then show ?thesis by (simp add: dir_namev_loop.simps less.prems)
  next
    case False
    show ?thesis
      unfolding dir_namev_loop.simps [of E V F p b path s] if_not_P [OF False] Let_def
      apply (rule framed_read, drule start, unfold framed_simps if_bool_eq_conj, intro conjI impI)
       apply (rule framed_vput [OF assms(1)], assumption, simp)
      apply (rule framed_lookup [OF assms(1)], assumption)
      apply (simp only: split_beta fst_conv snd_conv framed_simps if_bool_eq_conj, intro conjI impI)
        apply (rule framed_vput [OF assms(1)], assumption, simp)
       apply (elim conjE, rule IH, assumption, assumption)
      apply (rule framed_end [OF assms(1)], assumption)
      done
  qed
qed

lemma dir_namev_same:
  assumes "frame_ok F" "dir_namev E V F path base s = Some (r, s')"
  shows "same_tables s s'"
  using assms(2) framedD [OF framed_loop [OF assms(1)]]
  by (cases r) (auto simp: dir_namev_def bind_eq_Some_conv same_tables_refl split: if_split_asm dest!: vref_same)

lemma framed_create:
  assumes "frame_ok F" "same_tables s0 s" "\<And>x s1. same_tables s0 s1 \<Longrightarrow> framed s0 (f (x, s1))"
  shows "framed s0 (Option.bind (op_create F d n s) f)"
  using frame_okD(7) [OF assms(1)] assms(2,3) by (rule framed_call)

lemma framed_open:
  assumes "frame_ok F"
  shows "framed s (open_namev E V F path flag base s)"
  unfolding open_namev_def
  apply (rule framed_call [OF dir_namev_same [OF assms] same_tables_refl], assumption)
  apply (simp only: split_beta fst_conv snd_conv framed_simps if_bool_eq_conj, intro conjI impI, simp)
  apply (rule framed_read, simp only: split_beta, rule framed_lookup [OF assms], assumption)
  apply (simp only: split_beta fst_conv snd_conv framed_simps if_bool_eq_conj, intro conjI impI)
   apply (rule framed_read, simp only: kassert_bind framed_simps if_bool_eq_conj, intro conjI impI)
     apply (rule framed_create [OF assms], assumption)
     apply (simp only: split_beta fst_conv snd_conv, rule framed_vput [OF assms], assumption, simp)
    apply (rule framed_vput [OF assms], assumption, simp)
   apply (simp only: framed_simps)
  apply (rule framed_read, simp only: framed_simps if_bool_eq_conj, intro conjI impI)
   apply (rule framed_read, rule framed_vput [OF assms], assumption)
   apply (rule framed_vput [OF assms], assumption, simp)
  apply (rule framed_vput [OF assms], assumption, simp)
  done

lemmas open_namev_same = framedD [OF framed_open]

subsection \<open>Reading and writing\<close>

lemma vop_read_same:
  assumes "frame_ok F" "vop_read E F v i n s = Some (r, s')"
  shows "same_tables s s'"
proof -
  obtain vn where vn: "vnodes s v = Some vn" using assms(2) by (auto simp: vop_read_def bind_eq_Some_conv)
  show ?thesis
    using assms(2) vn frame_okD(1,3) [OF assms(1)]
    by (cases r; cases "vn_ops vn")
      (auto simp: vop_read_def special_file_read_def bind_eq_Some_conv same_tables_refl split: if_split_asm)
qed

lemma vop_write_same:
  assumes "frame_ok F" "vop_write E F v i b s = Some (r, s')"
  shows "same_tables s s'"
proof -
  obtain vn where vn: "vnodes s v = Some vn" using assms(2) by (auto simp: vop_write_def bind_eq_Some_conv)
  show ?thesis
    using assms(2) vn frame_okD(2,4) [OF assms(1)]
    by (cases "vn_ops vn")
      (auto simp: vop_write_def special_file_write_def bind_eq_Some_conv same_tables_refl split: if_split_asm)
qed

text \<open>\<open>counted V R res\<close>: a run that ends with \<open>res\<close> leaves the counts right.\<close>

definition counted :: "vconf \<Rightarrow> (ptr \<Rightarrow> int) \<Rightarrow> ('r \<times> 'a vfs_st_scheme) option \<Rightarrow> bool" where
  "counted V R res \<longleftrightarrow> (\<forall>r s'. res = Some (r, s') \<longrightarrow> file_refs V R s')"

lemma counted_simps [simp]:
  "counted V R None" "counted V R (Some (r, s')) = file_refs V R s'"
  "counted V R (if b then x else y) = (if b then counted V R x else counted V R y)"
  by (simp_all add: counted_def)

lemma countedD: "counted V R res \<Longrightarrow> res = Some (r, s') \<Longrightarrow> file_refs V R s'"
  by (simp add: counted_def)

lemma counted_read: "(\<And>x. m = Some x \<Longrightarrow> counted V R (f x)) \<Longrightarrow> counted V R (Option.bind m f)"
  by (cases m) simp_all

lemma counted_call:
  assumes "\<And>x s1. m = Some (x, s1) \<Longrightarrow> file_refs V R' s1" "\<And>x s1. file_refs V R' s1 \<Longrightarrow> counted V R (f (x, s1))"
  shows "counted V R (Option.bind m f)"
  using assms by (cases m) auto

lemma counted_fput:
  assumes "file_ok F" "file_refs V (addc x 1 R) s" "\<And>s1. file_refs V R s1 \<Longrightarrow> counted V R (f s1)"
  shows "counted V R (Option.bind (fput F x s) f)"
proof (cases "fput F x s")
  case (Some a)
  from fput_refs [OF assms(1,2) this] have "file_refs V R a" by simp
  with Some assms(3) show ?thesis by simp
qed simp

lemma file_refs_lseek:
  assumes "file_ok F" "\<And>x. 0 \<le> R x" "file_refs V (addc y 1 R) s" "do_lseek E V F fd off wh s = Some (r, s')"
  shows "file_refs V (addc y 1 R) s'"
proof -
  have "0 \<le> addc y 1 R x" for x using assms(2) [of x] by (simp add: addc_apply)
  with do_lseek_refs [OF assms(1,3) _ assms(4)] show ?thesis by blast
qed

lemma file_refs_vop_read: "frame_ok F \<Longrightarrow> file_refs V R s \<Longrightarrow> vop_read E F v i n s = Some (r, s') \<Longrightarrow> file_refs V R s'"
  using file_refs_same(1) vop_read_same by blast

lemma file_refs_vop_write: "frame_ok F \<Longrightarrow> file_refs V R s \<Longrightarrow> vop_write E F v i b s = Some (r, s') \<Longrightarrow> file_refs V R s'"
  using file_refs_same(1) vop_write_same by blast

lemma file_refs_readdir: "frame_ok F \<Longrightarrow> file_refs V R s \<Longrightarrow> op_readdir F v i s = Some (r, s') \<Longrightarrow> file_refs V R s'"
  using file_refs_same(1) frame_okD(5) by blast

lemma do_read_refs:
  assumes "file_ok F" "frame_ok F" "file_refs V R s" "\<And>x. 0 \<le> R x"
  shows "counted V R (do_read E V F fd n s)"
proof (cases "fd_valid V fd")
  case False
  with assms(3) show ?thesis by (simp add: do_read_def)
next
  case True
  from assms(1,3,4) True show ?thesis
  proof (cases rule: fget_cases)
    case closed
    with True assms(3) show ?thesis by (simp add: do_read_def)
  next
    case (opened x fl s1)
    show ?thesis
      using True opened(5,6) unfolding do_read_def
      apply simp
      apply (rule counted_read, simp only: counted_simps if_bool_eq_conj, intro conjI impI)
       apply (rule counted_read, rule counted_read, simp only: counted_simps if_bool_eq_conj, intro conjI impI)
        apply (rule counted_call, rule file_refs_vop_read [OF assms(2)], assumption, assumption)
        apply (simp only: split_beta fst_conv snd_conv Let_def)
        apply (rule counted_call [where R' = "addc x 1 R"])
         apply (auto split: if_split_asm dest: file_refs_lseek [OF assms(1,4)])[1]
        apply (simp only: split_beta fst_conv snd_conv)
        apply (rule counted_fput [OF assms(1)], assumption, simp)
       apply (rule counted_fput [OF assms(1)], assumption, simp)
      apply (rule counted_fput [OF assms(1)], assumption, simp)
      done
  qed
qed

lemma do_write_refs:
  assumes "file_ok F" "frame_ok F" "file_refs V R s" "\<And>x. 0 \<le> R x"
  shows "counted V R (do_write E V F fd b s)"
proof (cases "fd_valid V fd")
  case False
  with assms(3) show ?thesis by (simp add: do_write_def)
next
  case True
  from assms(1,3,4) True show ?thesis
  proof (cases rule: fget_cases)
    case closed
    with True assms(3) show ?thesis by (simp add: do_write_def)
  next
    case (opened x fl s1)
    show ?thesis
      using True opened(5,6) unfolding do_write_def
      apply simp
      apply (rule counted_read, simp only: counted_simps if_bool_eq_conj, intro conjI impI)
       apply (rule counted_read, rule counted_read, simp only: counted_simps if_bool_eq_conj, intro conjI impI)
        apply (rule counted_call [where R' = "addc x 1 R"])
         apply (auto split: if_split_asm dest: file_refs_lseek [OF assms(1,4)])[1]
        apply (simp only: split_beta fst_conv snd_conv, rule counted_read)
        apply (rule counted_call [where R' = "addc x 1 R"], rule file_refs_vop_write [OF assms(2)], assumption, assumption)
        apply (simp only: split_beta fst_conv snd_conv)
        apply (rule counted_call [where R' = "addc x 1 R"])
         apply (auto simp: bind_eq_Some_conv split: if_split_asm dest: file_refs_lseek [OF assms(1,4)])[1]
        apply (simp only: split_beta fst_conv snd_conv)
        apply (rule counted_fput [OF assms(1)], assumption, simp)
       apply (rule counted_fput [OF assms(1)], assumption, simp)
      apply (rule counted_fput [OF assms(1)], assumption, simp)
      done
  qed
qed

lemma do_getdent_refs:
  assumes "file_ok F" "frame_ok F" "file_refs V R s" "\<And>x. 0 \<le> R x"
  shows "counted V R (do_getdent E V F fd s)"
proof (cases "fd_valid V fd")
  case False
  with assms(3) show ?thesis by (simp add: do_getdent_def)
next
  case True
  from assms(1,3,4) True show ?thesis
  proof (cases rule: fget_cases)
    case closed
    with True assms(3) show ?thesis by (simp add: do_getdent_def)
  next
    case (opened x fl s1)
    show ?thesis
      using True opened(5,6) unfolding do_getdent_def
      apply simp
      apply (rule counted_read, rule counted_read, rule counted_read)
      apply (simp only: counted_simps if_bool_eq_conj, intro conjI impI)
       apply (rule counted_call, rule file_refs_readdir [OF assms(2)], assumption, assumption)
       apply (simp only: split_beta fst_conv snd_conv counted_simps if_bool_eq_conj, intro conjI impI)
        apply (rule counted_fput [OF assms(1)], assumption, simp)
       apply (rule counted_call [where R' = "addc x 1 R"], rule file_refs_lseek [OF assms(1,4)], assumption, assumption)
       apply (simp only: split_beta fst_conv snd_conv)
       apply (rule counted_fput [OF assms(1)], assumption, simp)
      apply (rule counted_fput [OF assms(1)], assumption, simp)
      done
  qed
qed

subsection \<open>Opening\<close>

lemma fget_fresh_refs:
  assumes "file_refs V R s" "files s x = None" "f_refcount fl = 1"
  shows "file_refs V (addc x 1 R) (s\<lparr>files := (files s)(x \<mapsto> fl)\<rparr>)"
proof -
  obtain fs where fs: "cur_files s = Some fs" "length fs = NFILES V" "count_ok (files s) (\<lambda>x. refs_at fs x + R x)"
    using assms(1) by (auto simp: file_refs_def)
  from count_okD(1) [OF fs(3) assms(2)] have "refs_at fs x + R x = 0" .
  with fs(3) assms(3) have "count_ok ((files s)(x \<mapsto> fl)) (\<lambda>y. refs_at fs y + addc x 1 R y)"
    by (auto simp: count_ok_def addc_apply)
  with fs show ?thesis by (simp add: file_refs_def)
qed

definition fresh_at :: "vconf \<Rightarrow> (ptr \<Rightarrow> int) \<Rightarrow> int \<Rightarrow> ptr \<Rightarrow> 'a vfs_st_scheme \<Rightarrow> bool" where
  "fresh_at V R fd x s \<longleftrightarrow> file_refs V R s \<and> fd_get fd s = Some (Some x) \<and> (\<exists>fl. files s x = Some fl \<and> f_refcount fl = 1)"

lemma fresh_at_same: "same_tables s s' \<Longrightarrow> fresh_at V R fd x s \<Longrightarrow> fresh_at V R fd x s'"
  using file_refs_same [of s s'] by (auto simp: fresh_at_def same_tables_def)

lemma fresh_at_mode:
  assumes "fresh_at V R fd x s" "f_upd x (\<lambda>fl. fl\<lparr>f_mode := m\<rparr>) s = Some s'"
  shows "fresh_at V R fd x s'"
proof -
  note r = f_upd_refs [OF _ assms(2), of V R, simplified]
  have "files s' x = map_option (\<lambda>fl. fl\<lparr>f_mode := m\<rparr>) (files s x)"
    using assms(2) by (auto simp: f_upd_def bind_eq_Some_conv)
  with assms(1) r same_procs_fds(2) [of s s' fd] show ?thesis by (auto simp: fresh_at_def)
qed

lemma fresh_at_install:
  assumes "file_refs V R s" "files s x = None" "f_refcount fl = 1" "fd_get fd s = Some None"
    and "fd_set fd (Some x) (s\<lparr>files := (files s)(x \<mapsto> fl)\<rparr>) = Some s'"
  shows "fresh_at V R fd x s'"
proof -
  let ?s = "s\<lparr>files := (files s)(x \<mapsto> fl)\<rparr>"
  have g: "fd_get fd ?s = Some None" using assms(4) by simp
  note r = fd_set_refs [OF fget_fresh_refs [OF assms(1-3)] g assms(5)]
  show ?thesis using r assms(3) by (simp add: fresh_at_def)
qed

lemma fresh_at_undo:
  assumes "file_ok F" "fresh_at V R fd x s"
  shows "fput F x s = Some s1 \<Longrightarrow> fd_set fd None s1 = Some s2 \<Longrightarrow> file_refs V R s2"
    and "fd_set fd None s = Some s1 \<Longrightarrow> fput F x s1 = Some s2 \<Longrightarrow> file_refs V R s2"
proof -
  have s: "file_refs V R s" "fd_get fd s = Some (Some x)" using assms(2) by (simp_all add: fresh_at_def)
  {
    assume a: "fput F x s = Some s1" "fd_set fd None s1 = Some s2"
    note p = fput_refs [OF assms(1) s(1) a(1)]
    have "fd_get fd s1 = Some (Some x)" using s(2) same_procs_fds(2) [OF conjunct2 [OF p]] by simp
    from fd_set_refs(1) [OF conjunct1 [OF p] this a(2)] show "file_refs V R s2" by simp
  next
    assume a: "fd_set fd None s = Some s1" "fput F x s1 = Some s2"
    have "file_refs V (addc x 1 R) s1" using fd_set_refs(1) [OF s a(1)] by simp
    from fput_refs [OF assms(1) this a(2)] show "file_refs V R s2" by simp
  }
qed

lemma fresh_at_fill:
  assumes "fresh_at V R fd x s" "f_upd x (\<lambda>fl. fl\<lparr>f_pos := 0, f_refcount := 1, f_vnode := v\<rparr>) s = Some s'"
  shows "file_refs V R s'"
proof -
  have "file_refs V R s" using assms(1) by (simp add: fresh_at_def)
  from f_upd_refs [OF this assms(2)] assms(1) show ?thesis by (auto simp: fresh_at_def)
qed

lemma counted_open:
  assumes "frame_ok F" "fresh_at V R fd x s" "\<And>c v s1. fresh_at V R fd x s1 \<Longrightarrow> counted V R (f ((c, v), s1))"
  shows "counted V R (Option.bind (open_namev E V F path flag base s) f)"
proof (rule counted_read)
  fix y assume o: "open_namev E V F path flag base s = Some y"
  obtain c v s1 where y: "y = ((c, v), s1)" by (metis prod.collapse)
  with o have "same_tables s s1" using open_namev_same [OF assms(1)] by blast
  from fresh_at_same [OF this assms(2)] show "counted V R (f y)" unfolding y by (rule assms(3))
qed

lemma do_open_refs:
  assumes "errno_ok E" "file_ok F" "frame_ok F" "file_refs V R s"
  shows "counted V R (do_open E V F name oflags s)"
proof -
  have start': "fresh_at V R fd x s2"
    if "curproc s = Some p" "get_empty_fd E V p s = Some fd" "fd \<noteq> - E EMFILE" "files s x = None" "f_refcount fl = 1"
      "fd_set fd (Some x) (s\<lparr>files := (files s)(x \<mapsto> fl)\<rparr>) = Some s2" for p fd x fl s2
    using fresh_at_install [OF assms(4) that(4,5) _ that(6)] get_empty_fd_free [OF assms(1) that(1-3)] by blast
  from assms(2) show ?thesis
  proof (cases rule: fget_fresh [where s = s])
    case full
    then show ?thesis
      unfolding do_open_def Let_def
      by (auto simp: assms(4) intro!: counted_read)
  next
    case (fresh x fl)
    note start = start' [OF _ _ _ fresh(1,2)]
    show ?thesis
      unfolding do_open_def Let_def
      apply (simp only: counted_simps if_bool_eq_conj, intro conjI impI, rule assms(4))
      apply (rule counted_read, rule counted_read)
      apply (simp only: counted_simps if_bool_eq_conj, intro conjI impI, rule assms(4))
      apply (simp only: fresh(3) Option.bind.simps split_beta fst_conv snd_conv option.case)
      apply (rule counted_read, drule (3) start)
      apply (simp only: counted_simps if_bool_eq_conj, intro conjI impI)
       apply (rule counted_read, drule (1) fresh_at_mode)
       apply (rule counted_read, rule counted_read, simp only: counted_simps)
       apply (rule fresh_at_undo(1) [OF assms(2)], assumption+)
      apply (rule counted_read, drule (1) fresh_at_mode)
      apply (rule counted_open [OF assms(3)], assumption)
      apply (simp only: prod.case counted_simps if_bool_eq_conj, intro conjI impI)
       apply (rule counted_read, rule counted_read, simp only: counted_simps)
       apply (rule fresh_at_undo(2) [OF assms(2), rotated], assumption+)
      apply (rule counted_read, simp only: counted_simps)
      apply (rule fresh_at_fill [rotated], assumption+)
      done
  qed
qed

end
