(* ===== verification/Vfs_Props.thy ===== *)
theory Vfs_Props
  imports Vfs_Io
begin

section \<open>Properties of the virtual file system\<close>

text \<open>
  The properties of path names and file descriptors, and a small in-memory file system \<open>demo_fs\<close> with a
  state \<open>vdemo\<close> on which they are evaluated: the root directory (vnode 1) has the directory
  \<^verbatim>\<open>bin\<close> (2), which has the regular file \<^verbatim>\<open>ls\<close> (3); descriptor 0 of the process is open on that file.
\<close>

subsection \<open>An in-memory file system\<close>

definition demo_child :: "ptr \<Rightarrow> string \<Rightarrow> ptr option" where
  "demo_child d name = (if name = ''.'' then Some d else if d = 1 \<and> name = ''bin'' then Some 2
     else if d = 2 \<and> name = ''ls'' then Some 3 else None)"

definition demo_get :: "ptr option \<Rightarrow> vfs_st \<Rightarrow> ((int \<times> ptr option) \<times> vfs_st) option" where
  "demo_get child s = (case child of None \<Rightarrow> Some ((- 2, None), s)
     | Some v \<Rightarrow> (case vnodes s v of None \<Rightarrow> Some ((- 2, None), s)
        | Some vn \<Rightarrow> Some ((0, Some v), s\<lparr>vnodes := (vnodes s)(v \<mapsto> vn\<lparr>vn_refcount := vn_refcount vn + 1\<rparr>)\<rparr>)))"

definition demo_free :: "ptr \<Rightarrow> vfs_st \<Rightarrow> vfs_st option" where
  "demo_free v s = vn_upd v (\<lambda>vn. vn\<lparr>vn_refcount := vn_refcount vn - vn_nrespages vn, vn_nrespages := 0\<rparr>) s"

definition demo_fget :: "int \<Rightarrow> vfs_st \<Rightarrow> (ptr option \<times> vfs_st) option" where
  "demo_fget fd s = (if fd = - 1 then
       (if files s 21 \<noteq> None then Some (None, s)
        else Some (Some 21, s\<lparr>files := (files s)(21 \<mapsto> \<lparr>f_pos = 0, f_mode = 0, f_refcount = 1, f_vnode = None\<rparr>)\<rparr>))
     else do {
       f \<leftarrow> fd_get fd s;
       case f of None \<Rightarrow> Some (None, s)
       | Some x \<Rightarrow> do {
           fl \<leftarrow> files s x;
           Some (Some x, s\<lparr>files := (files s)(x \<mapsto> fl\<lparr>f_refcount := f_refcount fl + 1\<rparr>)\<rparr>)
         }
     })"

definition demo_fput :: "ptr \<Rightarrow> vfs_st \<Rightarrow> vfs_st option" where
  "demo_fput x s = do {
     fl \<leftarrow> files s x;
     if 1 < f_refcount fl then Some (s\<lparr>files := (files s)(x \<mapsto> fl\<lparr>f_refcount := f_refcount fl - 1\<rparr>)\<rparr>)
     else Some (s\<lparr>files := (files s)(x := None)\<rparr>)
   }"

definition demo_fs :: "vfs_st fs_ext" where
  "demo_fs = \<lparr>fget = demo_fget, fput = demo_fput,
     op_read = \<lambda>v i n s. Some ((- 5, []), s), op_write = \<lambda>v i b s. Some (- 5, s),
     op_lookup = \<lambda>d n. demo_get (demo_child d n), op_create = \<lambda>d n s. Some ((- 5, None), s),
     op_mknod = \<lambda>d n m i s. Some (- 5, s), op_mkdir = \<lambda>d n s. Some (- 5, s), op_rmdir = \<lambda>d n s. Some (- 5, s),
     op_unlink = \<lambda>d n s. Some (- 5, s), op_link = \<lambda>v d n s. Some (- 5, s), op_readdir = \<lambda>v i s. Some (0, s),
     op_stat = \<lambda>t v s. Some (0, s), read_vnode = \<lambda>v s. Some s, query_vnode = \<lambda>v s. True,
     delete_vnode = None, name_match = \<lambda>f n l. length f = l \<and> take l f = take l n, free_respages = demo_free, vn_mmobj_init = \<lambda>v s. s,
     bytedev_lookup = \<lambda>i. None, blockdev_lookup = \<lambda>i. None,
     cd_read = \<lambda>v i n s. Some ((- 5, []), s), cd_write = \<lambda>v i b s. Some (- 5, s)\<rparr>"

definition demo_conf :: vconf where
  "demo_conf = \<lparr>NFILES = 3, NAME_LEN = 28, MAXPATHLEN = 1024, O_RDONLY = 0, O_WRONLY = 1, O_RDWR = 2, O_CREAT = 256,
     O_APPEND = 1024, FMODE_READ = 1, FMODE_WRITE = 2, FMODE_APPEND = 4, SEEK_SET = 0, SEEK_CUR = 1, SEEK_END = 2,
     DIRENT_SIZE = 40\<rparr>"

definition dir_vops :: vnode_ops where
  "dir_vops = Fs_vops {Op_create, Op_mknod, Op_lookup, Op_link, Op_unlink, Op_mkdir, Op_rmdir, Op_readdir, Op_stat}"

definition reg_vops :: vnode_ops where
  "reg_vops = Fs_vops {Op_read, Op_write, Op_stat}"

definition demo_vnode :: "mode_t \<Rightarrow> vnode_ops \<Rightarrow> int \<Rightarrow> vnode" where
  "demo_vnode m ops n = \<lparr>vn_ops = ops, vn_fs = 50, vn_vno = n, vn_mode = m, vn_len = 100, vn_devid = 0, vn_cdev = None,
     vn_bdev = None, vn_refcount = 2, vn_nrespages = 0, vn_busy = False\<rparr>"

definition demo_proc :: proc where
  "demo_proc = \<lparr>p_pid = 1, p_comm = ''init'', p_threads = [], p_children = [], p_pproc = None, p_status = 0,
     p_state = PROC_RUNNING, p_pagedir = None, p_child_link = None, p_files = [Some 20, None, None], p_cwd = Some 1,
     p_vmmap = None, p_start_brk = 0, p_brk = 0\<rparr>"

definition vdemo :: vfs_st where
  "vdemo = \<lparr>threads = \<lambda>t. None, queues = \<lambda>q. \<lparr>tq_list = [], tq_size = 0\<rparr>, curthr = None, curproc = Some 10,
     ipl = IPL_LOW, km_holder = \<lambda>m. None, procs = [10 \<mapsto> demo_proc], proc_list = [10], proc_initproc = Some 10,
     next_pid = 2, files = [20 \<mapsto> \<lparr>f_pos = 5, f_mode = 1, f_refcount = 1, f_vnode = Some 3\<rparr>],
     vnodes = [1 \<mapsto> demo_vnode S_IFDIR dir_vops 1, 2 \<mapsto> demo_vnode S_IFDIR dir_vops 2, 3 \<mapsto> demo_vnode S_IFREG reg_vops 3],
     vnode_inuse_list = [1, 2, 3], vfs_root_vn = Some 1, fs_root = [50 \<mapsto> 1]\<rparr>"

lemma demo_get_finds: "finds d (demo_get c)"
  unfolding finds_def
proof (intro allI impI)
  fix s :: vfs_st assume s: "vfs_ok s" "0 < arc s d"
  show "\<exists>r out s'. demo_get c s = Some ((r, out), s') \<and> kind s' d = kind s d \<and>
    (r = 0 \<and> (\<exists>v. out = Some v \<and> effect (addc v 1 (arc s)) s s') \<or> r < 0 \<and> out = None \<and> effect (arc s) s s')"
  proof (cases "\<exists>v vn. c = Some v \<and> vnodes s v = Some vn")
    case True
    then obtain v vn where v: "c = Some v" "vnodes s v = Some vn" by blast
    let ?s = "s\<lparr>vnodes := (vnodes s)(v \<mapsto> vn\<lparr>vn_refcount := vn_refcount vn + 1\<rparr>)\<rparr>"
    have "arc ?s = addc v 1 (arc s)" using v by (simp add: fun_eq_iff arc_def addc_def)
    moreover have "vnode_ok (vn\<lparr>vn_refcount := vn_refcount vn + 1\<rparr>)"
      using vfs_okD [OF s(1) v(2)] by (simp add: vnode_ok_def table_ok_def)
    then have "vfs_ok ?s" using s(1) by (simp add: vfs_ok_def)
    ultimately have "effect (addc v 1 (arc s)) s ?s" by (simp add: effect_def same_tables_def)
    moreover have "same_tables s ?s" by (simp add: same_tables_def)
    moreover have "kind ?s d = kind s d" using v by (simp add: kind_def)
    ultimately show ?thesis using v by (auto simp: demo_get_def effect_def)
  next
    case False
    then show ?thesis using s(1) by (auto simp: demo_get_def effect_refl split: option.splits)
  qed
qed

lemma demo_free_ok:
  assumes "vfs_ok s" "arc s v = 1"
  shows "\<exists>s'. demo_free v s = Some s' \<and> effect (arc s) s s' \<and> (\<forall>vn. vnodes s' v = Some vn \<longrightarrow> vn_nrespages vn = 0)
    \<and> kind s' = kind s"
proof -
  have "0 < arc s v" using assms(2) by simp
  then obtain vn where vn: "vnodes s v = Some vn" by (rule arc_pos_vnode)
  let ?vn = "vn\<lparr>vn_refcount := vn_refcount vn - vn_nrespages vn, vn_nrespages := 0\<rparr>"
  let ?s = "s\<lparr>vnodes := (vnodes s)(v \<mapsto> ?vn)\<rparr>"
  have "arc ?s = arc s" using vn by (simp add: fun_eq_iff arc_def)
  moreover have "vnode_ok ?vn"
    using vfs_okD [OF assms(1) vn] vn assms(2) by (simp add: vnode_ok_def table_ok_def arc_def)
  then have "vfs_ok ?s" using assms(1) by (simp add: vfs_ok_def)
  moreover have "kind ?s = kind s" using vn by (simp add: kind_def fun_eq_iff)
  ultimately show ?thesis using vn by (simp add: demo_free_def vn_upd_def effect_def same_tables_def)
qed

lemma demo_fs_ok: "fs_ok demo_fs"
proof -
  have q: "quiet d (\<lambda>s. Some (r, s))" for d r by (auto simp: quiet_def effect_refl)
  have f: "finds d (\<lambda>s. Some ((- 5, None), s))" for d by (auto simp: finds_def effect_refl)
  show ?thesis
    unfolding fs_ok_def by (simp add: demo_fs_def q f demo_get_finds demo_free_ok)
qed

lemma demo_frame_ok: "frame_ok demo_fs"
  by (auto simp: frame_ok_def demo_fs_def same_tables_def demo_get_def demo_free_def vn_upd_def bind_eq_Some_conv
      split: option.splits)

lemma demo_file_ok: "file_ok demo_fs"
proof -
  have "\<exists>x fl. files s x = None \<and> f_refcount fl = 1 \<and> demo_fget (- 1) s = Some (Some x, s\<lparr>files := (files s)(x \<mapsto> fl)\<rparr>)"
    if "files s 21 = None" for s
  proof (intro exI conjI)
    show "files s 21 = None" by (rule that)
    show "demo_fget (- 1) s = Some (Some 21,
        s\<lparr>files := (files s)(21 \<mapsto> \<lparr>f_pos = 0, f_mode = 0, f_refcount = 1, f_vnode = None\<rparr>)\<rparr>)"
      using that by (simp add: demo_fget_def)
  qed simp
  moreover have "demo_fget (- 1) s = Some (None, s)" if "files s 21 \<noteq> None" for s
    using that by (simp add: demo_fget_def)
  ultimately have "demo_fget (- 1) s = Some (None, s) \<or> (\<exists>x fl. files s x = None \<and> f_refcount fl = 1 \<and>
      demo_fget (- 1) s = Some (Some x, s\<lparr>files := (files s)(x \<mapsto> fl)\<rparr>))" for s
    by (cases "files s 21 = None") auto
  moreover have "fd_get (- 1) s = None" for s :: vfs_st by (cases "cur_files s") (simp_all add: fd_get_def)
  moreover have "fd \<noteq> - 1" if "fd_get fd s = Some y" for fd y and s :: vfs_st
    using that by (cases "cur_files s") (auto simp: fd_get_def)
  ultimately show ?thesis
    unfolding file_ok_def
    by (intro conjI) (auto simp: demo_fs_def demo_fget_def [of "fd" for fd] demo_fput_def split: if_split_asm)
qed

lemma vdemo_ok: "vfs_ok vdemo"
  by (auto simp: vfs_ok_def vdemo_def sched_inv_def qwf_def twf_def vnode_ok_def table_ok_def demo_vnode_def
      has_op_def dir_vops_def reg_vops_def S_ISDIR_def split: if_split_asm)

lemma vdemo_arc: "arc vdemo 1 = 2" "arc vdemo 2 = 2" "arc vdemo 3 = 2"
  by (simp_all add: arc_def vdemo_def demo_vnode_def)

lemma vdemo_pos: "0 < arc vdemo 1"
  by (simp add: arc_def vdemo_def demo_vnode_def)

lemma vdemo_refs: "file_refs demo_conf (\<lambda>x. 0) vdemo"
  by (auto simp: file_refs_def cur_files_def vdemo_def demo_proc_def demo_conf_def count_ok_def refs_at_def split: if_split_asm)

subsection \<open>Path names\<close>

text \<open>
  C8: \<^verbatim>\<open>dir_namev\<close> resolves a path name as the walk over its list of components does: it takes a reference
  on the directory where the path starts (the root for an absolute path, else the given base, else the
  current directory), looks up the components from left to right, and returns the directory and the
  name of the last one, whatever the number and place of the slashes. The two agree on every error
  and on the final state.
\<close>

theorem dir_namev_walks:
  assumes "errno_ok E" "fs_ok F" "vfs_ok s" "path \<noteq> []" "start_dir path base s = Some d" "0 < arc s d"
    and "vref d s = Some s1"
  shows "named (dir_namev E V F path base s) = dir_walk E V F (is_slash (last path)) d (components path) s1"
proof -
  have "effect (addc d 1 (arc s)) s s1"
    using vref_effect [OF assms(3,6)] assms(7) by (metis option.inject)
  then have "vfs_ok s1" "0 < arc s1 d" using assms(6) by (simp_all add: effect_def addc_apply)
  from dir_namev_loop_named [OF assms(1,2,4) this] show ?thesis
    using assms(4,5,7) by (simp add: dir_namev_def start_dir_def)
qed

lemma vdemo_start: "start_ok ''/bin//ls/'' None vdemo" "start_dir ''/bin//ls/'' None vdemo = Some 1"
  using vdemo_pos by (simp_all add: start_ok_def start_dir_def is_slash_def vdemo_def is_dir_def demo_vnode_def S_ISDIR_def)

theorem dir_namev_walks_witness:
  "components ''/bin//ls/'' = [''bin'', ''ls''] \<and> (\<exists>s1. vref 1 vdemo = Some s1 \<and>
     named (dir_namev errno_std demo_conf demo_fs ''/bin//ls/'' None vdemo)
       = dir_walk errno_std demo_conf demo_fs True 1 [''bin'', ''ls''] s1)"
proof -
  obtain s1 where s1: "vref 1 vdemo = Some s1" by (rule vref_effect [OF vdemo_ok vdemo_pos])
  have c: "components ''/bin//ls/'' = [''bin'', ''ls'']" by (simp add: components_def is_slash_def)
  have "named (dir_namev errno_std demo_conf demo_fs ''/bin//ls/'' None vdemo)
      = dir_walk errno_std demo_conf demo_fs (is_slash (last ''/bin//ls/'')) 1 (components ''/bin//ls/'') s1"
    by (rule dir_namev_walks [OF errno_std_ok demo_fs_ok vdemo_ok _ vdemo_start(2) vdemo_pos s1]) simp
  with s1 c show ?thesis by (simp add: is_slash_def)
qed

text \<open>
  C10: the calls on path names give back every reference they take, on each of their error paths too:
  \<^verbatim>\<open>do_mknod\<close>, \<^verbatim>\<open>do_mkdir\<close>, \<^verbatim>\<open>do_rmdir\<close> and \<^verbatim>\<open>do_unlink\<close> return, and leave the count of every vnode (its
  references that are not held by resident pages) and the tables of files and processes as they were.
  The same holds of \<^verbatim>\<open>do_stat\<close> when it returns.
\<close>

theorem path_calls_balanced:
  assumes "errno_ok E" "fs_ok F" "vfs_ok s" "path = [] \<or> start_ok path None s"
  shows "balanced (do_mknod E V F path mode devid) s \<and> balanced (do_mkdir E V F path) s
    \<and> balanced (do_rmdir E V F path) s \<and> balanced (do_unlink E V F path) s
    \<and> (\<forall>r s'. do_stat E V F path s = Some (r, s') \<longrightarrow> effect (arc s) s s')"
  using do_mknod_balanced [OF assms] do_mkdir_balanced [OF assms] do_rmdir_balanced [OF assms]
    do_unlink_balanced [OF assms] do_stat_balanced [OF assms] by blast

theorem path_calls_balanced_witness:
  "balanced (do_unlink errno_std demo_conf demo_fs ''/bin//ls/'') vdemo"
  using path_calls_balanced [OF errno_std_ok demo_fs_ok vdemo_ok, of "''/bin//ls/''" demo_conf] vdemo_start by blast

text \<open>
  C33: \<^verbatim>\<open>open_namev\<close> returns; on success it holds exactly one new reference, on the vnode it returns, and on
  failure none. This covers the creation of a missing file under \<^verbatim>\<open>O_CREAT\<close> and the error for a directory
  opened for writing.
\<close>

theorem open_namev_one_ref:
  assumes "errno_ok E" "fs_ok F" "vfs_ok s" "path = [] \<or> start_ok path base s"
  shows "\<exists>r out s'. open_namev E V F path flag base s = Some ((r, out), s') \<and>
    (r = 0 \<and> (\<exists>v. out = Some v \<and> effect (addc v 1 (arc s)) s s') \<or> r < 0 \<and> effect (arc s) s s')"
  using assms by (cases rule: open_namev_result [where V = V and flag = flag]) auto

theorem open_namev_one_ref_witness:
  "\<exists>r out s'. open_namev errno_std demo_conf demo_fs ''/bin//ls/'' 256 None vdemo = Some ((r, out), s') \<and>
    (r = 0 \<and> (\<exists>v. out = Some v \<and> effect (addc v 1 (arc vdemo)) vdemo s') \<or> r < 0 \<and> effect (arc vdemo) vdemo s')"
  by (rule open_namev_one_ref [OF errno_std_ok demo_fs_ok vdemo_ok]) (simp add: vdemo_start)

subsection \<open>File descriptors\<close>

definition env_ok :: "(errno \<Rightarrow> int) \<Rightarrow> 'a vfs_st_scheme fs_ext \<Rightarrow> bool" where
  "env_ok E F \<longleftrightarrow> errno_ok E \<and> file_ok F \<and> frame_ok F"

text \<open>One call on descriptors, by the current process.\<close>

inductive fd_step :: "(errno \<Rightarrow> int) \<Rightarrow> vconf \<Rightarrow> 'a vfs_st_scheme fs_ext \<Rightarrow> 'a vfs_st_scheme \<Rightarrow> 'a vfs_st_scheme \<Rightarrow> bool"
  for E V F where
  fd_close: "env_ok E F \<Longrightarrow> do_close E V F fd s = Some (r, s') \<Longrightarrow> fd_step E V F s s'"
| fd_dup: "env_ok E F \<Longrightarrow> do_dup E V F fd s = Some (r, s') \<Longrightarrow> fd_step E V F s s'"
| fd_dup2: "env_ok E F \<Longrightarrow> do_dup2 E V F fd nfd s = Some (r, s') \<Longrightarrow> fd_step E V F s s'"
| fd_lseek: "env_ok E F \<Longrightarrow> do_lseek E V F fd off wh s = Some (r, s') \<Longrightarrow> fd_step E V F s s'"
| fd_read: "env_ok E F \<Longrightarrow> do_read E V F fd n s = Some (x, s') \<Longrightarrow> fd_step E V F s s'"
| fd_write: "env_ok E F \<Longrightarrow> do_write E V F fd b s = Some (r, s') \<Longrightarrow> fd_step E V F s s'"
| fd_getdent: "env_ok E F \<Longrightarrow> do_getdent E V F fd s = Some (r, s') \<Longrightarrow> fd_step E V F s s'"
| fd_open: "env_ok E F \<Longrightarrow> do_open E V F name fl s = Some (r, s') \<Longrightarrow> fd_step E V F s s'"

definition fd_inv :: "vconf \<Rightarrow> (ptr \<Rightarrow> int) \<Rightarrow> 'a vfs_st_scheme \<Rightarrow> bool" where
  "fd_inv V R s \<longleftrightarrow> file_refs V R s \<and> (\<forall>x. 0 \<le> R x)"

lemma fd_step_inv: "fd_inv V R s \<Longrightarrow> fd_step E V F s s' \<Longrightarrow> fd_inv V R s'"
  unfolding fd_inv_def env_ok_def
  by (erule fd_step.cases)
    (auto simp: env_ok_def dest: do_close_refs do_dup_refs do_dup2_refs do_lseek_refs
      countedD [OF do_read_refs] countedD [OF do_write_refs] countedD [OF do_getdent_refs] countedD [OF do_open_refs])

interpretation fds: step_system "fd_step E V F" "fd_inv V R" for E V F R
  by unfold_locales (rule fd_step_inv)

text \<open>
  C17: along any sequence of opens, closes, duplications, seeks, reads and writes by a process, the count of
  every open file is the number of entries of the table that refer to it plus the number of
  references from elsewhere, and a file exists exactly as long as it has a reference. No path through
  these calls leaks a count or drops one twice.
\<close>

theorem fd_run_counts:
  assumes "(fd_step E V F)\<^sup>*\<^sup>* s s'" "file_refs V R s" "\<forall>x. 0 \<le> R x"
  shows "file_refs V R s'"
  using fds.run_inv [OF assms(1), of R] assms(2,3) by (simp add: fd_inv_def)

lemma demo_env_ok: "env_ok errno_std demo_fs"
  by (simp add: env_ok_def errno_std_ok demo_file_ok demo_frame_ok)

theorem fd_run_counts_witness:
  "\<exists>r s'. do_close errno_std demo_conf demo_fs 0 vdemo = Some (r, s') \<and> file_refs demo_conf (\<lambda>x. 0) s'"
proof -
  obtain r s' where c: "do_close errno_std demo_conf demo_fs 0 vdemo = Some (r, s')"
    by (simp add: do_close_def fd_valid_def demo_conf_def fd_get_def cur_files_def vdemo_def demo_proc_def demo_fs_def
        demo_fput_def fd_set_def)
  then have "(fd_step errno_std demo_conf demo_fs)\<^sup>*\<^sup>* vdemo s'"
    by (intro r_into_rtranclp fd_close [OF demo_env_ok])
  from fd_run_counts [OF this vdemo_refs] c show ?thesis by auto
qed

text \<open>Where a seek leads: the offset counts from the start, from the position, or from the end.\<close>

definition seek_target :: "vconf \<Rightarrow> file_t \<Rightarrow> vnode \<Rightarrow> int \<Rightarrow> int \<Rightarrow> int" where
  "seek_target V fl vn off wh = (if wh = SEEK_SET V then off else if wh = SEEK_CUR V then f_pos fl + off else vn_len vn + off)"

lemma fget_open:
  assumes "file_ok F" "file_refs V R s" "\<forall>x. 0 \<le> R x" "fd_get fd s = Some (Some x)" "files s x = Some fl"
  shows "fget F fd s = Some (Some x, s\<lparr>files := (files s)(x \<mapsto> fl\<lparr>f_refcount := f_refcount fl + 1\<rparr>)\<rparr>)"
    and "fput F x (s\<lparr>files := (files s)(x \<mapsto> g\<lparr>f_refcount := f_refcount fl + 1\<rparr>)\<rparr>)
      = Some (s\<lparr>files := (files s)(x \<mapsto> g\<lparr>f_refcount := f_refcount fl\<rparr>)\<rparr>)"
proof -
  show "fget F fd s = Some (Some x, s\<lparr>files := (files s)(x \<mapsto> fl\<lparr>f_refcount := f_refcount fl + 1\<rparr>)\<rparr>)"
    by (rule file_okD(1) [OF assms(1,4,5)])
  have "0 < f_refcount fl" using file_refs_entry [OF assms(2) _ assms(4)] assms(3,5) by (metis option.inject)
  then show "fput F x (s\<lparr>files := (files s)(x \<mapsto> g\<lparr>f_refcount := f_refcount fl + 1\<rparr>)\<rparr>)
      = Some (s\<lparr>files := (files s)(x \<mapsto> g\<lparr>f_refcount := f_refcount fl\<rparr>)\<rparr>)"
    using file_okD(3) [OF assms(1), of "s\<lparr>files := (files s)(x \<mapsto> g\<lparr>f_refcount := f_refcount fl + 1\<rparr>)\<rparr>" x] by simp
qed

lemma fget_open_refs:
  fixes s :: "'a vfs_st_scheme" and F :: "'a vfs_st_scheme fs_ext"
  assumes "file_ok F" "file_refs V R s" "\<forall>x. 0 \<le> R x" "fd_valid V fd" "fd_get fd s = Some (Some x)" "files s x = Some fl"
  shows "file_refs V (addc x 1 R) (s\<lparr>files := (files s)(x \<mapsto> fl\<lparr>f_refcount := f_refcount fl + 1\<rparr>)\<rparr>)"
  by (rule fget_cases [of F V R s fd]) (use assms in simp_all)

lemma file_upd_commute: "fl\<lparr>f_refcount := n, f_pos := p\<rparr> = fl\<lparr>f_pos := p, f_refcount := n\<rparr>"
  by (cases fl) simp

lemma files_triv: "files s x = Some fl \<Longrightarrow> s\<lparr>files := (files s)(x \<mapsto> fl)\<rparr> = s"
  by (cases s) (simp add: fun_upd_idem)

lemma do_lseek_open:
  assumes "env_ok E F" "file_refs V R s" "\<forall>x. 0 \<le> R x" "fd_valid V fd" "fd_get fd s = Some (Some x)"
    "files s x = Some fl" "f_vnode fl = Some v" "vnodes s v = Some vn"
    "- (2 ^ 31) \<le> seek_target V fl vn off wh" "seek_target V fl vn off wh < 2 ^ 31"
  shows "do_lseek E V F fd off wh s =
    (if wh \<notin> {SEEK_SET V, SEEK_CUR V, SEEK_END V} \<or> seek_target V fl vn off wh < 0 then Some (- E EINVAL, s)
     else Some (seek_target V fl vn off wh,
       s\<lparr>files := (files s)(x \<mapsto> fl\<lparr>f_pos := seek_target V fl vn off wh\<rparr>)\<rparr>))"
proof -
  have F: "file_ok F" using assms(1) by (simp add: env_ok_def)
  note g = fget_open [OF F assms(2,3,5,6)]
  have put: "fput F x (s\<lparr>files := (files s)(x \<mapsto> fl\<lparr>f_refcount := f_refcount fl + 1\<rparr>)\<rparr>) = Some s"
    using g(2) [of fl] assms(6) by (simp add: files_triv)
  have put': "fput F x (s\<lparr>files := (files s)(x \<mapsto> fl\<lparr>f_refcount := f_refcount fl + 1, f_pos := p\<rparr>)\<rparr>)
      = Some (s\<lparr>files := (files s)(x \<mapsto> fl\<lparr>f_pos := p\<rparr>)\<rparr>)" for p
    using g(2) [of "fl\<lparr>f_pos := p\<rparr>"] by (simp add: file_upd_commute)
  show ?thesis
    using assms(4,7-10) g(1) put put'
    by (auto simp: do_lseek_def seek_target_def cint_def f_upd_def split: if_split_asm)
qed

text \<open>
  C34: on an open descriptor, \<^verbatim>\<open>do_lseek\<close> moves to the target and returns it; a target before the start of the
  file, or an unknown \<^verbatim>\<open>whence\<close>, is \<^verbatim>\<open>EINVAL\<close> and changes nothing. A position past the end of the file is
  allowed. The sum must fit the \<^verbatim>\<open>int\<close> it is computed in.
\<close>

theorem do_lseek_spec:
  assumes "env_ok E F" "file_refs V R s" "\<forall>x. 0 \<le> R x" "fd_valid V fd" "fd_get fd s = Some (Some x)"
    "files s x = Some fl" "f_vnode fl = Some v" "vnodes s v = Some vn"
    "- (2 ^ 31) \<le> seek_target V fl vn off wh" "seek_target V fl vn off wh < 2 ^ 31"
  shows "do_lseek E V F fd off wh s =
    (if wh \<notin> {SEEK_SET V, SEEK_CUR V, SEEK_END V} \<or> seek_target V fl vn off wh < 0 then Some (- E EINVAL, s)
     else Some (seek_target V fl vn off wh,
       s\<lparr>files := (files s)(x \<mapsto> fl\<lparr>f_pos := seek_target V fl vn off wh\<rparr>)\<rparr>))"
  by (rule do_lseek_open [OF assms])

lemma vdemo_empty_fd: "curproc vdemo = Some 10" "get_empty_fd errno_std demo_conf 10 vdemo = Some 1"
  by (simp_all add: vdemo_def get_empty_fd_def demo_proc_def demo_conf_def eval_nat_numeral)

lemma vdemo_file:
  "fd_valid demo_conf 0" "fd_get 0 vdemo = Some (Some 20)"
  "files vdemo 20 = Some \<lparr>f_pos = 5, f_mode = 1, f_refcount = 1, f_vnode = Some 3\<rparr>"
  "vnodes vdemo 3 = Some (demo_vnode S_IFREG reg_vops 3)"
  by (simp_all add: fd_valid_def demo_conf_def fd_get_def cur_files_def vdemo_def demo_proc_def)

theorem do_lseek_spec_witness:
  "do_lseek errno_std demo_conf demo_fs 0 (- 7) 1 vdemo = Some (- 22, vdemo)"
  by (subst do_lseek_spec [OF demo_env_ok vdemo_refs _ vdemo_file(1-3) _ vdemo_file(4)])
    (simp_all add: seek_target_def demo_conf_def)

text \<open>
  C35: duplicating an open descriptor returns the lowest free one, which then refers to the same file; closing
  it again gives back the very state before.
\<close>

theorem dup_close_roundtrip:
  assumes "env_ok E F" "file_refs V R s" "\<forall>x. 0 \<le> R x" "fd_valid V fd" "fd_get fd s = Some (Some x)"
    "curproc s = Some p" "get_empty_fd E V p s = Some nfd" "0 \<le> nfd"
  shows "(\<forall>j. 0 \<le> j \<and> j < nfd \<longrightarrow> (\<exists>y. fd_get j s = Some (Some y)))
    \<and> (\<exists>s1. do_dup E V F fd s = Some (nfd, s1) \<and> fd_get nfd s1 = Some (Some x) \<and> do_close E V F nfd s1 = Some (0, s))"
proof -
  have E: "errno_ok E" and F: "file_ok F" using assms(1) by (simp_all add: env_ok_def)
  obtain fl where fl: "files s x = Some fl" "0 < f_refcount fl" using file_refs_entry [OF assms(2) _ assms(5)] assms(3) by blast
  obtain pr where pr: "procs s p = Some pr" "empty_fd_from E (p_files pr) 0 (NFILES V) = Some nfd"
    using assms(7) by (auto simp: get_empty_fd_def bind_eq_Some_conv)
  from empty_fd_from_result [OF pr(2) E] errno_pos [OF E, of EMFILE] assms(8) obtain k where
    k: "nfd = int k" "k < NFILES V" "k < length (p_files pr)" "p_files pr ! k = None" "\<forall>j<k. p_files pr ! j \<noteq> None"
    by auto
  have files: "cur_files s = Some (p_files pr)" using assms(6) pr(1) by (simp add: cur_files_def)
  let ?fs = "(files s)(x \<mapsto> fl\<lparr>f_refcount := f_refcount fl + 1\<rparr>)"
  let ?s1 = "s\<lparr>procs := (procs s)(p \<mapsto> pr\<lparr>p_files := (p_files pr)[k := Some x]\<rparr>), files := ?fs\<rparr>"
  have "fget F fd s = Some (Some x, s\<lparr>files := ?fs\<rparr>)" by (rule fget_open [OF F assms(2,3,5) fl(1)])
  then have dup: "do_dup E V F fd s = Some (nfd, ?s1)"
    using assms(4-6) pr k by (simp add: do_dup_def get_empty_fd_def fd_set_def)
  have get: "fd_get nfd ?s1 = Some (Some x)" using assms(6) k by (simp add: fd_get_def cur_files_def)
  have "fput F x ?s1 = Some (?s1\<lparr>files := files s\<rparr>)"
    using file_okD(3) [OF F, of ?s1 x "fl\<lparr>f_refcount := f_refcount fl + 1\<rparr>"] fl by (simp add: fun_upd_idem)
  moreover have "fd_set nfd None (?s1\<lparr>files := files s\<rparr>) = Some s"
    using assms(6) pr(1) k list_update_id [of "p_files pr" k] by (simp add: fd_set_def fun_upd_idem)
  ultimately have "do_close E V F nfd ?s1 = Some (0, s)"
    using get k(1,2) by (simp add: do_close_def fd_valid_def)
  moreover have "\<exists>y. fd_get j s = Some (Some y)" if "0 \<le> j" "j < nfd" for j
    using that k files by (auto simp: fd_get_def)
  ultimately show ?thesis using dup get by blast
qed

theorem dup_close_roundtrip_witness:
  "\<exists>s1. do_dup errno_std demo_conf demo_fs 0 vdemo = Some (1, s1) \<and> fd_get 1 s1 = Some (Some 20)
    \<and> do_close errno_std demo_conf demo_fs 1 s1 = Some (0, vdemo)"
  using dup_close_roundtrip [OF demo_env_ok vdemo_refs _ vdemo_file(1,2) vdemo_empty_fd] by simp

text \<open>
  C36: \<^verbatim>\<open>do_read\<close> keeps the result of the \<^verbatim>\<open>read\<close> operation in an unsigned variable, so that a failed read is
  taken for progress: the error number is returned, but the position has moved back by as much.
\<close>

theorem do_read_error_moves_back:
  assumes "env_ok E F" "file_refs V R s" "\<forall>x. 0 \<le> R x" "fd_valid V fd" "fd_get fd s = Some (Some x)"
    "files s x = Some fl" "f_mode fl AND FMODE_READ V \<noteq> 0" "f_vnode fl = Some v" "vnodes s v = Some vn"
    "vn_ops vn = Fs_vops ops" "Op_read \<in> ops" "\<not> S_ISDIR (vn_mode vn)"
    and err: "\<forall>t. op_read F v (f_pos fl) n t = Some ((r, buf), t)" "r < 0" "- (2 ^ 31) \<le> r"
    and seek: "0 \<le> f_pos fl + r" "f_pos fl < 2 ^ 31" "SEEK_CUR V \<noteq> SEEK_SET V"
  shows "do_read E V F fd n s = Some ((r, buf), s\<lparr>files := (files s)(x \<mapsto> fl\<lparr>f_pos := f_pos fl + r\<rparr>)\<rparr>)"
proof -
  have F: "file_ok F" using assms(1) by (simp add: env_ok_def)
  note g = fget_open [OF F assms(2,3,5,6)]
  let ?w = "word_of_int r :: u32"
  have w: "sint ?w = r" using err by (simp add: sint_sbintrunc' signed_take_bit_int_eq_self)
  then have "?w \<noteq> 0" using err(2) by auto
  then have wpos: "0 < ?w" by (simp add: word_gt_0)
  let ?g = "fl\<lparr>f_refcount := f_refcount fl + 1\<rparr>" and ?h = "fl\<lparr>f_pos := f_pos fl + r\<rparr>"
  let ?s = "s\<lparr>files := (files s)(x \<mapsto> ?g)\<rparr>"
  have pos: "\<forall>y. 0 \<le> addc x 1 R y" using assms(3) by (simp add: addc_apply)
  have seek': "do_lseek E V F fd r (SEEK_CUR V) ?s
      = Some (f_pos fl + r, ?s\<lparr>files := (files ?s)(x \<mapsto> ?g\<lparr>f_pos := f_pos fl + r\<rparr>)\<rparr>)"
    by (subst do_lseek_open [OF assms(1) fget_open_refs [OF F assms(2-6)] pos assms(4), where x = x and fl = ?g and v = v and vn = vn])
      (use assms(5,8,9) seek err(2,3) in \<open>simp_all add: seek_target_def\<close>)
  have put: "fput F x (s\<lparr>files := (files s)(x \<mapsto> ?g\<lparr>f_pos := f_pos fl + r\<rparr>)\<rparr>) = Some (s\<lparr>files := (files s)(x \<mapsto> ?h)\<rparr>)"
    using g(2) [of ?h] by (simp add: file_upd_commute)
  show ?thesis
    using assms(4,7-12) err(1) seek(1) g(1) w wpos seek' put by (simp add: do_read_def vop_read_def has_op_def)
qed

theorem do_read_error_moves_back_witness:
  "do_read errno_std demo_conf demo_fs 0 16 vdemo
    = Some ((- 5, []), vdemo\<lparr>files := (files vdemo)(20 \<mapsto> \<lparr>f_pos = 0, f_mode = 1, f_refcount = 1, f_vnode = Some 3\<rparr>)\<rparr>)"
proof -
  let ?fl = "\<lparr>f_pos = 5, f_mode = 1, f_refcount = 1, f_vnode = Some 3\<rparr>"
  have "do_read errno_std demo_conf demo_fs 0 16 vdemo
      = Some ((- 5, []), vdemo\<lparr>files := (files vdemo)(20 \<mapsto> ?fl\<lparr>f_pos := f_pos ?fl + - 5\<rparr>)\<rparr>)"
    by (rule do_read_error_moves_back [OF demo_env_ok vdemo_refs _ vdemo_file(1-3) _ _ vdemo_file(4), where ops = "{Op_read, Op_write, Op_stat}"])
      (simp_all add: demo_vnode_def reg_vops_def demo_conf_def demo_fs_def S_ISDIR_def)
  then show ?thesis by simp
qed

text \<open>The header constants: \<^verbatim>\<open>O_RDONLY\<close> is zero, and the other open flags are distinct bits.\<close>

definition oflags_ok :: "vconf \<Rightarrow> bool" where
  "oflags_ok V \<longleftrightarrow> O_RDONLY V = 0 \<and> O_APPEND V \<noteq> 0 \<and> O_APPEND V \<noteq> O_CREAT V \<and> O_APPEND V AND O_RDWR V = 0
     \<and> O_APPEND V AND O_WRONLY V = 0"

text \<open>
  The comment of \<^verbatim>\<open>do_open\<close> allows \<^verbatim>\<open>O_RDONLY\<close> to be combined with \<^verbatim>\<open>O_APPEND\<close>, but the test for reading compares
  the whole flag word: such a call never succeeds, and fails with \<^verbatim>\<open>EINVAL\<close> unless descriptors or
  memory run out first.
\<close>

lemma do_open_rdonly_append:
  assumes "oflags_ok V" "do_open E V F name (O_RDONLY V OR O_APPEND V) s = Some (r, s')"
  shows "r = - E EINVAL \<or> r = - E EMFILE \<or> r = - E ENOMEM"
  using assms
  by (auto simp: oflags_ok_def do_open_def bind_eq_Some_conv Let_def split: if_split_asm option.splits)

end
