(* ===== verification/Pframe.thy ===== *)
theory Pframe
  imports Vfs_Props
begin

section \<open>Page frames\<close>

text \<open>
  The state of virtual memory, and the model of \<^verbatim>\<open>K3/pframe.c\<close>. Memory objects, page frames, areas and
  address spaces are keys of stores, like vnodes. The bytes of the page at \<^verbatim>\<open>pf_addr\<close> are the field
  \<open>pf_data\<close> of its frame, since no two frames share a page.

  A function of the page cache calls the operations of a memory object through its table; the argument
  \<open>obj_ops\<close> stands for these calls, and is tied to the functions of the source in the theory of memory
  objects. The record \<open>vm_ext\<close> collects the code outside the repository: the operations of vnodes as
  memory objects, the page tables, the allocators (which name a free address, or none), the inline
  functions of \<^verbatim>\<open>mmobj.h\<close>, and \<open>vm_sleep\<close>, what the other threads do until a sleeping thread runs again.
  The translation look-aside buffer is hardware and has no counterpart in the state.

  An object that has been given back to its slab keeps its contents until the slab reuses it, so the
  writes of the source to an object it has just freed are done before it is removed from the store.
\<close>

subsection \<open>State\<close>

datatype mmobj_ops = Anon_mmobj_ops | Shadow_mmobj_ops | Vnode_mmobj_ops

datatype mmo_un = Mmo_vmas "ptr list" | Mmo_bottom_obj "ptr option"

record mmobj =
  mmo_ops :: mmobj_ops
  mmo_refcount :: int
  mmo_nrespages :: int
  mmo_respages :: "ptr list"
  mmo_un :: mmo_un
  mmo_shadowed :: "ptr option"

record pframe =
  pf_obj :: "ptr option"
  pf_pagenum :: u32
  pf_busy :: bool
  pf_dirty :: bool
  pf_pincount :: int
  pf_addr :: ptr
  pf_data :: "8 word list"

record vmarea =
  vma_start :: u32
  vma_end :: u32
  vma_off :: u32
  vma_prot :: u32
  vma_flags :: u32
  vma_vmmap :: "ptr option"
  vma_obj :: "ptr option"

record vmmap =
  vmm_list :: "ptr list"
  vmm_proc :: "ptr option"

record vm_st = vfs_st +
  pframes :: "ptr \<Rightarrow> pframe option"
  npinned :: int
  pinned_list :: "ptr list"
  nallocated :: int
  alloc_list :: "ptr list"
  pframe_hash :: "nat \<Rightarrow> ptr list"
  nfreepages_min :: nat
  nfreepages_target :: nat
  mmobjs :: "ptr \<Rightarrow> mmobj option"
  vmareas :: "ptr \<Rightarrow> vmarea option"
  vmmaps :: "ptr \<Rightarrow> vmmap option"

record mconf =
  PAGE_SHIFT :: nat
  PF_HASH_SIZE :: nat
  USER_MEM_LOW :: u32
  USER_MEM_HIGH :: u32
  PROT_READ :: u32
  PROT_WRITE :: u32
  PROT_EXEC :: u32
  MAP_SHARED :: u32
  MAP_PRIVATE :: u32
  MAP_FIXED :: u32
  MAP_ANON :: u32
  FAULT_WRITE :: u32
  FAULT_EXEC :: u32
  PD_PRESENT :: u32
  PD_USER :: u32
  PD_WRITE :: u32
  PT_PRESENT :: u32
  PT_USER :: u32
  PT_WRITE :: u32
  VMMAP_DIR_HILO :: int
  VMMAP_DIR_LOHI :: int

record 's vm_ext =
  mmobj_init :: "mmobj_ops \<Rightarrow> mmobj"
  mmobj_bottom_obj :: "ptr \<Rightarrow> 's \<Rightarrow> ptr option"
  vo_vref :: "ptr \<Rightarrow> 's \<Rightarrow> 's option"
  vo_vput :: "ptr \<Rightarrow> 's \<Rightarrow> 's option"
  vlookuppage :: "ptr \<Rightarrow> u32 \<Rightarrow> bool \<Rightarrow> 's \<Rightarrow> ((int \<times> ptr option) \<times> 's) option"
  vreadpage :: "ptr \<Rightarrow> ptr \<Rightarrow> 's \<Rightarrow> (int \<times> 's) option"
  vdirtypage :: "ptr \<Rightarrow> ptr \<Rightarrow> 's \<Rightarrow> (int \<times> 's) option"
  vcleanpage :: "ptr \<Rightarrow> ptr \<Rightarrow> 's \<Rightarrow> (int \<times> 's) option"
  vop_mmap :: "ptr \<Rightarrow> ptr \<Rightarrow> 's \<Rightarrow> ((int \<times> ptr option) \<times> 's) option"
  cd_mmap :: "ptr \<Rightarrow> ptr \<Rightarrow> ptr \<Rightarrow> 's \<Rightarrow> ((int \<times> ptr option) \<times> 's) option"
  cd_fillpage :: "ptr \<Rightarrow> ptr \<Rightarrow> int \<Rightarrow> ptr \<Rightarrow> 's \<Rightarrow> (int \<times> 's) option"
  cd_dirtypage :: "ptr \<Rightarrow> ptr \<Rightarrow> int \<Rightarrow> 's \<Rightarrow> (int \<times> 's) option"
  cd_cleanpage :: "ptr \<Rightarrow> ptr \<Rightarrow> int \<Rightarrow> ptr \<Rightarrow> 's \<Rightarrow> (int \<times> 's) option"
  fref :: "ptr \<Rightarrow> 's \<Rightarrow> 's option"
  pt_virt_to_phys :: "ptr \<Rightarrow> ptr"
  pt_unmap :: "ptr option \<Rightarrow> u32 \<Rightarrow> 's \<Rightarrow> 's"
  pt_unmap_range :: "ptr option \<Rightarrow> u32 \<Rightarrow> u32 \<Rightarrow> 's \<Rightarrow> 's"
  pt_map :: "ptr option \<Rightarrow> u32 \<Rightarrow> ptr \<Rightarrow> u32 \<Rightarrow> u32 \<Rightarrow> 's \<Rightarrow> (int \<times> 's)"
  vm_sleep :: "qaddr \<Rightarrow> 's \<Rightarrow> 's option"
  page_free_count :: "'s \<Rightarrow> nat"
  slab_pframe :: "'s \<Rightarrow> ptr option"
  page_alloc :: "'s \<Rightarrow> ptr option"
  slab_anon :: "'s \<Rightarrow> ptr option"
  slab_shadow :: "'s \<Rightarrow> ptr option"
  slab_vmarea :: "'s \<Rightarrow> (ptr \<times> vmarea) option"
  slab_vmmap :: "'s \<Rightarrow> ptr option"

record 's obj_ops =
  oref :: "ptr \<Rightarrow> 's \<Rightarrow> 's option"
  oput :: "ptr \<Rightarrow> 's \<Rightarrow> 's option"
  olookuppage :: "ptr \<Rightarrow> u32 \<Rightarrow> bool \<Rightarrow> 's \<Rightarrow> ((int \<times> ptr option) \<times> 's) option"
  ofillpage :: "ptr \<Rightarrow> ptr \<Rightarrow> 's \<Rightarrow> (int \<times> 's) option"
  odirtypage :: "ptr \<Rightarrow> ptr \<Rightarrow> 's \<Rightarrow> (int \<times> 's) option"
  ocleanpage :: "ptr \<Rightarrow> ptr \<Rightarrow> 's \<Rightarrow> (int \<times> 's) option"

definition PAGE_SIZE :: "mconf \<Rightarrow> nat" where
  "PAGE_SIZE C = 2 ^ PAGE_SHIFT C"

definition ADDR_TO_PN :: "mconf \<Rightarrow> u32 \<Rightarrow> u32" where
  "ADDR_TO_PN C a = drop_bit (PAGE_SHIFT C) a"

definition PN_TO_ADDR :: "mconf \<Rightarrow> u32 \<Rightarrow> u32" where
  "PN_TO_ADDR C n = push_bit (PAGE_SHIFT C) n"

definition PAGE_OFFSET :: "mconf \<Rightarrow> u32 \<Rightarrow> nat" where
  "PAGE_OFFSET C a = unat (take_bit (PAGE_SHIFT C) a)"

definition PAGE_ALIGNED :: "mconf \<Rightarrow> u32 \<Rightarrow> bool" where
  "PAGE_ALIGNED C a \<longleftrightarrow> take_bit (PAGE_SHIFT C) a = 0"

definition PAGE_ALIGN_DOWN :: "mconf \<Rightarrow> u32 \<Rightarrow> u32" where
  "PAGE_ALIGN_DOWN C a = PN_TO_ADDR C (ADDR_TO_PN C a)"

definition PAGE_ALIGN_UP :: "mconf \<Rightarrow> u32 \<Rightarrow> u32" where
  "PAGE_ALIGN_UP C a = PAGE_ALIGN_DOWN C (a - 1) + of_nat (PAGE_SIZE C)"

definition pf_upd :: "ptr \<Rightarrow> (pframe \<Rightarrow> pframe) \<Rightarrow> 'a vm_st_scheme \<Rightarrow> 'a vm_st_scheme option" where
  "pf_upd pf f s = do {
     p \<leftarrow> pframes s pf;
     Some (s\<lparr>pframes := (pframes s)(pf \<mapsto> f p)\<rparr>)
   }"

definition obj_upd :: "ptr \<Rightarrow> (mmobj \<Rightarrow> mmobj) \<Rightarrow> 'a vm_st_scheme \<Rightarrow> 'a vm_st_scheme option" where
  "obj_upd ob f s = do {
     m \<leftarrow> mmobjs s ob;
     Some (s\<lparr>mmobjs := (mmobjs s)(ob \<mapsto> f m)\<rparr>)
   }"

definition vma_upd :: "ptr \<Rightarrow> (vmarea \<Rightarrow> vmarea) \<Rightarrow> 'a vm_st_scheme \<Rightarrow> 'a vm_st_scheme option" where
  "vma_upd a f s = do {
     v \<leftarrow> vmareas s a;
     Some (s\<lparr>vmareas := (vmareas s)(a \<mapsto> f v)\<rparr>)
   }"

text \<open>The counts of a vnode's memory object are those of the vnode.\<close>

definition add_nrespages :: "int \<Rightarrow> ptr \<Rightarrow> 'a vm_st_scheme \<Rightarrow> 'a vm_st_scheme option" where
  "add_nrespages k ob s = do {
     m \<leftarrow> mmobjs s ob;
     if mmo_ops m = Vnode_mmobj_ops then vn_upd ob (\<lambda>vn. vn\<lparr>vn_nrespages := vn_nrespages vn + k\<rparr>) s
     else obj_upd ob (\<lambda>m. m\<lparr>mmo_nrespages := mmo_nrespages m + k\<rparr>) s
   }"

definition pframe_is_pinned :: "pframe \<Rightarrow> bool" where
  "pframe_is_pinned p \<longleftrightarrow> pf_pincount p > 0"

definition pframe_is_free :: "pframe \<Rightarrow> bool" where
  "pframe_is_free p \<longleftrightarrow> pf_obj p = None"

subsection \<open>Finding and allocating frames\<close>

definition hash_page :: "mconf \<Rightarrow> ptr \<Rightarrow> u32 \<Rightarrow> nat" where
  "hash_page C ob pagenum = unat (of_nat ob + pagenum :: u32) mod PF_HASH_SIZE C"

text \<open>The argument \<open>pframe_allocator\<close> is the result of \<^verbatim>\<open>slab_allocator_create\<close>.\<close>

definition pframe_init :: "'a vm_st_scheme vm_ext \<Rightarrow> ptr option \<Rightarrow> 'a vm_st_scheme \<Rightarrow> 'a vm_st_scheme option" where
  "pframe_init X pframe_allocator s = do {
     let s = s\<lparr>npinned := 0, pinned_list := [], nallocated := 0, alloc_list := []\<rparr>;
     _ \<leftarrow> kassert (pframe_allocator \<noteq> None);
     let s = s\<lparr>pframe_hash := \<lambda>i. []\<rparr>;
     let s = s\<lparr>nfreepages_target := page_free_count X s div 2, nfreepages_min := 0\<rparr>;
     Some (sched_queue_init Alloc_waitq s)
   }"

fun find_pframe :: "(ptr \<Rightarrow> pframe option) \<Rightarrow> ptr \<Rightarrow> u32 \<Rightarrow> ptr list \<Rightarrow> ptr option option" where
  "find_pframe P ob pagenum [] = Some None"
| "find_pframe P ob pagenum (pf # pfs) = do {
     p \<leftarrow> P pf;
     if pf_obj p = Some ob \<and> pf_pagenum p = pagenum then Some (Some pf) else find_pframe P ob pagenum pfs
   }"

definition pframe_get_resident ::
  "mconf \<Rightarrow> ptr \<Rightarrow> u32 \<Rightarrow> 'a vm_st_scheme \<Rightarrow> (ptr option \<times> 'a vm_st_scheme) option" where
  "pframe_get_resident C ob pagenum s = do {
     found \<leftarrow> find_pframe (pframes s) ob pagenum (pframe_hash s (hash_page C ob pagenum));
     case found of
       None \<Rightarrow> Some (None, s)
     | Some pf \<Rightarrow> do {
         p \<leftarrow> pframes s pf;
         if \<not> pframe_is_pinned p
         then Some (Some pf, s\<lparr>alloc_list := remove1 pf (alloc_list s) @ [pf]\<rparr>)
         else Some (Some pf, s)
       }
   }"

definition pframe_alloc ::
  "mconf \<Rightarrow> 'a vm_st_scheme vm_ext \<Rightarrow> 'a vm_st_scheme obj_ops \<Rightarrow> ptr \<Rightarrow> u32 \<Rightarrow> 'a vm_st_scheme
    \<Rightarrow> (ptr option \<times> 'a vm_st_scheme) option" where
  "pframe_alloc C X T ob pagenum s =
     (case slab_pframe X s of
        None \<Rightarrow> Some (None, s)
      | Some pf \<Rightarrow> (case page_alloc X s of
          None \<Rightarrow> Some (None, s)
        | Some addr \<Rightarrow> do {
            let s = s\<lparr>nallocated := nallocated s + 1, alloc_list := alloc_list s @ [pf]\<rparr>;
            let s = s\<lparr>pframes := (pframes s)(pf \<mapsto> \<lparr>pf_obj = Some ob, pf_pagenum = pagenum, pf_busy = False,
                        pf_dirty = False, pf_pincount = 0, pf_addr = addr, pf_data = []\<rparr>)\<rparr>;
            let s = sched_queue_init (Pf_waitq pf) s;
            let h = hash_page C ob pagenum;
            let s = s\<lparr>pframe_hash := (pframe_hash s)(h := pf # pframe_hash s h)\<rparr>;
            s \<leftarrow> oref T ob s;
            s \<leftarrow> add_nrespages 1 ob s;
            s \<leftarrow> obj_upd ob (\<lambda>m. m\<lparr>mmo_respages := pf # mmo_respages m\<rparr>) s;
            Some (Some pf, s)
          }))"

definition pframe_lookup ::
  "'a vm_st_scheme obj_ops \<Rightarrow> ptr \<Rightarrow> u32 \<Rightarrow> bool \<Rightarrow> 'a vm_st_scheme \<Rightarrow> ((int \<times> ptr option) \<times> 'a vm_st_scheme) option" where
  "pframe_lookup T ob pagenum forwrite s = olookuppage T ob pagenum forwrite s"

subsection \<open>Pinning\<close>

definition pframe_pin :: "ptr \<Rightarrow> 'a vm_st_scheme \<Rightarrow> 'a vm_st_scheme option" where
  "pframe_pin pf s = do {
     p \<leftarrow> pframes s pf;
     _ \<leftarrow> kassert (\<not> pframe_is_free p);
     _ \<leftarrow> kassert (pf_pincount p \<ge> 0);
     let s = (if \<not> pframe_is_pinned p
              then s\<lparr>alloc_list := remove1 pf (alloc_list s), pinned_list := pinned_list s @ [pf],
                     nallocated := nallocated s - 1, npinned := npinned s + 1\<rparr> else s);
     pf_upd pf (\<lambda>p. p\<lparr>pf_pincount := pf_pincount p + 1\<rparr>) s
   }"

definition pframe_unpin :: "ptr \<Rightarrow> 'a vm_st_scheme \<Rightarrow> 'a vm_st_scheme option" where
  "pframe_unpin pf s = do {
     p \<leftarrow> pframes s pf;
     _ \<leftarrow> kassert (\<not> pframe_is_free p);
     _ \<leftarrow> kassert (pf_pincount p > 0);
     s \<leftarrow> pf_upd pf (\<lambda>p. p\<lparr>pf_pincount := pf_pincount p - 1\<rparr>) s;
     p \<leftarrow> pframes s pf;
     Some (if pf_pincount p = 0
           then s\<lparr>pinned_list := remove1 pf (pinned_list s), alloc_list := alloc_list s @ [pf],
                  nallocated := nallocated s + 1, npinned := npinned s - 1\<rparr> else s)
   }"

subsection \<open>Filling, cleaning and freeing\<close>

fun unmap_from_vmas :: "mconf \<Rightarrow> 'a vm_st_scheme vm_ext \<Rightarrow> u32 \<Rightarrow> ptr list \<Rightarrow> 'a vm_st_scheme \<Rightarrow> 'a vm_st_scheme option" where
  "unmap_from_vmas C X pagenum [] s = Some s"
| "unmap_from_vmas C X pagenum (a # as) s = do {
     vma \<leftarrow> vmareas s a;
     s \<leftarrow> (if pagenum \<ge> vma_off vma \<and> pagenum < vma_off vma + (vma_end vma - vma_start vma) then do {
            let vaddr = PN_TO_ADDR C (vma_start vma + pagenum - vma_off vma);
            m \<leftarrow> vma_vmmap vma;
            map \<leftarrow> vmmaps s m;
            case vmm_proc map of
              None \<Rightarrow> Some s
            | Some p \<Rightarrow> do { pr \<leftarrow> procs s p; Some (pt_unmap X (p_pagedir pr) vaddr s) }
          } else Some s);
     unmap_from_vmas C X pagenum as s
   }"

definition mmobj_bottom_vmas :: "'a vm_st_scheme vm_ext \<Rightarrow> ptr \<Rightarrow> 'a vm_st_scheme \<Rightarrow> (ptr \<times> ptr list) option" where
  "mmobj_bottom_vmas X ob s = do {
     b \<leftarrow> mmobj_bottom_obj X ob s;
     m \<leftarrow> mmobjs s b;
     case mmo_un m of Mmo_vmas vs \<Rightarrow> Some (b, vs) | Mmo_bottom_obj _ \<Rightarrow> None
   }"

definition pframe_remove_from_pts ::
  "mconf \<Rightarrow> 'a vm_st_scheme vm_ext \<Rightarrow> ptr \<Rightarrow> 'a vm_st_scheme \<Rightarrow> 'a vm_st_scheme option" where
  "pframe_remove_from_pts C X pf s = do {
     p \<leftarrow> pframes s pf;
     ob \<leftarrow> pf_obj p;
     (_, vs) \<leftarrow> mmobj_bottom_vmas X ob s;
     unmap_from_vmas C X (pf_pagenum p) vs s
   }"

definition pframe_fill ::
  "'a vm_st_scheme obj_ops \<Rightarrow> ptr \<Rightarrow> 'a vm_st_scheme \<Rightarrow> (int \<times> 'a vm_st_scheme) option" where
  "pframe_fill T pf s = do {
     s \<leftarrow> pf_upd pf (\<lambda>p. p\<lparr>pf_busy := True\<rparr>) s;
     p \<leftarrow> pframes s pf;
     ob \<leftarrow> pf_obj p;
     (ret, s) \<leftarrow> ofillpage T ob pf s;
     s \<leftarrow> pf_upd pf (\<lambda>p. p\<lparr>pf_busy := False\<rparr>) s;
     s \<leftarrow> sched_broadcast_on (Pf_waitq pf) s;
     Some (ret, s)
   }"

definition pframe_dirty ::
  "'a vm_st_scheme obj_ops \<Rightarrow> ptr \<Rightarrow> 'a vm_st_scheme \<Rightarrow> (int \<times> 'a vm_st_scheme) option" where
  "pframe_dirty T pf s = do {
     p \<leftarrow> pframes s pf;
     _ \<leftarrow> kassert (\<not> pf_busy p);
     s \<leftarrow> pf_upd pf (\<lambda>p. p\<lparr>pf_busy := True\<rparr>) s;
     ob \<leftarrow> pf_obj p;
     (ret, s) \<leftarrow> odirtypage T ob pf s;
     s \<leftarrow> (if ret = 0 then pf_upd pf (\<lambda>p. p\<lparr>pf_dirty := True\<rparr>) s else Some s);
     s \<leftarrow> pf_upd pf (\<lambda>p. p\<lparr>pf_busy := False\<rparr>) s;
     s \<leftarrow> sched_broadcast_on (Pf_waitq pf) s;
     Some (ret, s)
   }"

definition pframe_clean ::
  "mconf \<Rightarrow> 'a vm_st_scheme vm_ext \<Rightarrow> 'a vm_st_scheme obj_ops \<Rightarrow> ptr \<Rightarrow> 'a vm_st_scheme
    \<Rightarrow> (int \<times> 'a vm_st_scheme) option" where
  "pframe_clean C X T pf s = do {
     p \<leftarrow> pframes s pf;
     _ \<leftarrow> kassert (pf_dirty p);
     _ \<leftarrow> kassert (pf_pincount p = 0);
     s \<leftarrow> pf_upd pf (\<lambda>p. p\<lparr>pf_dirty := False\<rparr>) s;
     s \<leftarrow> pframe_remove_from_pts C X pf s;
     s \<leftarrow> pf_upd pf (\<lambda>p. p\<lparr>pf_busy := True\<rparr>) s;
     ob \<leftarrow> pf_obj p;
     (ret, s) \<leftarrow> ocleanpage T ob pf s;
     s \<leftarrow> (if ret < 0 then pf_upd pf (\<lambda>p. p\<lparr>pf_dirty := True\<rparr>) s else Some s);
     s \<leftarrow> pf_upd pf (\<lambda>p. p\<lparr>pf_busy := False\<rparr>) s;
     s \<leftarrow> sched_broadcast_on (Pf_waitq pf) s;
     Some (ret, s)
   }"

definition pframe_free ::
  "mconf \<Rightarrow> 'a vm_st_scheme vm_ext \<Rightarrow> 'a vm_st_scheme obj_ops \<Rightarrow> ptr \<Rightarrow> 'a vm_st_scheme \<Rightarrow> 'a vm_st_scheme option" where
  "pframe_free C X T pf s = do {
     p \<leftarrow> pframes s pf;
     _ \<leftarrow> kassert (\<not> pframe_is_pinned p);
     _ \<leftarrow> kassert (\<not> pframe_is_free p);
     _ \<leftarrow> kassert (\<not> pf_busy p);
     ob \<leftarrow> pf_obj p;
     s \<leftarrow> pframe_remove_from_pts C X pf s;
     let h = hash_page C ob (pf_pagenum p);
     let s = s\<lparr>pframe_hash := (pframe_hash s)(h := remove1 pf (pframe_hash s h))\<rparr>;
     let s = s\<lparr>nallocated := nallocated s - 1, alloc_list := remove1 pf (alloc_list s)\<rparr>;
     let s = s\<lparr>pframes := (pframes s)(pf := None)\<rparr>;
     s \<leftarrow> add_nrespages (- 1) ob s;
     s \<leftarrow> obj_upd ob (\<lambda>m. m\<lparr>mmo_respages := remove1 pf (mmo_respages m)\<rparr>) s;
     oput T ob s
   }"

definition pframe_migrate ::
  "mconf \<Rightarrow> 'a vm_st_scheme vm_ext \<Rightarrow> 'a vm_st_scheme obj_ops \<Rightarrow> ptr \<Rightarrow> ptr \<Rightarrow> 'a vm_st_scheme \<Rightarrow> 'a vm_st_scheme option" where
  "pframe_migrate C X T pf dest s = do {
     p \<leftarrow> pframes s pf;
     _ \<leftarrow> kassert (\<not> pf_busy p);
     (there, s) \<leftarrow> pframe_get_resident C dest (pf_pagenum p) s;
     if there \<noteq> None then do {
       s \<leftarrow> pframe_unpin pf s;
       (_, s) \<leftarrow> pframe_clean C X T pf s;
       pframe_free C X T pf s
     } else do {
       src \<leftarrow> pf_obj p;
       s \<leftarrow> pf_upd pf (\<lambda>p. p\<lparr>pf_obj := Some dest\<rparr>) s;
       let h = hash_page C src (pf_pagenum p);
       let s = s\<lparr>pframe_hash := (pframe_hash s)(h := remove1 pf (pframe_hash s h))\<rparr>;
       s \<leftarrow> obj_upd src (\<lambda>m. m\<lparr>mmo_respages := remove1 pf (mmo_respages m)\<rparr>) s;
       s \<leftarrow> add_nrespages (- 1) src s;
       s \<leftarrow> oput T src s;
       let h = hash_page C dest (pf_pagenum p);
       let s = s\<lparr>pframe_hash := (pframe_hash s)(h := pf # pframe_hash s h)\<rparr>;
       s \<leftarrow> obj_upd dest (\<lambda>m. m\<lparr>mmo_respages := pf # mmo_respages m\<rparr>) s;
       s \<leftarrow> add_nrespages 1 dest s;
       oref T dest s
     }
   }"

definition pframe_get ::
  "(errno \<Rightarrow> int) \<Rightarrow> mconf \<Rightarrow> 'a vm_st_scheme vm_ext \<Rightarrow> 'a vm_st_scheme obj_ops \<Rightarrow> ptr \<Rightarrow> u32 \<Rightarrow> 'a vm_st_scheme
    \<Rightarrow> ((int \<times> ptr option) \<times> 'a vm_st_scheme) option" where
  "pframe_get E C X T ob pagenum s = do {
     (result, s) \<leftarrow> pframe_get_resident C ob pagenum s;
     case result of
       Some pf \<Rightarrow> do {
         p \<leftarrow> pframes s pf;
         s \<leftarrow> (if pf_busy p then vm_sleep X (Pf_waitq pf) s else Some s);
         p \<leftarrow> pframes s pf;
         _ \<leftarrow> kassert (\<not> pf_busy p);
         Some ((0, Some pf), s)
       }
     | None \<Rightarrow> do {
         (result, s) \<leftarrow> pframe_alloc C X T ob pagenum s;
         _ \<leftarrow> kassert (result \<noteq> None);
         pf \<leftarrow> result;
         (fill_frame, s) \<leftarrow> pframe_fill T pf s;
         if fill_frame < 0 then do {
           p \<leftarrow> pframes s pf;
           s \<leftarrow> pframe_free C X T pf s;
           _ \<leftarrow> kassert (\<not> pf_busy p);
           Some ((- E EFAULT, Some pf), s)
         } else do {
           p \<leftarrow> pframes s pf;
           _ \<leftarrow> kassert (\<not> pf_busy p);
           Some ((0, Some pf), s)
         }
       }
   }"

subsection \<open>The page-out daemon\<close>

partial_function (option) pframe_clean_all ::
  "mconf \<Rightarrow> 'a vm_st_scheme vm_ext \<Rightarrow> 'a vm_st_scheme obj_ops \<Rightarrow> ptr list \<Rightarrow> 'a vm_st_scheme \<Rightarrow> 'a vm_st_scheme option" where
  "pframe_clean_all C X T rest s =
     (case rest of
        [] \<Rightarrow> Some s
      | pf # pfs \<Rightarrow> do {
          p \<leftarrow> pframes s pf;
          _ \<leftarrow> kassert (\<not> pframe_is_pinned p);
          _ \<leftarrow> kassert (\<not> pframe_is_free p);
          if pf_busy p then do {
            s \<leftarrow> vm_sleep X (Pf_waitq pf) s;
            pframe_clean_all C X T (alloc_list s) s
          } else if pf_dirty p then do {
            (_, s) \<leftarrow> pframe_clean C X T pf s;
            pframe_clean_all C X T (alloc_list s) s
          } else pframe_clean_all C X T pfs s
        })"

text \<open>One round of the daemon, from waking up to going to sleep again.\<close>

partial_function (option) pageoutd_reclaim ::
  "mconf \<Rightarrow> 'a vm_st_scheme vm_ext \<Rightarrow> 'a vm_st_scheme obj_ops \<Rightarrow> 'a vm_st_scheme \<Rightarrow> 'a vm_st_scheme option" where
  "pageoutd_reclaim C X T s =
     (if \<not> page_free_count X s \<ge> nfreepages_target s \<and> alloc_list s \<noteq> [] then do {
        let pf = hd (alloc_list s);
        p \<leftarrow> pframes s pf;
        s \<leftarrow> (if pf_busy p then vm_sleep X (Pf_waitq pf) s
              else if pf_dirty p then do { (_, s) \<leftarrow> pframe_clean C X T pf s; Some s }
              else pframe_free C X T pf s);
        pageoutd_reclaim C X T s
      } else Some s)"

definition pageoutd_round ::
  "mconf \<Rightarrow> 'a vm_st_scheme vm_ext \<Rightarrow> 'a vm_st_scheme obj_ops \<Rightarrow> 'a vm_st_scheme \<Rightarrow> 'a vm_st_scheme option" where
  "pageoutd_round C X T s = do {
     _ \<leftarrow> kassert (nallocated s \<ge> 0);
     s \<leftarrow> pageoutd_reclaim C X T s;
     sched_broadcast_on Alloc_waitq s
   }"

end
