(* ===== verification/Mmobj.thy ===== *)
theory Mmobj
  imports Pframe
begin

section \<open>Anonymous and shadow objects\<close>

text \<open>
  The model of \<^verbatim>\<open>K3/anon.c\<close> and \<^verbatim>\<open>K3/shadow.c\<close>. The operations of an object call the page cache, which calls
  operations of objects again. The table \<open>obj_ops_n n\<close> holds the operations whose calls nest at most \<open>n\<close>
  deep, so that \<open>None\<close> for every \<open>n\<close> means that the nesting does not end.
\<close>

subsection \<open>Anonymous objects\<close>

definition anon_create :: "'a vm_st_scheme vm_ext \<Rightarrow> 'a vm_st_scheme \<Rightarrow> (ptr \<times> 'a vm_st_scheme) option" where
  "anon_create X s = do {
     ob \<leftarrow> slab_anon X s;
     Some (ob, s\<lparr>mmobjs := (mmobjs s)(ob \<mapsto> (mmobj_init X Anon_mmobj_ops)\<lparr>mmo_refcount := 1\<rparr>)\<rparr>)
   }"

definition anon_ref :: "ptr \<Rightarrow> 'a vm_st_scheme \<Rightarrow> 'a vm_st_scheme option" where
  "anon_ref ob s = do {
     m \<leftarrow> mmobjs s ob;
     _ \<leftarrow> kassert (0 < mmo_refcount m \<and> mmo_ops m = Anon_mmobj_ops);
     obj_upd ob (\<lambda>m. m\<lparr>mmo_refcount := mmo_refcount m + 1\<rparr>) s
   }"

fun anon_free_pages ::
  "mconf \<Rightarrow> 'a vm_st_scheme vm_ext \<Rightarrow> 'a vm_st_scheme obj_ops \<Rightarrow> ptr list \<Rightarrow> 'a vm_st_scheme \<Rightarrow> 'a vm_st_scheme option" where
  "anon_free_pages C X T [] s = Some s"
| "anon_free_pages C X T (pf # pfs) s = do {
     p \<leftarrow> pframes s pf;
     s \<leftarrow> (if \<not> pf_dirty p then pframe_free C X T pf s
           else do {
             (_, s) \<leftarrow> pframe_clean C X T pf s;
             pframe_free C X T pf s
           });
     anon_free_pages C X T pfs s
   }"

definition anon_put ::
  "mconf \<Rightarrow> 'a vm_st_scheme vm_ext \<Rightarrow> 'a vm_st_scheme obj_ops \<Rightarrow> ptr \<Rightarrow> 'a vm_st_scheme \<Rightarrow> 'a vm_st_scheme option" where
  "anon_put C X T ob s = do {
     m \<leftarrow> mmobjs s ob;
     _ \<leftarrow> kassert (0 < mmo_refcount m \<and> mmo_ops m = Anon_mmobj_ops);
     if mmo_refcount m \<noteq> mmo_nrespages m + 1
     then obj_upd ob (\<lambda>m. m\<lparr>mmo_refcount := mmo_refcount m - 1\<rparr>) s
     else do {
       s \<leftarrow> anon_free_pages C X T (mmo_respages m) s;
       Some (s\<lparr>mmobjs := (mmobjs s)(ob := None)\<rparr>)
     }
   }"

definition anon_lookuppage ::
  "(errno \<Rightarrow> int) \<Rightarrow> mconf \<Rightarrow> 'a vm_st_scheme vm_ext \<Rightarrow> 'a vm_st_scheme obj_ops \<Rightarrow> ptr \<Rightarrow> u32 \<Rightarrow> bool \<Rightarrow> 'a vm_st_scheme
    \<Rightarrow> ((int \<times> ptr option) \<times> 'a vm_st_scheme) option" where
  "anon_lookuppage E C X T ob pagenum forwrite s = pframe_get E C X T ob pagenum s"

definition anon_fillpage :: "mconf \<Rightarrow> ptr \<Rightarrow> ptr \<Rightarrow> 'a vm_st_scheme \<Rightarrow> (int \<times> 'a vm_st_scheme) option" where
  "anon_fillpage C ob pf s = do {
     p \<leftarrow> pframes s pf;
     _ \<leftarrow> kassert (pf_busy p);
     _ \<leftarrow> kassert (\<not> pframe_is_pinned p);
     s \<leftarrow> pframe_pin pf s;
     s \<leftarrow> pf_upd pf (\<lambda>p. p\<lparr>pf_data := replicate (PAGE_SIZE C) 0\<rparr>) s;
     s \<leftarrow> pframe_unpin pf s;
     Some (0, s)
   }"

definition anon_dirtypage :: "ptr \<Rightarrow> ptr \<Rightarrow> 'a vm_st_scheme \<Rightarrow> (int \<times> 'a vm_st_scheme) option" where
  "anon_dirtypage ob pf s = do {
     s \<leftarrow> pf_upd pf (\<lambda>p. p\<lparr>pf_dirty := True\<rparr>) s;
     Some (1, s)
   }"

definition anon_cleanpage :: "ptr \<Rightarrow> ptr \<Rightarrow> 'a vm_st_scheme \<Rightarrow> (int \<times> 'a vm_st_scheme) option" where
  "anon_cleanpage ob pf s = do {
     s \<leftarrow> pf_upd pf (\<lambda>p. p\<lparr>pf_dirty := False\<rparr>) s;
     Some (1, s)
   }"

subsection \<open>Shadow objects\<close>

definition shadow_create :: "'a vm_st_scheme vm_ext \<Rightarrow> 'a vm_st_scheme \<Rightarrow> (ptr \<times> 'a vm_st_scheme) option" where
  "shadow_create X s = do {
     ob \<leftarrow> slab_shadow X s;
     Some (ob, s\<lparr>mmobjs := (mmobjs s)(ob \<mapsto> (mmobj_init X Shadow_mmobj_ops)\<lparr>mmo_refcount := 1\<rparr>)\<rparr>)
   }"

definition shadow_ref :: "ptr \<Rightarrow> 'a vm_st_scheme \<Rightarrow> 'a vm_st_scheme option" where
  "shadow_ref ob s = do {
     m \<leftarrow> mmobjs s ob;
     _ \<leftarrow> kassert (0 < mmo_refcount m \<and> mmo_ops m = Shadow_mmobj_ops);
     obj_upd ob (\<lambda>m. m\<lparr>mmo_refcount := mmo_refcount m + 1\<rparr>) s
   }"

fun shadow_free_pages ::
  "mconf \<Rightarrow> 'a vm_st_scheme vm_ext \<Rightarrow> 'a vm_st_scheme obj_ops \<Rightarrow> ptr list \<Rightarrow> 'a vm_st_scheme \<Rightarrow> 'a vm_st_scheme option" where
  "shadow_free_pages C X T [] s = Some s"
| "shadow_free_pages C X T (pf # pfs) s = do {
     s \<leftarrow> pframe_unpin pf s;
     (_, s) \<leftarrow> pframe_clean C X T pf s;
     s \<leftarrow> pframe_free C X T pf s;
     shadow_free_pages C X T pfs s
   }"

definition shadow_put ::
  "mconf \<Rightarrow> 'a vm_st_scheme vm_ext \<Rightarrow> 'a vm_st_scheme obj_ops \<Rightarrow> ptr \<Rightarrow> 'a vm_st_scheme \<Rightarrow> 'a vm_st_scheme option" where
  "shadow_put C X T ob s = do {
     m \<leftarrow> mmobjs s ob;
     _ \<leftarrow> kassert (0 < mmo_refcount m \<and> mmo_ops m = Shadow_mmobj_ops);
     if mmo_refcount m \<noteq> mmo_nrespages m + 1
     then obj_upd ob (\<lambda>m. m\<lparr>mmo_refcount := mmo_refcount m - 1\<rparr>) s
     else do {
       s \<leftarrow> shadow_free_pages C X T (mmo_respages m) s;
       m \<leftarrow> mmobjs s ob;
       sh \<leftarrow> mmo_shadowed m;
       s \<leftarrow> oput T sh s;
       Some (s\<lparr>mmobjs := (mmobjs s)(ob := None)\<rparr>)
     }
   }"

text \<open>
  The loop of \<^verbatim>\<open>shadow_lookuppage\<close> ends with a resident page (\<open>Inl\<close>), or with the object at the end of the
  chain, which shadows nothing (\<open>Inr\<close>).
\<close>

partial_function (option) shadow_find ::
  "mconf \<Rightarrow> u32 \<Rightarrow> ptr \<Rightarrow> 'a vm_st_scheme \<Rightarrow> ((ptr + ptr) \<times> 'a vm_st_scheme) option" where
  "shadow_find C pagenum shad_next s = do {
     (pf_temp, s) \<leftarrow> pframe_get_resident C shad_next pagenum s;
     case pf_temp of
       Some pf \<Rightarrow> Some (Inl pf, s)
     | None \<Rightarrow> do {
         m \<leftarrow> mmobjs s shad_next;
         shad_next \<leftarrow> mmo_shadowed m;
         m \<leftarrow> mmobjs s shad_next;
         if mmo_shadowed m \<noteq> None then shadow_find C pagenum shad_next s else Some (Inr shad_next, s)
       }
   }"

definition shadow_dirtypage :: "ptr \<Rightarrow> ptr \<Rightarrow> 'a vm_st_scheme \<Rightarrow> (int \<times> 'a vm_st_scheme) option" where
  "shadow_dirtypage ob pf s = do {
     s \<leftarrow> pf_upd pf (\<lambda>p. p\<lparr>pf_dirty := True\<rparr>) s;
     Some (0, s)
   }"

definition shadow_lookuppage ::
  "(errno \<Rightarrow> int) \<Rightarrow> mconf \<Rightarrow> 'a vm_st_scheme vm_ext \<Rightarrow> 'a vm_st_scheme obj_ops \<Rightarrow> ptr \<Rightarrow> u32 \<Rightarrow> bool \<Rightarrow> 'a vm_st_scheme
    \<Rightarrow> ((int \<times> ptr option) \<times> 'a vm_st_scheme) option" where
  "shadow_lookuppage E C X T ob pagenum forwrite s =
     (if \<not> forwrite then do {
        m \<leftarrow> mmobjs s ob;
        (found, s) \<leftarrow> (if mmo_shadowed m \<noteq> None then shadow_find C pagenum ob s else Some (Inr ob, s));
        case found of
          Inl pf \<Rightarrow> Some ((0, Some pf), s)
        | Inr shad_next \<Rightarrow> do {
            ((retVal, pf), s) \<leftarrow> pframe_lookup T shad_next pagenum False s;
            if retVal < 0 then Some ((retVal, pf), s)
            else do {
              f \<leftarrow> pf;
              p \<leftarrow> pframes s f;
              _ \<leftarrow> kassert (pagenum = pf_pagenum p \<and> \<not> pf_busy p);
              Some ((0, pf), s)
            }
          }
      } else do {
        (pf_temp, s) \<leftarrow> pframe_get_resident C ob pagenum s;
        case pf_temp of
          None \<Rightarrow> do {
            ((retVal, pf), s) \<leftarrow> pframe_get E C X T ob pagenum s;
            if retVal \<noteq> 0 then Some ((retVal, pf), s)
            else do {
              f \<leftarrow> pf;
              (_, s) \<leftarrow> shadow_dirtypage ob f s;
              Some ((0, pf), s)
            }
          }
        | Some pf \<Rightarrow> Some ((0, Some pf), s)
      })"

text \<open>The loop of \<^verbatim>\<open>shadow_fillpage\<close> looks for the page in the objects below, from the nearest.\<close>

partial_function (option) shadow_source ::
  "mconf \<Rightarrow> u32 \<Rightarrow> ptr \<Rightarrow> 'a vm_st_scheme \<Rightarrow> (ptr option \<times> 'a vm_st_scheme) option" where
  "shadow_source C pagenum shad_next s = do {
     m \<leftarrow> mmobjs s shad_next;
     case mmo_shadowed m of
       None \<Rightarrow> Some (None, s)
     | Some sh \<Rightarrow> do {
         (pf_temp, s) \<leftarrow> pframe_get_resident C sh pagenum s;
         case pf_temp of
           Some pf \<Rightarrow> Some (Some pf, s)
         | None \<Rightarrow> shadow_source C pagenum sh s
       }
   }"

definition copy_page :: "ptr \<Rightarrow> ptr \<Rightarrow> 'a vm_st_scheme \<Rightarrow> 'a vm_st_scheme option" where
  "copy_page to from s = do {
     p \<leftarrow> pframes s from;
     pf_upd to (\<lambda>q. q\<lparr>pf_data := pf_data p\<rparr>) s
   }"

definition shadow_fillpage ::
  "mconf \<Rightarrow> 'a vm_st_scheme obj_ops \<Rightarrow> ptr \<Rightarrow> ptr \<Rightarrow> 'a vm_st_scheme \<Rightarrow> (int \<times> 'a vm_st_scheme) option" where
  "shadow_fillpage C T ob pf s = do {
     p \<leftarrow> pframes s pf;
     _ \<leftarrow> kassert (pf_busy p);
     _ \<leftarrow> kassert (\<not> pframe_is_pinned p);
     (pf_temp, s) \<leftarrow> shadow_source C (pf_pagenum p) ob s;
     case pf_temp of
       Some t \<Rightarrow> do {
         s \<leftarrow> pframe_pin pf s;
         s \<leftarrow> copy_page pf t s;
         Some (0, s)
       }
     | None \<Rightarrow> do {
         m \<leftarrow> mmobjs s ob;
         bottom \<leftarrow> (case mmo_un m of Mmo_bottom_obj b \<Rightarrow> b | Mmo_vmas _ \<Rightarrow> None);
         ((retVal, pf_temp), s) \<leftarrow> pframe_lookup T bottom (pf_pagenum p) False s;
         if retVal \<noteq> 0 then Some (retVal, s)
         else do {
           t \<leftarrow> pf_temp;
           s \<leftarrow> pframe_pin pf s;
           s \<leftarrow> copy_page pf t s;
           Some (0, s)
         }
       }
   }"

definition shadow_cleanpage ::
  "'a vm_st_scheme obj_ops \<Rightarrow> ptr \<Rightarrow> ptr \<Rightarrow> 'a vm_st_scheme \<Rightarrow> (int \<times> 'a vm_st_scheme) option" where
  "shadow_cleanpage T ob pf s = do {
     p \<leftarrow> pframes s pf;
     ((_, pf_temp), s) \<leftarrow> olookuppage T ob (pf_pagenum p) True s;
     t \<leftarrow> pf_temp;
     s \<leftarrow> copy_page t pf s;
     s \<leftarrow> pf_upd t (\<lambda>p. p\<lparr>pf_dirty := False\<rparr>) s;
     Some (0, s)
   }"

subsection \<open>The tables of operations\<close>

definition obj_table ::
  "(errno \<Rightarrow> int) \<Rightarrow> mconf \<Rightarrow> 'a vm_st_scheme vm_ext \<Rightarrow> 'a vm_st_scheme obj_ops \<Rightarrow> 'a vm_st_scheme obj_ops" where
  "obj_table E C X T = \<lparr>
     oref = \<lambda>ob s. do { m \<leftarrow> mmobjs s ob; case mmo_ops m of
       Anon_mmobj_ops \<Rightarrow> anon_ref ob s | Shadow_mmobj_ops \<Rightarrow> shadow_ref ob s | Vnode_mmobj_ops \<Rightarrow> vo_vref X ob s },
     oput = \<lambda>ob s. do { m \<leftarrow> mmobjs s ob; case mmo_ops m of
       Anon_mmobj_ops \<Rightarrow> anon_put C X T ob s | Shadow_mmobj_ops \<Rightarrow> shadow_put C X T ob s | Vnode_mmobj_ops \<Rightarrow> vo_vput X ob s },
     olookuppage = \<lambda>ob n w s. do { m \<leftarrow> mmobjs s ob; case mmo_ops m of
       Anon_mmobj_ops \<Rightarrow> anon_lookuppage E C X T ob n w s | Shadow_mmobj_ops \<Rightarrow> shadow_lookuppage E C X T ob n w s
     | Vnode_mmobj_ops \<Rightarrow> vlookuppage X ob n w s },
     ofillpage = \<lambda>ob pf s. do { m \<leftarrow> mmobjs s ob; case mmo_ops m of
       Anon_mmobj_ops \<Rightarrow> anon_fillpage C ob pf s | Shadow_mmobj_ops \<Rightarrow> shadow_fillpage C T ob pf s
     | Vnode_mmobj_ops \<Rightarrow> vreadpage X ob pf s },
     odirtypage = \<lambda>ob pf s. do { m \<leftarrow> mmobjs s ob; case mmo_ops m of
       Anon_mmobj_ops \<Rightarrow> anon_dirtypage ob pf s | Shadow_mmobj_ops \<Rightarrow> shadow_dirtypage ob pf s
     | Vnode_mmobj_ops \<Rightarrow> vdirtypage X ob pf s },
     ocleanpage = \<lambda>ob pf s. do { m \<leftarrow> mmobjs s ob; case mmo_ops m of
       Anon_mmobj_ops \<Rightarrow> anon_cleanpage ob pf s | Shadow_mmobj_ops \<Rightarrow> shadow_cleanpage T ob pf s
     | Vnode_mmobj_ops \<Rightarrow> vcleanpage X ob pf s }\<rparr>"

primrec obj_ops_n ::
  "(errno \<Rightarrow> int) \<Rightarrow> mconf \<Rightarrow> 'a vm_st_scheme vm_ext \<Rightarrow> nat \<Rightarrow> 'a vm_st_scheme obj_ops" where
  "obj_ops_n E C X 0 = \<lparr>oref = \<lambda>_ _. None, oput = \<lambda>_ _. None, olookuppage = \<lambda>_ _ _ _. None,
     ofillpage = \<lambda>_ _ _. None, odirtypage = \<lambda>_ _ _. None, ocleanpage = \<lambda>_ _ _. None\<rparr>"
| "obj_ops_n E C X (Suc n) = obj_table E C X (obj_ops_n E C X n)"

end
