(* ===== verification/Vmmap.thy ===== *)
theory Vmmap
  imports Mmobj
begin

section \<open>Address spaces\<close>

text \<open>
  The model of \<^verbatim>\<open>K3/vmmap.c\<close>. An address space is the list of the addresses of its areas. Loops over that
  list are recursions on the list as it is when the loop starts: the iteration macro reads the next
  link before it runs the body, which changes at most the links of the current area and its right
  neighbour, an area the loop does not visit. Page numbers are 32-bit words.
\<close>

subsection \<open>Areas and maps\<close>

definition vmarea_alloc :: "'a vm_st_scheme vm_ext \<Rightarrow> 'a vm_st_scheme \<Rightarrow> (ptr option \<times> 'a vm_st_scheme)" where
  "vmarea_alloc X s = (case slab_vmarea X s of
       None \<Rightarrow> (None, s)
     | Some (a, v) \<Rightarrow> (Some a, s\<lparr>vmareas := (vmareas s)(a \<mapsto> v\<lparr>vma_vmmap := None\<rparr>)\<rparr>))"

definition vmarea_free :: "ptr \<Rightarrow> 'a vm_st_scheme \<Rightarrow> 'a vm_st_scheme" where
  "vmarea_free a s = s\<lparr>vmareas := (vmareas s)(a := None)\<rparr>"

definition vmmap_create :: "'a vm_st_scheme vm_ext \<Rightarrow> 'a vm_st_scheme \<Rightarrow> (ptr option \<times> 'a vm_st_scheme)" where
  "vmmap_create X s = (case slab_vmmap X s of
       None \<Rightarrow> (None, s)
     | Some m \<Rightarrow> (Some m, s\<lparr>vmmaps := (vmmaps s)(m \<mapsto> \<lparr>vmm_list = [], vmm_proc = None\<rparr>)\<rparr>))"

text \<open>\<^verbatim>\<open>list_remove(&vma->vma_olink)\<close> takes the area off the list of the object it is linked on.\<close>

definition unlink_olink :: "ptr \<Rightarrow> 'a vm_st_scheme \<Rightarrow> 'a vm_st_scheme" where
  "unlink_olink a s = s\<lparr>mmobjs := \<lambda>ob. map_option (\<lambda>m. m\<lparr>mmo_un := (case mmo_un m of
       Mmo_vmas vs \<Rightarrow> Mmo_vmas (remove1 a vs) | Mmo_bottom_obj b \<Rightarrow> Mmo_bottom_obj b)\<rparr>) (mmobjs s ob)\<rparr>"

definition add_vma :: "(ptr list \<Rightarrow> ptr list) \<Rightarrow> ptr \<Rightarrow> 'a vm_st_scheme \<Rightarrow> 'a vm_st_scheme option" where
  "add_vma f ob s = do {
     m \<leftarrow> mmobjs s ob;
     case mmo_un m of
       Mmo_vmas vs \<Rightarrow> obj_upd ob (\<lambda>m. m\<lparr>mmo_un := Mmo_vmas (f vs)\<rparr>) s
     | Mmo_bottom_obj _ \<Rightarrow> None
   }"

definition map_upd :: "ptr \<Rightarrow> (ptr list \<Rightarrow> ptr list) \<Rightarrow> 'a vm_st_scheme \<Rightarrow> 'a vm_st_scheme option" where
  "map_upd mp f s = do {
     m \<leftarrow> vmmaps s mp;
     Some (s\<lparr>vmmaps := (vmmaps s)(mp \<mapsto> m\<lparr>vmm_list := f (vmm_list m)\<rparr>)\<rparr>)
   }"

definition drop_area :: "'a vm_st_scheme obj_ops \<Rightarrow> ptr \<Rightarrow> ptr \<Rightarrow> 'a vm_st_scheme \<Rightarrow> 'a vm_st_scheme option" where
  "drop_area T mp a s = do {
     let s = unlink_olink a s;
     s \<leftarrow> map_upd mp (remove1 a) s;
     v \<leftarrow> vmareas s a;
     ob \<leftarrow> vma_obj v;
     s \<leftarrow> oput T ob s;
     Some (vmarea_free a s)
   }"

fun drop_areas :: "'a vm_st_scheme obj_ops \<Rightarrow> ptr \<Rightarrow> ptr list \<Rightarrow> 'a vm_st_scheme \<Rightarrow> 'a vm_st_scheme option" where
  "drop_areas T mp [] s = Some s"
| "drop_areas T mp (a # as) s = do { s \<leftarrow> drop_area T mp a s; drop_areas T mp as s }"

definition vmmap_destroy :: "'a vm_st_scheme obj_ops \<Rightarrow> ptr \<Rightarrow> 'a vm_st_scheme \<Rightarrow> 'a vm_st_scheme option" where
  "vmmap_destroy T mp s = do {
     m \<leftarrow> vmmaps s mp;
     s \<leftarrow> drop_areas T mp (vmm_list m) s;
     Some (s\<lparr>vmmaps := (vmmaps s)(mp := None)\<rparr>)
   }"

fun insert_area :: "(ptr \<Rightarrow> vmarea option) \<Rightarrow> ptr \<Rightarrow> u32 \<Rightarrow> ptr list \<Rightarrow> ptr list option" where
  "insert_area A new start [] = Some [new]"
| "insert_area A new start (a # as) = do {
     v \<leftarrow> A a;
     if start \<le> vma_start v then Some (new # a # as)
     else do { r \<leftarrow> insert_area A new start as; Some (a # r) }
   }"

definition vmmap_insert :: "mconf \<Rightarrow> ptr \<Rightarrow> ptr \<Rightarrow> 'a vm_st_scheme \<Rightarrow> 'a vm_st_scheme option" where
  "vmmap_insert C mp new s = do {
     v \<leftarrow> vmareas s new;
     _ \<leftarrow> kassert (vma_vmmap v = None);
     _ \<leftarrow> kassert (vma_start v < vma_end v);
     _ \<leftarrow> kassert (ADDR_TO_PN C (USER_MEM_LOW C) \<le> vma_start v \<and> ADDR_TO_PN C (USER_MEM_HIGH C) \<ge> vma_end v);
     s \<leftarrow> vma_upd new (\<lambda>v. v\<lparr>vma_vmmap := Some mp\<rparr>) s;
     m \<leftarrow> vmmaps s mp;
     as \<leftarrow> insert_area (vmareas s) new (vma_start v) (vmm_list m);
     map_upd mp (\<lambda>_. as) s
   }"

subsection \<open>Searching\<close>

text \<open>
  \<open>find_hilo\<close> and \<open>find_lohi\<close> are the two loops of \<^verbatim>\<open>vmmap_find_range\<close>; they return \<^verbatim>\<open>retVal\<close> and \<^verbatim>\<open>holder\<close>. The
  unsigned page number that is stored in the \<^verbatim>\<open>int\<close> \<^verbatim>\<open>retVal\<close> keeps its bits.
\<close>

fun find_hilo :: "mconf \<Rightarrow> (ptr \<Rightarrow> vmarea option) \<Rightarrow> u32 \<Rightarrow> ptr list \<Rightarrow> vmarea option \<Rightarrow> (int \<times> vmarea option) option" where
  "find_hilo C A npages [] holder = Some (- 1, holder)"
| "find_hilo C A npages (a # as) holder = do {
     v \<leftarrow> A a;
     case holder of
       None \<Rightarrow> if npages \<le> ADDR_TO_PN C (USER_MEM_HIGH C) - vma_end v
               then Some (sint (ADDR_TO_PN C (USER_MEM_HIGH C) - npages), holder)
               else find_hilo C A npages as (Some v)
     | Some h \<Rightarrow> if npages \<le> vma_start h - vma_end v then Some (sint (vma_start h - npages), holder)
               else find_hilo C A npages as (Some v)
   }"

fun find_lohi :: "mconf \<Rightarrow> (ptr \<Rightarrow> vmarea option) \<Rightarrow> u32 \<Rightarrow> ptr list \<Rightarrow> vmarea option \<Rightarrow> (int \<times> vmarea option) option" where
  "find_lohi C A npages [] holder = Some (- 1, holder)"
| "find_lohi C A npages (a # as) holder = do {
     v \<leftarrow> A a;
     case holder of
       None \<Rightarrow> if npages \<le> vma_start v - ADDR_TO_PN C (USER_MEM_LOW C)
               then Some (sint (ADDR_TO_PN C (USER_MEM_LOW C)), holder)
               else find_lohi C A npages as (Some v)
     | Some h \<Rightarrow> if npages \<le> vma_start v - vma_end h then Some (sint (vma_end h), holder)
               else find_lohi C A npages as (Some v)
   }"

definition vmmap_find_range :: "mconf \<Rightarrow> ptr \<Rightarrow> u32 \<Rightarrow> int \<Rightarrow> 'a vm_st_scheme \<Rightarrow> int option" where
  "vmmap_find_range C mp npages dir s = do {
     m \<leftarrow> vmmaps s mp;
     if dir = VMMAP_DIR_HILO C then do {
       (retVal, holder) \<leftarrow> find_hilo C (vmareas s) npages (rev (vmm_list m)) None;
       if retVal < 0 then do {
         h \<leftarrow> holder;
         if npages \<le> vma_start h - ADDR_TO_PN C (USER_MEM_LOW C) then Some (sint (vma_start h - npages))
         else Some retVal
       } else Some retVal
     } else if dir = VMMAP_DIR_LOHI C then do {
       (retVal, holder) \<leftarrow> find_lohi C (vmareas s) npages (vmm_list m) None;
       if retVal < 0 then
         (if holder = None \<and> npages \<le> ADDR_TO_PN C (USER_MEM_HIGH C) - ADDR_TO_PN C (USER_MEM_LOW C)
          then Some (sint (ADDR_TO_PN C (USER_MEM_LOW C)))
          else do {
            h \<leftarrow> holder;
            if npages \<le> ADDR_TO_PN C (USER_MEM_HIGH C) - vma_end h then Some (sint (vma_end h)) else Some retVal
          })
       else Some retVal
     } else Some (- 1)
   }"

fun lookup_area :: "(ptr \<Rightarrow> vmarea option) \<Rightarrow> u32 \<Rightarrow> ptr list \<Rightarrow> ptr option option" where
  "lookup_area A vfn [] = Some None"
| "lookup_area A vfn (a # as) = do {
     v \<leftarrow> A a;
     if vfn \<ge> vma_start v \<and> vfn < vma_end v then Some (Some a) else lookup_area A vfn as
   }"

definition vmmap_lookup :: "ptr \<Rightarrow> u32 \<Rightarrow> 'a vm_st_scheme \<Rightarrow> ptr option option" where
  "vmmap_lookup mp vfn s = do {
     m \<leftarrow> vmmaps s mp;
     lookup_area (vmareas s) vfn (vmm_list m)
   }"

fun range_empty :: "(ptr \<Rightarrow> vmarea option) \<Rightarrow> u32 \<Rightarrow> u32 \<Rightarrow> ptr list \<Rightarrow> int option" where
  "range_empty A startvfn sum_pages [] = Some 1"
| "range_empty A startvfn sum_pages (a # as) = do {
     v \<leftarrow> A a;
     if vma_end v > startvfn then
       (if sum_pages \<le> vma_start v then range_empty A startvfn sum_pages as else Some 0)
     else range_empty A startvfn sum_pages as
   }"

definition vmmap_is_range_empty :: "mconf \<Rightarrow> ptr \<Rightarrow> u32 \<Rightarrow> u32 \<Rightarrow> 'a vm_st_scheme \<Rightarrow> int option" where
  "vmmap_is_range_empty C mp startvfn npages s = do {
     let endvfn = startvfn + npages;
     _ \<leftarrow> kassert (startvfn < endvfn \<and> ADDR_TO_PN C (USER_MEM_LOW C) \<le> startvfn
                    \<and> ADDR_TO_PN C (USER_MEM_HIGH C) \<ge> endvfn);
     m \<leftarrow> vmmaps s mp;
     range_empty (vmareas s) startvfn endvfn (vmm_list m)
   }"

subsection \<open>Cloning\<close>

fun clone_areas :: "'a vm_st_scheme vm_ext \<Rightarrow> ptr \<Rightarrow> ptr list \<Rightarrow> 'a vm_st_scheme \<Rightarrow> 'a vm_st_scheme option" where
  "clone_areas X ret_map [] s = Some s"
| "clone_areas X ret_map (a # as) s = do {
     let (area, s) = vmarea_alloc X s;
     v \<leftarrow> vmareas s a;
     b \<leftarrow> area;
     s \<leftarrow> vma_upd b (\<lambda>w. w\<lparr>vma_off := vma_off v, vma_start := vma_start v, vma_end := vma_end v,
                             vma_flags := vma_flags v, vma_prot := vma_prot v, vma_vmmap := Some ret_map\<rparr>) s;
     s \<leftarrow> map_upd ret_map (\<lambda>l. l @ [b]) s;
     clone_areas X ret_map as s
   }"

definition vmmap_clone :: "'a vm_st_scheme vm_ext \<Rightarrow> ptr \<Rightarrow> 'a vm_st_scheme \<Rightarrow> (ptr option \<times> 'a vm_st_scheme) option" where
  "vmmap_clone X mp s = do {
     let (ret_map, s) = vmmap_create X s;
     m \<leftarrow> vmmaps s mp;
     case ret_map of
       None \<Rightarrow> if vmm_list m = [] then Some (None, s) else None
     | Some r \<Rightarrow> do {
         s \<leftarrow> clone_areas X r (vmm_list m) s;
         Some (Some r, s)
       }
   }"

subsection \<open>Removing a range\<close>

fun insert_after :: "ptr \<Rightarrow> ptr \<Rightarrow> ptr list \<Rightarrow> ptr list" where
  "insert_after a b [] = []"
| "insert_after a b (x # xs) = (if x = a then x # b # xs else x # insert_after a b xs)"

text \<open>Case 1 of the comment: the range lies inside the area \<open>a\<close>, which is split.\<close>

definition split_area :: "'a vm_st_scheme vm_ext \<Rightarrow> 'a vm_st_scheme obj_ops \<Rightarrow> ptr \<Rightarrow> ptr \<Rightarrow> u32 \<Rightarrow> u32 \<Rightarrow> 'a vm_st_scheme
    \<Rightarrow> 'a vm_st_scheme option" where
  "split_area X T mp a lopage sum_pages s = do {
     let (area, s) = vmarea_alloc X s;
     v \<leftarrow> vmareas s a;
     b \<leftarrow> area;
     s \<leftarrow> vma_upd b (\<lambda>w. w\<lparr>vma_off := vma_off v + sum_pages - vma_start v, vma_start := sum_pages, vma_end := vma_end v,
                             vma_prot := vma_prot v, vma_flags := vma_flags v, vma_vmmap := Some mp, vma_obj := vma_obj v\<rparr>) s;
     s \<leftarrow> vma_upd a (\<lambda>w. w\<lparr>vma_end := lopage\<rparr>) s;
     s \<leftarrow> map_upd mp (insert_after a b) s;
     let obj = vma_obj v;
     (first_shad, s) \<leftarrow> shadow_create X s;
     (second_shad, s) \<leftarrow> shadow_create X s;
     s \<leftarrow> vma_upd a (\<lambda>w. w\<lparr>vma_obj := Some first_shad\<rparr>) s;
     s \<leftarrow> vma_upd b (\<lambda>w. w\<lparr>vma_obj := Some second_shad\<rparr>) s;
     bottom \<leftarrow> mmobj_bottom_obj X first_shad s;
     s \<leftarrow> obj_upd second_shad (\<lambda>m. m\<lparr>mmo_un := Mmo_bottom_obj (Some bottom)\<rparr>) s;
     s \<leftarrow> obj_upd first_shad (\<lambda>m. m\<lparr>mmo_un := Mmo_bottom_obj (Some bottom)\<rparr>) s;
     s \<leftarrow> obj_upd first_shad (\<lambda>m. m\<lparr>mmo_shadowed := obj\<rparr>) s;
     s \<leftarrow> obj_upd second_shad (\<lambda>m. m\<lparr>mmo_shadowed := obj\<rparr>) s;
     ob \<leftarrow> obj;
     s \<leftarrow> oref T ob s;
     (b_obj, _) \<leftarrow> mmobj_bottom_vmas X ob s;
     add_vma (\<lambda>vs. vs @ [b]) b_obj s
   }"

definition remove_from_area :: "'a vm_st_scheme vm_ext \<Rightarrow> 'a vm_st_scheme obj_ops \<Rightarrow> ptr \<Rightarrow> ptr \<Rightarrow> u32 \<Rightarrow> u32 \<Rightarrow> 'a vm_st_scheme
    \<Rightarrow> 'a vm_st_scheme option" where
  "remove_from_area X T mp a lopage sum_pages s = do {
     v \<leftarrow> vmareas s a;
     if lopage > vma_start v then
       (if sum_pages < vma_end v then split_area X T mp a lopage sum_pages s
        else if lopage < vma_end v \<and> sum_pages \<ge> vma_end v then vma_upd a (\<lambda>w. w\<lparr>vma_end := lopage\<rparr>) s
        else Some s)
     else if sum_pages \<ge> vma_end v then drop_area T mp a s
     else if sum_pages < vma_end v \<and> sum_pages > vma_start v then
       vma_upd a (\<lambda>w. w\<lparr>vma_off := vma_off w + sum_pages - vma_start w, vma_start := sum_pages\<rparr>) s
     else Some s
   }"

fun remove_from_areas :: "'a vm_st_scheme vm_ext \<Rightarrow> 'a vm_st_scheme obj_ops \<Rightarrow> ptr \<Rightarrow> u32 \<Rightarrow> u32 \<Rightarrow> ptr list \<Rightarrow> 'a vm_st_scheme
    \<Rightarrow> 'a vm_st_scheme option" where
  "remove_from_areas X T mp lopage sum_pages [] s = Some s"
| "remove_from_areas X T mp lopage sum_pages (a # as) s = do {
     s \<leftarrow> remove_from_area X T mp a lopage sum_pages s;
     remove_from_areas X T mp lopage sum_pages as s
   }"

definition vmmap_remove :: "mconf \<Rightarrow> 'a vm_st_scheme vm_ext \<Rightarrow> 'a vm_st_scheme obj_ops \<Rightarrow> ptr \<Rightarrow> u32 \<Rightarrow> u32 \<Rightarrow> 'a vm_st_scheme
    \<Rightarrow> (int \<times> 'a vm_st_scheme) option" where
  "vmmap_remove C X T mp lopage npages s = do {
     let sum_pages = lopage + npages;
     m \<leftarrow> vmmaps s mp;
     s \<leftarrow> remove_from_areas X T mp lopage sum_pages (vmm_list m) s;
     p \<leftarrow> curproc s;
     pr \<leftarrow> procs s p;
     Some (0, pt_unmap_range X (p_pagedir pr) (PN_TO_ADDR C lopage) (PN_TO_ADDR C sum_pages) s)
   }"

subsection \<open>Special files as memory objects\<close>

definition special_file_mmap :: "(errno \<Rightarrow> int) \<Rightarrow> 'a vm_st_scheme vm_ext \<Rightarrow> ptr \<Rightarrow> ptr \<Rightarrow> 'a vm_st_scheme
    \<Rightarrow> ((int \<times> ptr option) \<times> 'a vm_st_scheme) option" where
  "special_file_mmap E X f vma s = do {
     vn \<leftarrow> vnodes s f;
     if S_ISBLK (vn_mode vn) then Some ((- E ENOTSUP, None), s)
     else do { cd \<leftarrow> vn_cdev vn; cd_mmap X cd f vma s }
   }"

definition special_file_fillpage :: "(errno \<Rightarrow> int) \<Rightarrow> 'a vm_st_scheme vm_ext \<Rightarrow> ptr \<Rightarrow> int \<Rightarrow> ptr \<Rightarrow> 'a vm_st_scheme
    \<Rightarrow> (int \<times> 'a vm_st_scheme) option" where
  "special_file_fillpage E X f offset pagebuf s = do {
     vn \<leftarrow> vnodes s f;
     if S_ISBLK (vn_mode vn) then Some (- E ENOTSUP, s)
     else do { cd \<leftarrow> vn_cdev vn; cd_fillpage X cd f offset pagebuf s }
   }"

definition special_file_dirtypage :: "(errno \<Rightarrow> int) \<Rightarrow> 'a vm_st_scheme vm_ext \<Rightarrow> ptr \<Rightarrow> int \<Rightarrow> 'a vm_st_scheme
    \<Rightarrow> (int \<times> 'a vm_st_scheme) option" where
  "special_file_dirtypage E X f offset s = do {
     vn \<leftarrow> vnodes s f;
     if S_ISBLK (vn_mode vn) then Some (- E ENOTSUP, s)
     else do { cd \<leftarrow> vn_cdev vn; cd_dirtypage X cd f offset s }
   }"

definition special_file_cleanpage :: "(errno \<Rightarrow> int) \<Rightarrow> 'a vm_st_scheme vm_ext \<Rightarrow> ptr \<Rightarrow> int \<Rightarrow> ptr \<Rightarrow> 'a vm_st_scheme
    \<Rightarrow> (int \<times> 'a vm_st_scheme) option" where
  "special_file_cleanpage E X f offset pagebuf s = do {
     vn \<leftarrow> vnodes s f;
     if S_ISBLK (vn_mode vn) then Some (- E ENOTSUP, s)
     else do { cd \<leftarrow> vn_cdev vn; cd_cleanpage X cd f offset pagebuf s }
   }"

text \<open>The call through \<^verbatim>\<open>vn_ops->mmap\<close>; the entry is \<^verbatim>\<open>NULL\<close> in the table for block devices.\<close>

definition vn_mmap :: "(errno \<Rightarrow> int) \<Rightarrow> 'a vm_st_scheme vm_ext \<Rightarrow> ptr \<Rightarrow> ptr \<Rightarrow> 'a vm_st_scheme
    \<Rightarrow> ((int \<times> ptr option) \<times> 'a vm_st_scheme) option" where
  "vn_mmap E X f vma s = do {
     vn \<leftarrow> vnodes s f;
     case vn_ops vn of
       Fs_vops ops \<Rightarrow> if Op_mmap \<in> ops then vop_mmap X f vma s else None
     | Bytedev_spec_vops \<Rightarrow> special_file_mmap E X f vma s
     | Blockdev_spec_vops \<Rightarrow> None
   }"

subsection \<open>Adding a mapping\<close>

text \<open>
  The result is the return value and what is stored in \<^verbatim>\<open>*new\<close>. \<open>map_object\<close> finds the object to be mapped,
  that of the file or a new anonymous one; \<open>attach_obj\<close> makes it the object of the new area, below a
  shadow object when the mapping is private.
\<close>

definition map_object :: "(errno \<Rightarrow> int) \<Rightarrow> 'a vm_st_scheme vm_ext \<Rightarrow> ptr option \<Rightarrow> ptr \<Rightarrow> 'a vm_st_scheme
    \<Rightarrow> (ptr option \<times> 'a vm_st_scheme) option" where
  "map_object E X vn a s = (case vn of
       Some f \<Rightarrow> do { ((_, obj), s) \<leftarrow> vn_mmap E X f a s; Some (obj, s) }
     | None \<Rightarrow> do { (ob, s) \<leftarrow> anon_create X s; Some (Some ob, s) })"

definition attach_obj :: "mconf \<Rightarrow> 'a vm_st_scheme vm_ext \<Rightarrow> u32 \<Rightarrow> ptr \<Rightarrow> ptr option \<Rightarrow> 'a vm_st_scheme \<Rightarrow> 'a vm_st_scheme option" where
  "attach_obj C X flags a obj s =
     (if flags AND MAP_PRIVATE C = 0 then do {
       s \<leftarrow> vma_upd a (\<lambda>w. w\<lparr>vma_obj := obj\<rparr>) s;
       ob \<leftarrow> obj;
       add_vma (\<lambda>vs. a # vs) ob s
     } else do {
       (shad_obj, s) \<leftarrow> shadow_create X s;
       s \<leftarrow> obj_upd shad_obj (\<lambda>m. m\<lparr>mmo_shadowed := obj\<rparr>) s;
       s \<leftarrow> vma_upd a (\<lambda>w. w\<lparr>vma_obj := Some shad_obj\<rparr>) s;
       s \<leftarrow> obj_upd shad_obj (\<lambda>m. m\<lparr>mmo_un := Mmo_bottom_obj obj\<rparr>) s;
       new_bottom \<leftarrow> obj;
       add_vma (\<lambda>vs. a # vs) new_bottom s
     })"

text \<open>\<open>map_place\<close> makes room at the given page, or finds room when none is given.\<close>

definition map_place :: "mconf \<Rightarrow> 'a vm_st_scheme vm_ext \<Rightarrow> 'a vm_st_scheme obj_ops \<Rightarrow> ptr \<Rightarrow> u32 \<Rightarrow> u32 \<Rightarrow> int \<Rightarrow> 'a vm_st_scheme
    \<Rightarrow> (u32 option \<times> 'a vm_st_scheme) option" where
  "map_place C X T mp lopage npages dir s =
     (if lopage \<noteq> 0 then do {
        res \<leftarrow> vmmap_is_range_empty C mp lopage npages s;
        s \<leftarrow> (if res = 0 then do { (_, s) \<leftarrow> vmmap_remove C X T mp lopage npages s; Some s } else Some s);
        Some (Some lopage, s)
      } else do {
        result \<leftarrow> vmmap_find_range C mp npages dir s;
        Some (if result \<noteq> - 1 then Some (word_of_int result) else None, s)
      })"

definition vmmap_map :: "(errno \<Rightarrow> int) \<Rightarrow> mconf \<Rightarrow> 'a vm_st_scheme vm_ext \<Rightarrow> 'a vm_st_scheme obj_ops \<Rightarrow> ptr \<Rightarrow> ptr option
    \<Rightarrow> u32 \<Rightarrow> u32 \<Rightarrow> u32 \<Rightarrow> u32 \<Rightarrow> u32 \<Rightarrow> int \<Rightarrow> 'a vm_st_scheme \<Rightarrow> ((int \<times> ptr option) \<times> 'a vm_st_scheme) option" where
  "vmmap_map E C X T mp vn lopage npages prot flags off dir s = do {
     _ \<leftarrow> kassert (0 < npages);
     _ \<leftarrow> kassert (MAP_SHARED C AND flags \<noteq> 0 \<or> MAP_PRIVATE C AND flags \<noteq> 0);
     _ \<leftarrow> kassert (0 = lopage \<or> ADDR_TO_PN C (USER_MEM_LOW C) \<le> lopage);
     _ \<leftarrow> kassert (0 = lopage \<or> ADDR_TO_PN C (USER_MEM_HIGH C) \<ge> lopage + npages);
     _ \<leftarrow> kassert (PAGE_ALIGNED C off);
     let (area, s) = vmarea_alloc X s;
     (found, s) \<leftarrow> map_place C X T mp lopage npages dir s;
     case found of
       None \<Rightarrow> Some ((- 1, None), s)
     | Some lopage \<Rightarrow> do {
         a \<leftarrow> area;
         s \<leftarrow> vma_upd a (\<lambda>w. w\<lparr>vma_off := ADDR_TO_PN C off, vma_start := lopage, vma_end := lopage + npages,
                                vma_obj := None, vma_prot := prot, vma_flags := flags\<rparr>) s;
         (obj, s) \<leftarrow> map_object E X vn a s;
         s \<leftarrow> attach_obj C X flags a obj s;
         s \<leftarrow> vmmap_insert C mp a s;
         Some ((0, Some a), s)
       }
   }"

subsection \<open>Reading and writing user memory\<close>

text \<open>Copying out of, and into, a page; copying over its end is \<open>None\<close>.\<close>

definition mem_read :: "nat \<Rightarrow> nat \<Rightarrow> 8 word list \<Rightarrow> 8 word list option" where
  "mem_read off n d = (if off + n \<le> length d then Some (take n (drop off d)) else None)"

definition mem_write :: "nat \<Rightarrow> 8 word list \<Rightarrow> 8 word list \<Rightarrow> 8 word list option" where
  "mem_write off bs d = (if off + length bs \<le> length d then Some (take off d @ bs @ drop (off + length bs) d) else None)"

definition user_frame :: "'a vm_st_scheme obj_ops \<Rightarrow> ptr \<Rightarrow> u32 \<Rightarrow> 'a vm_st_scheme \<Rightarrow> (ptr \<times> 'a vm_st_scheme) option" where
  "user_frame T mp curr_page s = do {
     area \<leftarrow> vmmap_lookup mp curr_page s;
     a \<leftarrow> area;
     v \<leftarrow> vmareas s a;
     ob \<leftarrow> vma_obj v;
     ((_, frame), s) \<leftarrow> pframe_lookup T ob (curr_page - vma_start v + vma_off v) True s;
     f \<leftarrow> frame;
     Some (f, s)
   }"

definition read_page :: "'a vm_st_scheme obj_ops \<Rightarrow> ptr \<Rightarrow> u32 \<Rightarrow> nat \<Rightarrow> nat \<Rightarrow> 'a vm_st_scheme
    \<Rightarrow> (8 word list \<times> 'a vm_st_scheme) option" where
  "read_page T mp curr_page off n s = do {
     (f, s) \<leftarrow> user_frame T mp curr_page s;
     p \<leftarrow> pframes s f;
     bs \<leftarrow> mem_read off n (pf_data p);
     Some (bs, s)
   }"

definition write_page :: "'a vm_st_scheme obj_ops \<Rightarrow> ptr \<Rightarrow> u32 \<Rightarrow> nat \<Rightarrow> 8 word list \<Rightarrow> 'a vm_st_scheme
    \<Rightarrow> 'a vm_st_scheme option" where
  "write_page T mp curr_page off bs s = do {
     (f, s) \<leftarrow> user_frame T mp curr_page s;
     p \<leftarrow> pframes s f;
     d \<leftarrow> mem_write off bs (pf_data p);
     s \<leftarrow> pf_upd f (\<lambda>p. p\<lparr>pf_data := d\<rparr>) s;
     (_, s) \<leftarrow> pframe_dirty T f s;
     Some s
   }"

text \<open>
  The loops over the pages after the first. Each page is copied for \<open>n\<close> bytes; \<open>buf\<close> is the rest of the
  buffer to be written.
\<close>

partial_function (option) read_pages :: "'a vm_st_scheme obj_ops \<Rightarrow> ptr \<Rightarrow> u32 \<Rightarrow> u32 \<Rightarrow> nat \<Rightarrow> 'a vm_st_scheme
    \<Rightarrow> (8 word list \<times> 'a vm_st_scheme) option" where
  "read_pages T mp curr_page last_page n s =
     (if curr_page \<le> last_page then do {
        (bs, s) \<leftarrow> read_page T mp curr_page 0 n s;
        (rest, s) \<leftarrow> read_pages T mp (curr_page + 1) last_page n s;
        Some (bs @ rest, s)
      } else Some ([], s))"

partial_function (option) write_pages :: "'a vm_st_scheme obj_ops \<Rightarrow> ptr \<Rightarrow> u32 \<Rightarrow> u32 \<Rightarrow> nat \<Rightarrow> 8 word list \<Rightarrow> 'a vm_st_scheme
    \<Rightarrow> 'a vm_st_scheme option" where
  "write_pages T mp curr_page last_page n buf s =
     (if curr_page \<le> last_page then do {
        s \<leftarrow> write_page T mp curr_page 0 (take n buf) s;
        write_pages T mp (curr_page + 1) last_page n (drop n buf) s
      } else Some s)"

definition vmmap_read :: "mconf \<Rightarrow> 'a vm_st_scheme obj_ops \<Rightarrow> ptr \<Rightarrow> u32 \<Rightarrow> u32 \<Rightarrow> 'a vm_st_scheme
    \<Rightarrow> ((int \<times> 8 word list) \<times> 'a vm_st_scheme) option" where
  "vmmap_read C T mp vaddr count s =
     (let first = ADDR_TO_PN C vaddr; last_page = ADDR_TO_PN C (vaddr + count); off = PAGE_OFFSET C vaddr in
      if first = last_page then do {
        (bs, s) \<leftarrow> read_page T mp first off (unat count) s;
        Some ((0, bs), s)
      } else if first \<le> last_page then do {
        (bs, s) \<leftarrow> read_page T mp first off (PAGE_SIZE C - off) s;
        (rest, s) \<leftarrow> read_pages T mp (first + 1) last_page (PAGE_OFFSET C (vaddr + count)) s;
        Some ((0, bs @ rest), s)
      } else Some ((0, []), s))"

definition vmmap_write :: "mconf \<Rightarrow> 'a vm_st_scheme obj_ops \<Rightarrow> ptr \<Rightarrow> u32 \<Rightarrow> 8 word list \<Rightarrow> u32 \<Rightarrow> 'a vm_st_scheme
    \<Rightarrow> (int \<times> 'a vm_st_scheme) option" where
  "vmmap_write C T mp vaddr buf count s =
     (let first = ADDR_TO_PN C vaddr; last_page = ADDR_TO_PN C (vaddr - 1 + count); off = PAGE_OFFSET C vaddr in
      if first = last_page then do {
        s \<leftarrow> write_page T mp first off (take (unat count) buf) s;
        Some (0, s)
      } else if first \<le> last_page then do {
        s \<leftarrow> write_page T mp first off (take (PAGE_SIZE C - off) buf) s;
        s \<leftarrow> write_pages T mp (first + 1) last_page (PAGE_OFFSET C (vaddr - 1 + count))
               (drop (PAGE_SIZE C - off) buf) s;
        Some (0, s)
      } else Some (0, s))"

end
