(* ===== verification/Vm_Syscall.thy ===== *)
theory Vm_Syscall
  imports Vmmap
begin

section \<open>System calls and faults of virtual memory\<close>

text \<open>
  The models of \<^verbatim>\<open>K3/mmap.c\<close>, \<^verbatim>\<open>K3/brk.c\<close>, \<^verbatim>\<open>K3/access.c\<close>, \<^verbatim>\<open>K3/pagefault.c\<close> and \<^verbatim>\<open>K3/fork.c\<close>. User addresses are
  32-bit words. A result that is stored through a pointer argument is an optional second component,
  \<open>None\<close> when nothing is stored.
\<close>

definition cur_proc :: "'a vm_st_scheme \<Rightarrow> (ptr \<times> proc) option" where
  "cur_proc s = do { p \<leftarrow> curproc s; pr \<leftarrow> procs s p; Some (p, pr) }"

subsection \<open>Mapping and unmapping\<close>

definition do_mmap :: "(errno \<Rightarrow> int) \<Rightarrow> vconf \<Rightarrow> mconf \<Rightarrow> 'a vm_st_scheme fs_ext \<Rightarrow> 'a vm_st_scheme vm_ext
    \<Rightarrow> 'a vm_st_scheme obj_ops \<Rightarrow> u32 \<Rightarrow> u32 \<Rightarrow> u32 \<Rightarrow> u32 \<Rightarrow> int \<Rightarrow> u32 \<Rightarrow> 'a vm_st_scheme
    \<Rightarrow> ((int \<times> u32 option) \<times> 'a vm_st_scheme) option" where
  "do_mmap E V C F X T addr len prot flags fd off s =
     (if flags AND MAP_SHARED C = 0 \<and> flags AND MAP_PRIVATE C = 0 then Some ((- E EINVAL, None), s)
      else if flags AND MAP_SHARED C \<noteq> 0 \<and> flags AND MAP_PRIVATE C \<noteq> 0 then Some ((- E EINVAL, None), s)
      else if len > USER_MEM_HIGH C - USER_MEM_LOW C \<or> len = 0 then Some ((- E EINVAL, None), s)
      else if \<not> PAGE_ALIGNED C off then Some ((- E EINVAL, None), s)
      else if flags AND MAP_FIXED C \<noteq> 0 \<and> USER_MEM_HIGH C < addr + len then Some ((- E EINVAL, None), s)
      else if flags AND MAP_FIXED C \<noteq> 0 \<and> USER_MEM_LOW C > addr then Some ((- E EINVAL, None), s)
      else do {
        let addr_var = (if flags AND MAP_FIXED C = 0 then 0 else ADDR_TO_PN C addr);
        let npages = (len - 1) div of_nat (PAGE_SIZE C) + 1;
        ((result, area), s) \<leftarrow> (if flags AND MAP_ANON C \<noteq> 0 then do {
            (_, pr) \<leftarrow> cur_proc s;
            mp \<leftarrow> p_vmmap pr;
            vmmap_map E C X T mp None addr_var npages prot flags off (VMMAP_DIR_HILO C) s
          } else if fd < 0 \<or> fd > int (NFILES V) then Some ((- E EBADF, None), s)
          else do {
            (ourFile, s) \<leftarrow> fget F fd s;
            case ourFile of
              None \<Rightarrow> Some ((- E EBADF, None), s)
            | Some f \<Rightarrow> do {
                fl \<leftarrow> files s f;
                if flags AND MAP_SHARED C \<noteq> 0 \<and> prot AND PROT_WRITE C \<noteq> 0 \<and> f_mode fl = FMODE_READ V
                then do { s \<leftarrow> fput F f s; Some ((- E EINVAL, None), s) }
                else do {
                  (_, pr) \<leftarrow> cur_proc s;
                  mp \<leftarrow> p_vmmap pr;
                  (r, s) \<leftarrow> vmmap_map E C X T mp (f_vnode fl) addr_var npages prot flags off (VMMAP_DIR_HILO C) s;
                  s \<leftarrow> fput F f s;
                  Some (r, s)
                }
              }
          });
        if result < 0 then Some ((result, None), s)
        else do {
          a \<leftarrow> area;
          v \<leftarrow> vmareas s a;
          (_, pr) \<leftarrow> cur_proc s;
          let start = PN_TO_ADDR C (vma_start v);
          let s = pt_unmap_range X (p_pagedir pr) start (start + PAGE_ALIGN_UP C len) s;
          (_, pr) \<leftarrow> cur_proc s;
          _ \<leftarrow> kassert (p_pagedir pr \<noteq> None);
          Some ((result, Some start), s)
        }
      })"

definition do_munmap :: "(errno \<Rightarrow> int) \<Rightarrow> mconf \<Rightarrow> 'a vm_st_scheme vm_ext \<Rightarrow> 'a vm_st_scheme obj_ops \<Rightarrow> u32 \<Rightarrow> u32 \<Rightarrow> 'a vm_st_scheme
    \<Rightarrow> (int \<times> 'a vm_st_scheme) option" where
  "do_munmap E C X T addr len s =
     (if len = 0 \<or> len > USER_MEM_HIGH C - USER_MEM_LOW C \<or> addr + len > USER_MEM_HIGH C \<or> addr < USER_MEM_LOW C
      then Some (- E EINVAL, s)
      else do {
        (_, pr) \<leftarrow> cur_proc s;
        mp \<leftarrow> p_vmmap pr;
        (result, s) \<leftarrow> vmmap_remove C X T mp (ADDR_TO_PN C addr) ((len - 1) div of_nat (PAGE_SIZE C) + 1) s;
        if result < 0 then Some (result, s) else Some (0, s)
      })"

subsection \<open>The break\<close>

definition do_brk :: "(errno \<Rightarrow> int) \<Rightarrow> mconf \<Rightarrow> 'a vm_st_scheme vm_ext \<Rightarrow> 'a vm_st_scheme obj_ops \<Rightarrow> u32 \<Rightarrow> 'a vm_st_scheme
    \<Rightarrow> ((int \<times> u32 option) \<times> 'a vm_st_scheme) option" where
  "do_brk E C X T addr s = do {
     (cp, pr) \<leftarrow> cur_proc s;
     if addr = 0 then Some ((0, Some (p_brk pr)), s)
     else if addr > USER_MEM_HIGH C then Some ((- E ENOMEM, None), s)
     else if addr < p_start_brk pr then Some ((- E ENOMEM, None), s)
     else do {
       let begin = (p_brk pr - 1) div of_nat (PAGE_SIZE C) + 1;
       let end = (addr - 1) div of_nat (PAGE_SIZE C) + 1;
       if begin \<noteq> end then do {
         temp_map \<leftarrow> p_vmmap pr;
         if end < begin then do {
           (_, s) \<leftarrow> vmmap_remove C X T temp_map end (begin - end) s;
           s \<leftarrow> proc_upd cp (\<lambda>p. p\<lparr>p_brk := addr\<rparr>) s;
           Some ((0, Some addr), s)
         } else do {
           area \<leftarrow> vmmap_lookup temp_map (begin - 1) s;
           check \<leftarrow> vmmap_is_range_empty C temp_map begin (end - begin) s;
           if check = 1 then do {
             a \<leftarrow> area;
             s \<leftarrow> vma_upd a (\<lambda>v. v\<lparr>vma_end := end\<rparr>) s;
             s \<leftarrow> proc_upd cp (\<lambda>p. p\<lparr>p_brk := addr\<rparr>) s;
             Some ((0, Some addr), s)
           } else Some ((- E ENOMEM, None), s)
         }
       } else Some ((0, None), s)
     }
   }"

subsection \<open>Access to user memory\<close>

definition addr_perm :: "mconf \<Rightarrow> proc \<Rightarrow> u32 \<Rightarrow> u32 \<Rightarrow> 'a vm_st_scheme \<Rightarrow> int option" where
  "addr_perm C pr vaddr perm s = do {
     mp \<leftarrow> p_vmmap pr;
     vma \<leftarrow> vmmap_lookup mp (ADDR_TO_PN C vaddr) s;
     case vma of
       None \<Rightarrow> Some 0
     | Some a \<Rightarrow> do {
         v \<leftarrow> vmareas s a;
         if (perm AND PROT_READ C \<noteq> 0 \<and> vma_prot v AND PROT_READ C \<noteq> 0)
          \<or> (perm AND PROT_WRITE C \<noteq> 0 \<and> vma_prot v AND PROT_WRITE C \<noteq> 0)
          \<or> (perm AND PROT_EXEC C \<noteq> 0 \<and> vma_prot v AND PROT_EXEC C \<noteq> 0)
         then Some 1 else Some 0
       }
   }"

partial_function (option) range_perm_from :: "mconf \<Rightarrow> proc \<Rightarrow> u32 \<Rightarrow> u32 \<Rightarrow> u32 \<Rightarrow> 'a vm_st_scheme \<Rightarrow> int option" where
  "range_perm_from C pr addr end_addr perm s =
     (if addr < end_addr then do {
        ok \<leftarrow> addr_perm C pr addr perm s;
        if ok = 0 then Some 0 else range_perm_from C pr (addr + of_nat (PAGE_SIZE C)) end_addr perm s
      } else Some 1)"

definition range_perm :: "mconf \<Rightarrow> proc \<Rightarrow> u32 \<Rightarrow> u32 \<Rightarrow> u32 \<Rightarrow> 'a vm_st_scheme \<Rightarrow> int option" where
  "range_perm C pr avaddr len perm s = range_perm_from C pr avaddr (avaddr + len) perm s"

definition copy_from_user :: "(errno \<Rightarrow> int) \<Rightarrow> mconf \<Rightarrow> 'a vm_st_scheme obj_ops \<Rightarrow> u32 \<Rightarrow> u32 \<Rightarrow> 'a vm_st_scheme
    \<Rightarrow> ((int \<times> 8 word list) \<times> 'a vm_st_scheme) option" where
  "copy_from_user E C T uaddr nbytes s = do {
     (_, pr) \<leftarrow> cur_proc s;
     ok \<leftarrow> range_perm C pr uaddr nbytes (PROT_READ C) s;
     if ok = 0 then Some ((- E EFAULT, []), s)
     else do { mp \<leftarrow> p_vmmap pr; vmmap_read C T mp uaddr nbytes s }
   }"

definition copy_to_user :: "(errno \<Rightarrow> int) \<Rightarrow> mconf \<Rightarrow> 'a vm_st_scheme obj_ops \<Rightarrow> u32 \<Rightarrow> 8 word list \<Rightarrow> u32 \<Rightarrow> 'a vm_st_scheme
    \<Rightarrow> (int \<times> 'a vm_st_scheme) option" where
  "copy_to_user E C T uaddr kaddr nbytes s = do {
     (_, pr) \<leftarrow> cur_proc s;
     ok \<leftarrow> range_perm C pr uaddr nbytes (PROT_WRITE C) s;
     if ok = 0 then Some (- E EFAULT, s)
     else do { mp \<leftarrow> p_vmmap pr; vmmap_write C T mp uaddr kaddr nbytes s }
   }"

definition set_errno :: "int \<Rightarrow> 'a vm_st_scheme \<Rightarrow> 'a vm_st_scheme option" where
  "set_errno e s = do { t \<leftarrow> curthr s; thr_upd t (\<lambda>k. k\<lparr>kt_errno := e\<rparr>) s }"

record argstr =
  as_str :: u32
  as_len :: u32

text \<open>The argument \<open>mem\<close> says whether \<^verbatim>\<open>kmalloc\<close> finds memory. The result is the copied string.\<close>

definition user_strdup :: "(errno \<Rightarrow> int) \<Rightarrow> mconf \<Rightarrow> 'a vm_st_scheme obj_ops \<Rightarrow> bool \<Rightarrow> argstr \<Rightarrow> 'a vm_st_scheme
    \<Rightarrow> (8 word list option \<times> 'a vm_st_scheme) option" where
  "user_strdup E C T mem ustr s =
     (if \<not> mem then do { s \<leftarrow> set_errno (E ENOMEM) s; Some (None, s) }
      else do {
        ((ret, kstr), s) \<leftarrow> copy_from_user E C T (as_str ustr) (as_len ustr + 1) s;
        if ret < 0 then do { s \<leftarrow> set_errno (- ret) s; Some (None, s) }
        else Some (Some kstr, s)
      })"

subsection \<open>Page faults\<close>

text \<open>\<open>irqs\<close> are the interrupts that arrive while \<^verbatim>\<open>do_exit\<close> looks for another thread to run.\<close>

definition handle_pagefault :: "(errno \<Rightarrow> int) \<Rightarrow> mconf \<Rightarrow> 'a vm_st_scheme vm_ext \<Rightarrow> 'a vm_st_scheme obj_ops
    \<Rightarrow> ('a vm_st_scheme \<Rightarrow> 'a vm_st_scheme option) list \<Rightarrow> u32 \<Rightarrow> u32 \<Rightarrow> 'a vm_st_scheme \<Rightarrow> 'a vm_st_scheme option" where
  "handle_pagefault E C X T irqs vaddr cause s = do {
     let pn = ADDR_TO_PN C vaddr;
     (_, pr) \<leftarrow> cur_proc s;
     mp \<leftarrow> p_vmmap pr;
     vmarea \<leftarrow> vmmap_lookup mp pn s;
     case vmarea of
       None \<Rightarrow> do_exit irqs (E EFAULT) s
     | Some a \<Rightarrow> do {
         v \<leftarrow> vmareas s a;
         if vma_prot v AND PROT_WRITE C = 0 \<and> cause AND FAULT_WRITE C \<noteq> 0 then do_exit irqs (E EFAULT) s
         else if vma_prot v AND PROT_READ C = 0 \<and> cause AND FAULT_EXEC C = 0 \<and> cause AND FAULT_WRITE C = 0
         then do_exit irqs (E EFAULT) s
         else do {
           let fw = (cause AND FAULT_WRITE C \<noteq> 0);
           let pd = (if fw then PD_PRESENT C OR PD_USER C OR PD_WRITE C else PD_PRESENT C OR PD_USER C);
           let pt = (if fw then PT_PRESENT C OR PT_USER C OR PT_WRITE C else PT_PRESENT C OR PT_USER C);
           ob \<leftarrow> vma_obj v;
           ((lookUpResult, pf), s) \<leftarrow> pframe_lookup T ob (pn - vma_start v + vma_off v) fw s;
           if lookUpResult < 0 then do_exit irqs (E EFAULT) s
           else do {
             f \<leftarrow> pf;
             p \<leftarrow> pframes s f;
             _ \<leftarrow> kassert (pf_addr p \<noteq> 0);
             s \<leftarrow> (if fw then do {
                     s \<leftarrow> pframe_pin f s;
                     (_, s) \<leftarrow> pframe_dirty T f s;
                     pframe_unpin f s
                   } else Some s);
             p \<leftarrow> pframes s f;
             (_, pr) \<leftarrow> cur_proc s;
             Some (snd (pt_map X (p_pagedir pr) (PAGE_ALIGN_DOWN C vaddr) (pt_virt_to_phys X (pf_addr p)) pd pt s))
           }
         }
       }
   }"

subsection \<open>Forking\<close>

record regs =
  r_eax :: int
  r_edx :: u32

text \<open>
  What \<^verbatim>\<open>fork_setup_stack\<close> pushes on the stack of the new thread is a copy of the registers; it is a
  component of the result of \<^verbatim>\<open>do_fork\<close> here. The sizes of a stack and of the registers are arguments.
\<close>

definition fork_setup_stack :: "nat \<Rightarrow> nat \<Rightarrow> ptr \<Rightarrow> u32" where
  "fork_setup_stack stack_size regs_size kstack = of_nat kstack + of_nat stack_size - (of_nat regs_size + 12)"

definition fork_shadow :: "'a vm_st_scheme vm_ext \<Rightarrow> ptr \<Rightarrow> 'a vm_st_scheme \<Rightarrow> (ptr \<times> 'a vm_st_scheme) option" where
  "fork_shadow X ob s = do {
     (sh, s) \<leftarrow> shadow_create X s;
     m \<leftarrow> mmobjs s ob;
     bottom \<leftarrow> (case mmo_un m of Mmo_bottom_obj b \<Rightarrow> Some b | Mmo_vmas _ \<Rightarrow> None);
     s \<leftarrow> obj_upd sh (\<lambda>m. m\<lparr>mmo_shadowed := Some ob, mmo_un := Mmo_bottom_obj bottom\<rparr>) s;
     Some (sh, s)
   }"

definition fork_area :: "mconf \<Rightarrow> 'a vm_st_scheme vm_ext \<Rightarrow> 'a vm_st_scheme obj_ops \<Rightarrow> ptr \<Rightarrow> ptr \<Rightarrow> 'a vm_st_scheme
    \<Rightarrow> 'a vm_st_scheme option" where
  "fork_area C X T mp clone_vma s = do {
     cv \<leftarrow> vmareas s clone_vma;
     found \<leftarrow> vmmap_lookup mp (vma_start cv) s;
     vma \<leftarrow> found;
     v \<leftarrow> vmareas s vma;
     ob \<leftarrow> vma_obj v;
     s \<leftarrow> (if vma_flags cv AND MAP_PRIVATE C \<noteq> 0 then do {
             s \<leftarrow> oref T ob s;
             (to_delete, s) \<leftarrow> fork_shadow X ob s;
             (new_shadowed, s) \<leftarrow> fork_shadow X ob s;
             s \<leftarrow> vma_upd vma (\<lambda>w. w\<lparr>vma_obj := Some to_delete\<rparr>) s;
             vma_upd clone_vma (\<lambda>w. w\<lparr>vma_obj := Some new_shadowed\<rparr>) s
           } else do {
             s \<leftarrow> vma_upd clone_vma (\<lambda>w. w\<lparr>vma_obj := Some ob\<rparr>) s;
             oref T ob s
           });
     v \<leftarrow> vmareas s vma;
     ob \<leftarrow> vma_obj v;
     (b, _) \<leftarrow> mmobj_bottom_vmas X ob s;
     add_vma (\<lambda>vs. vs @ [clone_vma]) b s
   }"

fun fork_areas :: "mconf \<Rightarrow> 'a vm_st_scheme vm_ext \<Rightarrow> 'a vm_st_scheme obj_ops \<Rightarrow> ptr \<Rightarrow> ptr list \<Rightarrow> 'a vm_st_scheme
    \<Rightarrow> 'a vm_st_scheme option" where
  "fork_areas C X T mp [] s = Some s"
| "fork_areas C X T mp (b # bs) s = do { s \<leftarrow> fork_area C X T mp b s; fork_areas C X T mp bs s }"

fun fork_files :: "'a vm_st_scheme vm_ext \<Rightarrow> ptr \<Rightarrow> nat list \<Rightarrow> 'a vm_st_scheme \<Rightarrow> 'a vm_st_scheme option" where
  "fork_files X clone_proc [] s = Some s"
| "fork_files X clone_proc (i # is) s = do {
     (_, pr) \<leftarrow> cur_proc s;
     cpr \<leftarrow> procs s clone_proc;
     _ \<leftarrow> kassert (i < length (p_files pr) \<and> i < length (p_files cpr));
     s \<leftarrow> proc_upd clone_proc (\<lambda>p. p\<lparr>p_files := (p_files p)[i := p_files pr ! i]\<rparr>) s;
     s \<leftarrow> (case p_files pr ! i of Some f \<Rightarrow> fref X f s | None \<Rightarrow> Some s);
     fork_files X clone_proc is s
   }"

definition do_fork :: "kconf \<Rightarrow> vconf \<Rightarrow> mconf \<Rightarrow> 'a vm_st_scheme vm_ext \<Rightarrow> 'a vm_st_scheme obj_ops \<Rightarrow> ctx_setup \<Rightarrow> ptr \<Rightarrow> nat \<Rightarrow> nat
    \<Rightarrow> (ptr \<times> proc) option \<Rightarrow> ptr option \<Rightarrow> (tid \<times> kthread) option \<Rightarrow> ptr option \<Rightarrow> regs \<Rightarrow> 'a vm_st_scheme
    \<Rightarrow> ((int \<times> regs \<times> regs) \<times> 'a vm_st_scheme) option" where
  "do_fork K V C X T context_setup userland_entry stack_size regs_size pslab pagedir tslab kstack regs s = do {
     (_, pr) \<leftarrow> cur_proc s;
     _ \<leftarrow> kassert (p_state pr = PROC_RUNNING);
     (clone_proc, s) \<leftarrow> proc_create K pslab pagedir ''child'' s;
     (_, pr) \<leftarrow> cur_proc s;
     mp \<leftarrow> p_vmmap pr;
     (clone, s) \<leftarrow> vmmap_clone X mp s;
     clone_map \<leftarrow> clone;
     m \<leftarrow> vmmaps s clone_map;
     let s = s\<lparr>vmmaps := (vmmaps s)(clone_map \<mapsto> m\<lparr>vmm_proc := Some clone_proc\<rparr>)\<rparr>;
     s \<leftarrow> proc_upd clone_proc (\<lambda>p. p\<lparr>p_vmmap := Some clone_map\<rparr>) s;
     s \<leftarrow> fork_areas C X T mp (vmm_list m) s;
     t \<leftarrow> curthr s;
     (clone_thread, s) \<leftarrow> kthread_clone context_setup tslab kstack t s;
     s \<leftarrow> thr_upd clone_thread (\<lambda>k. k\<lparr>kt_proc := Some clone_proc, kt_plink := Some clone_proc\<rparr>) s;
     s \<leftarrow> proc_upd clone_proc (\<lambda>p. p\<lparr>p_threads := p_threads p @ [clone_thread]\<rparr>) s;
     cpr \<leftarrow> procs s clone_proc;
     let child_regs = regs\<lparr>r_eax := 0\<rparr>;
     ct \<leftarrow> threads s clone_thread;
     stack \<leftarrow> kt_kstack ct;
     s \<leftarrow> thr_upd clone_thread (\<lambda>k. k\<lparr>kt_ctx := (kt_ctx k)\<lparr>c_eip := userland_entry, c_pdptr := p_pagedir cpr,
            c_esp := fork_setup_stack stack_size regs_size stack\<rparr>\<rparr>) s;
     _ \<leftarrow> kassert (p_state cpr = PROC_RUNNING);
     _ \<leftarrow> kassert (p_pagedir cpr \<noteq> None);
     s \<leftarrow> fork_files X clone_proc [0..<NFILES V] s;
     (_, pr) \<leftarrow> cur_proc s;
     let s = pt_unmap_range X (p_pagedir pr) (USER_MEM_LOW C) (USER_MEM_HIGH C) s;
     (_, pr) \<leftarrow> cur_proc s;
     s \<leftarrow> proc_upd clone_proc (\<lambda>p. p\<lparr>p_start_brk := p_start_brk pr, p_brk := p_brk pr\<rparr>) s;
     s \<leftarrow> sched_make_runnable clone_thread s;
     cpr \<leftarrow> procs s clone_proc;
     Some ((p_pid cpr, regs\<lparr>r_eax := p_pid cpr\<rparr>, child_regs), s)
   }"

end
