(* ===== verification/Vm_Areas.thy ===== *)
theory Vm_Areas
  imports Vm_Syscall
begin

section \<open>Address spaces as page tables\<close>

text \<open>
  What an address space promises its users: a partial function from page numbers to the protection,
  the flags and the page of the mapped object. The list of areas is well-formed (\<open>areas_ok\<close>) when the
  areas are non-empty, disjoint and in ascending order within the bounds of user memory; \<open>view\<close> is the
  function such a list stands for. The search functions of \<^verbatim>\<open>K3/vmmap.c\<close> are characterised by it.
\<close>

subsection \<open>Well-formed lists and the pages they map\<close>

fun areas_ok :: "(ptr \<Rightarrow> vmarea option) \<Rightarrow> ptr \<Rightarrow> u32 \<Rightarrow> u32 \<Rightarrow> ptr list \<Rightarrow> bool" where
  "areas_ok A mp lo hi [] = True"
| "areas_ok A mp lo hi (a # as) = (case A a of None \<Rightarrow> False | Some v \<Rightarrow> lo \<le> vma_start v \<and> vma_start v < vma_end v
     \<and> vma_end v \<le> hi \<and> vma_vmmap v = Some mp \<and> areas_ok A mp (vma_end v) hi as)"

definition in_area :: "vmarea \<Rightarrow> u32 \<Rightarrow> bool" where
  "in_area v p \<longleftrightarrow> vma_start v \<le> p \<and> p < vma_end v"

definition area_info :: "vmarea \<Rightarrow> u32 \<Rightarrow> u32 \<times> u32 \<times> u32" where
  "area_info v p = (vma_prot v, vma_flags v, p - vma_start v + vma_off v)"

fun view :: "(ptr \<Rightarrow> vmarea option) \<Rightarrow> ptr list \<Rightarrow> u32 \<Rightarrow> (u32 \<times> u32 \<times> u32) option" where
  "view A [] p = None"
| "view A (a # as) p = (case A a of None \<Rightarrow> view A as p
     | Some v \<Rightarrow> if in_area v p then Some (area_info v p) else view A as p)"

definition user_lo :: "mconf \<Rightarrow> u32" where
  "user_lo C = ADDR_TO_PN C (USER_MEM_LOW C)"

definition user_hi :: "mconf \<Rightarrow> u32" where
  "user_hi C = ADDR_TO_PN C (USER_MEM_HIGH C)"

definition map_ok :: "mconf \<Rightarrow> 'a vm_st_scheme \<Rightarrow> ptr \<Rightarrow> bool" where
  "map_ok C s mp \<longleftrightarrow> (case vmmaps s mp of None \<Rightarrow> False
     | Some m \<Rightarrow> areas_ok (vmareas s) mp (user_lo C) (user_hi C) (vmm_list m))"

definition pages :: "'a vm_st_scheme \<Rightarrow> ptr \<Rightarrow> u32 \<Rightarrow> (u32 \<times> u32 \<times> u32) option" where
  "pages s mp p = (case vmmaps s mp of None \<Rightarrow> None | Some m \<Rightarrow> view (vmareas s) (vmm_list m) p)"

lemma areas_ok_Cons:
  "areas_ok A mp lo hi (a # as) \<longleftrightarrow> (\<exists>v. A a = Some v \<and> lo \<le> vma_start v \<and> vma_start v < vma_end v
     \<and> vma_end v \<le> hi \<and> vma_vmmap v = Some mp \<and> areas_ok A mp (vma_end v) hi as)"
  by (simp split: option.split)

lemma map_okE:
  assumes "map_ok C s mp"
  obtains m where "vmmaps s mp = Some m" "areas_ok (vmareas s) mp (user_lo C) (user_hi C) (vmm_list m)"
    "pages s mp = view (vmareas s) (vmm_list m)"
  using assms by (auto simp: map_ok_def pages_def fun_eq_iff split: option.splits)

lemma map_okI:
  "vmmaps s mp = Some m \<Longrightarrow> areas_ok (vmareas s) mp (user_lo C) (user_hi C) (vmm_list m) \<Longrightarrow> map_ok C s mp"
  by (simp add: map_ok_def)

lemma pages_eq: "vmmaps s mp = Some m \<Longrightarrow> pages s mp = view (vmareas s) (vmm_list m)"
  by (simp add: pages_def fun_eq_iff)

lemma areas_ok_mono:
  "areas_ok A mp lo hi as \<Longrightarrow> lo' \<le> lo \<Longrightarrow> hi \<le> hi' \<Longrightarrow> areas_ok A mp lo' hi' as"
proof (induction as arbitrary: lo lo')
  case (Cons a as)
  then obtain v where "A a = Some v" "lo \<le> vma_start v" "vma_start v < vma_end v" "vma_end v \<le> hi"
    "vma_vmmap v = Some mp" "areas_ok A mp (vma_end v) hi as" unfolding areas_ok_Cons by blast
  with Cons.IH [of "vma_end v" "vma_end v"] Cons.prems show ?case by auto
qed simp

lemma areas_ok_cong: "(\<And>a. a \<in> set as \<Longrightarrow> A a = A' a) \<Longrightarrow> areas_ok A mp lo hi as = areas_ok A' mp lo hi as"
  by (induction as arbitrary: lo) (auto split: option.split)

lemma view_cong: "(\<And>a. a \<in> set as \<Longrightarrow> A a = A' a) \<Longrightarrow> view A as = view A' as"
  by (induction as) (auto split: option.split simp: fun_eq_iff)

lemma areas_ok_append:
  "areas_ok A mp lo mid xs \<Longrightarrow> areas_ok A mp mid hi ys \<Longrightarrow> lo \<le> mid \<Longrightarrow> mid \<le> hi \<Longrightarrow> areas_ok A mp lo hi (xs @ ys)"
proof (induction xs arbitrary: lo)
  case Nil
  then show ?case using areas_ok_mono [of A mp mid hi ys lo hi] by simp
next
  case (Cons a xs)
  then show ?case by (auto split: option.splits)
qed

lemma areas_ok_member:
  assumes "areas_ok A mp lo hi as" "a \<in> set as"
  obtains v where "A a = Some v" "lo \<le> vma_start v" "vma_start v < vma_end v" "vma_end v \<le> hi" "vma_vmmap v = Some mp"
  using assms
proof (induction as arbitrary: lo thesis)
  case (Cons b as)
  then obtain w where w: "A b = Some w" "lo \<le> vma_start w" "vma_start w < vma_end w" "vma_end w \<le> hi"
    "vma_vmmap w = Some mp" "areas_ok A mp (vma_end w) hi as" unfolding areas_ok_Cons by blast
  show ?case
  proof (cases "a = b")
    case False
    with Cons.prems(3) have "a \<in> set as" by simp
    then obtain v where "A a = Some v" "vma_end w \<le> vma_start v" "vma_start v < vma_end v" "vma_end v \<le> hi"
      "vma_vmmap v = Some mp" using Cons.IH [OF _ w(6)] by blast
    with w show ?thesis by (auto intro!: Cons.prems(1))
  qed (use w Cons.prems(1) in blast)
qed simp

lemma areas_ok_distinct: "areas_ok A mp lo hi as \<Longrightarrow> distinct as"
proof (induction as arbitrary: lo)
  case (Cons a as)
  then obtain v where v: "A a = Some v" "vma_start v < vma_end v" "areas_ok A mp (vma_end v) hi as"
    unfolding areas_ok_Cons by blast
  have "a \<notin> set as"
    by (metis v areas_ok_member leD option.inject)
  with Cons.IH [OF v(3)] show ?case by simp
qed simp

lemma view_Some:
  assumes "areas_ok A mp lo hi as" "view A as p = Some i"
  obtains a v where "a \<in> set as" "A a = Some v" "in_area v p" "i = area_info v p"
  using assms
  by (induction as arbitrary: lo thesis) (auto split: option.splits if_splits)

lemma view_bounds:
  assumes "areas_ok A mp lo hi as" "view A as p = Some i"
  shows "lo \<le> p \<and> p < hi"
proof -
  obtain a v where a: "a \<in> set as" "A a = Some v" "in_area v p" using view_Some [OF assms] by blast
  obtain w where "A a = Some w" "lo \<le> vma_start w" "vma_end w \<le> hi" using areas_ok_member [OF assms(1) a(1)] by blast
  with a show ?thesis by (auto simp: in_area_def)
qed

lemma view_below: "areas_ok A mp lo hi as \<Longrightarrow> p < lo \<Longrightarrow> view A as p = None"
  using view_bounds by (metis leD option.exhaust)

lemma view_above: "areas_ok A mp lo hi as \<Longrightarrow> hi \<le> p \<Longrightarrow> view A as p = None"
  using view_bounds by (metis leD option.exhaust)

lemma view_append: "view A (xs @ ys) p = (case view A xs p of None \<Rightarrow> view A ys p | Some i \<Rightarrow> Some i)"
  by (induction xs) (auto split: option.split)

lemma view_append_None: "view A (xs @ ys) p = None \<longleftrightarrow> view A xs p = None \<and> view A ys p = None"
  by (simp add: view_append split: option.split)

lemma view_single: "A a = Some v \<Longrightarrow> view A [a] p = (if in_area v p then Some (area_info v p) else None)"
  by simp

subsection \<open>Searching\<close>

lemma lookup_area_view:
  assumes "areas_ok A mp lo hi as"
  shows "case view A as p of
      None \<Rightarrow> lookup_area A p as = Some None
    | Some i \<Rightarrow> \<exists>a v. lookup_area A p as = Some (Some a) \<and> a \<in> set as \<and> A a = Some v \<and> in_area v p \<and> i = area_info v p"
  using assms
proof (induction as arbitrary: lo)
  case (Cons a as)
  then obtain v where v: "A a = Some v" "areas_ok A mp (vma_end v) hi as" unfolding areas_ok_Cons by blast
  from Cons.IH [OF v(2)] v(1) show ?case by (auto simp: in_area_def split: option.splits)
qed simp

lemma range_empty_view:
  assumes "areas_ok A mp lo hi as" "x < y"
  shows "range_empty A x y as = Some (if \<forall>p. x \<le> p \<longrightarrow> p < y \<longrightarrow> view A as p = None then 1 else 0)"
  using assms(1)
proof (induction as arbitrary: lo)
  case (Cons a as)
  then obtain v where v: "A a = Some v" "vma_start v < vma_end v" "areas_ok A mp (vma_end v) hi as"
    unfolding areas_ok_Cons by blast
  show ?case
  proof (cases "vma_end v > x \<and> \<not> y \<le> vma_start v")
    case True
    let ?p = "max x (vma_start v)"
    have "x \<le> ?p" "?p < y" "in_area v ?p" using True v(2) assms(2) by (auto simp: in_area_def max_def)
    then have "\<not> (x \<le> ?p \<longrightarrow> ?p < y \<longrightarrow> view A (a # as) ?p = None)" using v(1) by simp
    then have "\<not> (\<forall>p. x \<le> p \<longrightarrow> p < y \<longrightarrow> view A (a # as) p = None)" by meson
    with True v(1) show ?thesis by simp
  next
    case False
    then have "\<not> in_area v p" if "x \<le> p" "p < y" for p using that by (auto simp: in_area_def)
    with False Cons.IH [OF v(3)] v(1) show ?thesis by (auto simp: bind_eq_Some_conv)
  qed
qed simp

text \<open>\<open>fits A lo lim n as x\<close>: the \<open>n\<close> pages from \<open>x\<close> on lie between \<open>lo\<close> and \<open>lim\<close> and are not mapped.\<close>

definition fits :: "(ptr \<Rightarrow> vmarea option) \<Rightarrow> u32 \<Rightarrow> u32 \<Rightarrow> u32 \<Rightarrow> ptr list \<Rightarrow> u32 \<Rightarrow> bool" where
  "fits A lo lim n as x \<longleftrightarrow> lo \<le> x \<and> unat x + unat n \<le> unat lim
     \<and> (\<forall>p. x \<le> p \<longrightarrow> unat p < unat x + unat n \<longrightarrow> view A as p = None)"

lemma areas_ok_snoc:
  "areas_ok A mp lo hi (as @ [a]) \<longleftrightarrow> (\<exists>v. A a = Some v \<and> areas_ok A mp lo (vma_start v) as \<and> lo \<le> vma_start v
     \<and> vma_start v < vma_end v \<and> vma_end v \<le> hi \<and> vma_vmmap v = Some mp)"
  by (induction as arbitrary: lo) (auto split: option.splits)

lemma fits_snoc:
  assumes as: "areas_ok A mp lo (vma_start v) as" and v: "A a = Some v" "vma_start v < vma_end v" "vma_end v \<le> lim"
    and n: "unat lim < unat (vma_end v) + unat n"
  shows "fits A lo lim n (as @ [a]) x \<longleftrightarrow> fits A lo (vma_start v) n as x"
proof
  assume f: "fits A lo lim n (as @ [a]) x"
  have "unat x + unat n \<le> unat (vma_start v)"
  proof (rule ccontr)
    assume c: "\<not> unat x + unat n \<le> unat (vma_start v)"
    let ?p = "max x (vma_start v)"
    have "in_area v ?p" "unat ?p < unat x + unat n" "x \<le> ?p" "view A as ?p = None"
      using f n c v(2,3) view_above [OF as, of ?p]
      by (auto simp: fits_def in_area_def max_def word_less_nat_alt word_le_nat_alt)
    moreover from this v(1) have "view A (as @ [a]) ?p \<noteq> None" by (simp add: view_append)
    ultimately show False using f unfolding fits_def by meson
  qed
  with f show "fits A lo (vma_start v) n as x" unfolding fits_def view_append_None by blast
next
  assume f: "fits A lo (vma_start v) n as x"
  then have "\<not> in_area v p" if "unat p < unat x + unat n" for p
    using that by (auto simp: fits_def in_area_def word_le_nat_alt)
  moreover have "unat (vma_start v) \<le> unat lim" using v(2,3) by (simp add: word_less_nat_alt word_le_nat_alt)
  ultimately show "fits A lo lim n (as @ [a]) x" using f v(1) by (auto simp: fits_def view_append_None)
qed

lemma fits_top:
  assumes as: "areas_ok A mp lo (vma_start v) as" and v: "A a = Some v" "vma_start v < vma_end v" "vma_end v \<le> lim"
    and "lo \<le> vma_start v" "n \<le> lim - vma_end v"
  shows "fits A lo lim n (as @ [a]) (lim - n)"
proof -
  have n: "unat n \<le> unat lim - unat (vma_end v)" "unat (vma_end v) \<le> unat lim" "unat (lim - n) = unat lim - unat n"
    using assms(6) v(3) by (auto simp: word_le_nat_alt unat_sub intro!: unat_sub)
  have "view A (as @ [a]) p = None" if "lim - n \<le> p" for p
    using that n v view_above [OF as, of p] by (auto simp: view_append_None in_area_def word_le_nat_alt word_less_nat_alt)
  then show ?thesis using n v assms(5) by (simp add: fits_def word_le_nat_alt word_less_nat_alt)
qed

definition hilo_top :: "mconf \<Rightarrow> vmarea option \<Rightarrow> u32" where
  "hilo_top C holder = (case holder of None \<Rightarrow> user_hi C | Some h \<Rightarrow> vma_start h)"

lemma sint_small:
  assumes "unat (x :: u32) < 2 ^ 31"
  shows "sint x = int (unat x)"
proof -
  have "int (unat x) < int (2 ^ 31)" using assms unfolding of_nat_less_iff .
  then have "uint x < 2 ^ 31" by simp
  moreover have "- (2 ^ 31) \<le> uint x" by (rule order_trans [OF _ uint_ge_0]) simp
  ultimately have "signed_take_bit 31 (uint x) = uint x" by (intro signed_take_bit_int_eq_self)
  then show ?thesis by (simp add: sint_uint)
qed

lemma find_hilo_Cons:
  "A a = Some v \<Longrightarrow> find_hilo C A n (a # as) holder =
     (if n \<le> hilo_top C holder - vma_end v then Some (sint (hilo_top C holder - n), holder) else find_hilo C A n as (Some v))"
  by (simp add: hilo_top_def user_hi_def split: option.split)

text \<open>
  The loop from the top ends with the highest place where the pages fit, or with \<open>-1\<close> and the lowest
  area, below which alone they may still fit.
\<close>

lemma find_hilo_fits:
  assumes "areas_ok A mp lo (hilo_top C holder) as" "unat (hilo_top C holder) < 2 ^ 31"
  shows "\<exists>r h. find_hilo C A n (rev as) holder = Some (r, h) \<and>
     ((\<exists>x. r = int (unat x) \<and> fits A lo (hilo_top C holder) n as x \<and> (\<forall>y. fits A lo (hilo_top C holder) n as y \<longrightarrow> y \<le> x))
      \<or> (r = - 1 \<and> (case as of [] \<Rightarrow> h = holder | a # _ \<Rightarrow> \<exists>v. A a = Some v \<and> h = Some v \<and>
           (\<forall>y. fits A lo (hilo_top C holder) n as y \<longrightarrow> unat y + unat n \<le> unat (vma_start v)))))"
  using assms
proof (induction as arbitrary: holder rule: rev_induct)
  case Nil
  then show ?case by simp
next
  case (snoc a as)
  let ?lim = "hilo_top C holder"
  from snoc.prems(1) obtain v where v: "A a = Some v" "areas_ok A mp lo (vma_start v) as" "lo \<le> vma_start v"
    "vma_start v < vma_end v" "vma_end v \<le> ?lim" unfolding areas_ok_snoc by blast
  have fh: "find_hilo C A n (rev (as @ [a])) holder =
      (if n \<le> ?lim - vma_end v then Some (sint (?lim - n), holder) else find_hilo C A n (rev as) (Some v))"
    using v(1) by (simp add: find_hilo_Cons del: find_hilo.simps)
  show ?case
  proof (cases "n \<le> ?lim - vma_end v")
    case True
    have n: "n \<le> ?lim" using True v(5) by (simp add: word_le_nat_alt unat_sub)
    then have u: "unat (?lim - n) = unat ?lim - unat n" by (rule unat_sub)
    have "fits A lo ?lim n (as @ [a]) (?lim - n)" using fits_top [OF v(2,1,4,5,3) True] .
    moreover have "y \<le> ?lim - n" if "fits A lo ?lim n (as @ [a]) y" for y
      using that u unfolding fits_def word_le_nat_alt by linarith
    moreover have "sint (?lim - n) = int (unat (?lim - n))" using snoc.prems(2) u by (intro sint_small) simp
    ultimately show ?thesis unfolding fh using True by auto
  next
    case False
    have "unat ?lim < unat (vma_end v) + unat n" using False v(5) by (simp add: word_le_nat_alt unat_sub)
    note f = fits_snoc [OF v(2,1,4,5) this]
    have t: "hilo_top C (Some v) = vma_start v" by (simp add: hilo_top_def)
    have "unat (vma_start v) < 2 ^ 31" using v(4,5) snoc.prems(2) by (simp add: word_le_nat_alt word_less_nat_alt)
    with snoc.IH [of "Some v"] v(2) obtain r h where
      "find_hilo C A n (rev as) (Some v) = Some (r, h)" and
      "(\<exists>x. r = int (unat x) \<and> fits A lo (vma_start v) n as x \<and> (\<forall>y. fits A lo (vma_start v) n as y \<longrightarrow> y \<le> x))
       \<or> (r = - 1 \<and> (case as of [] \<Rightarrow> h = Some v | a # _ \<Rightarrow> \<exists>w. A a = Some w \<and> h = Some w \<and>
           (\<forall>y. fits A lo (vma_start v) n as y \<longrightarrow> unat y + unat n \<le> unat (vma_start w))))" unfolding t by blast
    then show ?thesis using False unfolding f fh by (cases as) (auto simp: fits_def v(1))
  qed
qed

definition free_at :: "mconf \<Rightarrow> 'a vm_st_scheme \<Rightarrow> ptr \<Rightarrow> u32 \<Rightarrow> u32 \<Rightarrow> bool" where
  "free_at C s mp n x \<longleftrightarrow> user_lo C \<le> x \<and> unat x + unat n \<le> unat (user_hi C)
     \<and> (\<forall>p. x \<le> p \<longrightarrow> unat p < unat x + unat n \<longrightarrow> pages s mp p = None)"

lemma fits_first:
  assumes ok: "areas_ok A mp lo hi (a # as)" and a: "A a = Some v" and n: "n \<le> vma_start v - lo"
  shows "fits A lo hi n (a # as) (vma_start v - n)"
proof -
  from ok a have v: "lo \<le> vma_start v" "vma_start v < vma_end v" "vma_end v \<le> hi" "areas_ok A mp (vma_end v) hi as"
    by auto
  have "unat n \<le> unat (vma_start v)" and d: "unat (vma_start v - n) = unat (vma_start v) - unat n"
    and "unat n \<le> unat (vma_start v) - unat lo"
    using n v(1) by (auto simp: word_le_nat_alt unat_sub intro!: unat_sub)
  moreover have "view A (a # as) p = None" if "unat p < unat (vma_start v)" for p
    using that v(2) a view_below [OF v(4), of p] by (simp add: in_area_def word_le_nat_alt word_less_nat_alt)
  ultimately show ?thesis using v by (auto simp: fits_def word_le_nat_alt word_less_nat_alt)
qed

lemma vmmap_find_range_hilo:
  assumes ok: "map_ok C s mp" and m: "vmmaps s mp = Some m" and hi: "unat (user_hi C) < 2 ^ 31" and ne: "vmm_list m \<noteq> []"
  shows "\<exists>r. vmmap_find_range C mp n (VMMAP_DIR_HILO C) s = Some r \<and>
     ((\<exists>x. r = int (unat x) \<and> free_at C s mp n x \<and> (\<forall>y. free_at C s mp n y \<longrightarrow> y \<le> x))
      \<or> r = - 1 \<and> (\<forall>x. \<not> free_at C s mp n x))"
proof -
  let ?A = "vmareas s" and ?as = "vmm_list m" and ?lo = "user_lo C" and ?hi = "user_hi C"
  have aok: "areas_ok ?A mp ?lo ?hi ?as" using ok m by (simp add: map_ok_def)
  have t: "hilo_top C None = ?hi" by (simp add: hilo_top_def)
  have fr: "free_at C s mp n = fits ?A ?lo ?hi n ?as" by (simp add: fun_eq_iff free_at_def fits_def pages_def m)
  obtain a as where as: "?as = a # as" using ne by (cases ?as) simp_all
  obtain v where v: "?A a = Some v" "?lo \<le> vma_start v" "vma_start v \<le> ?hi" using aok as by (auto split: option.splits)
  obtain r h where f: "find_hilo C ?A n (rev ?as) None = Some (r, h)" and
    "(\<exists>x. r = int (unat x) \<and> fits ?A ?lo ?hi n ?as x \<and> (\<forall>y. fits ?A ?lo ?hi n ?as y \<longrightarrow> y \<le> x)) \<or>
     (r = - 1 \<and> h = Some v \<and> (\<forall>y. fits ?A ?lo ?hi n ?as y \<longrightarrow> unat y + unat n \<le> unat (vma_start v)))"
    using find_hilo_fits [of ?A mp ?lo C None ?as n] aok hi v(1) unfolding t as by auto
  then consider (found) x where "r = int (unat x)" "fits ?A ?lo ?hi n ?as x" "\<forall>y. fits ?A ?lo ?hi n ?as y \<longrightarrow> y \<le> x"
    | (bottom) "r = - 1" "h = Some v" "\<forall>y. fits ?A ?lo ?hi n ?as y \<longrightarrow> unat y + unat n \<le> unat (vma_start v)" by blast
  then show ?thesis
  proof cases
    case found
    then show ?thesis using f m unfolding fr by (auto simp: vmmap_find_range_def)
  next
    case bottom
    have eq: "vmmap_find_range C mp n (VMMAP_DIR_HILO C) s =
        Some (if n \<le> vma_start v - ?lo then sint (vma_start v - n) else - 1)"
      using f m bottom by (simp add: vmmap_find_range_def user_lo_def)
    show ?thesis
    proof (cases "n \<le> vma_start v - ?lo")
      case True
      have d: "unat (vma_start v - n) = unat (vma_start v) - unat n" using True v(2)
        by (auto simp: word_le_nat_alt unat_sub intro!: unat_sub)
      have "y \<le> vma_start v - n" if "fits ?A ?lo ?hi n ?as y" for y
        using bottom(3) that d unfolding word_le_nat_alt by fastforce
      moreover have "sint (vma_start v - n) = int (unat (vma_start v - n))"
        using hi v(3) d by (intro sint_small) (simp add: word_le_nat_alt)
      ultimately show ?thesis using True fits_first [of ?A mp ?lo ?hi a as v n] aok v(1) unfolding eq fr as by auto
    next
      case False
      have "\<not> fits ?A ?lo ?hi n ?as x" for x
        using bottom(3) False v(2) by (fastforce simp: fits_def word_le_nat_alt unat_sub)
      then show ?thesis using False unfolding eq fr by simp
    qed
  qed
qed

end
