(* ===== verification/Vm_Frame.thy ===== *)
theory Vm_Frame
  imports Vm_Areas
begin

section \<open>Memory objects leave address spaces alone\<close>

text \<open>
  The page cache and the operations of memory objects change neither areas nor address spaces nor
  processes, provided the code outside the repository they call does not (\<open>ext_frame\<close>). The functions
  of the page cache are followed with rules for \<open>keepS\<close> and \<open>keepP\<close>, for results that are a state and for
  results that are a value and a state; the tables of operations by induction on the depth of calls.
\<close>

definition same_space :: "'a vm_st_scheme \<Rightarrow> 'a vm_st_scheme \<Rightarrow> bool" where
  "same_space s s' \<longleftrightarrow> vmareas s' = vmareas s \<and> vmmaps s' = vmmaps s \<and> procs s' = procs s \<and> curproc s' = curproc s"

definition keepS :: "'a vm_st_scheme \<Rightarrow> 'a vm_st_scheme option \<Rightarrow> bool" where
  "keepS s0 r \<longleftrightarrow> (\<forall>s'. r = Some s' \<longrightarrow> same_space s0 s')"

definition keepP :: "'a vm_st_scheme \<Rightarrow> ('r \<times> 'a vm_st_scheme) option \<Rightarrow> bool" where
  "keepP s0 r \<longleftrightarrow> (\<forall>x s'. r = Some (x, s') \<longrightarrow> same_space s0 s')"

lemma same_space_refl [simp, intro!]: "same_space s s"
  by (simp add: same_space_def)

lemma same_space_trans [trans]: "same_space a b \<Longrightarrow> same_space b c \<Longrightarrow> same_space a c"
  by (simp add: same_space_def)

lemma same_space_updates [simp]:
  "same_space s0 (s\<lparr>pframes := a\<rparr>) = same_space s0 s" "same_space s0 (s\<lparr>npinned := b\<rparr>) = same_space s0 s"
  "same_space s0 (s\<lparr>pinned_list := c\<rparr>) = same_space s0 s" "same_space s0 (s\<lparr>nallocated := b\<rparr>) = same_space s0 s"
  "same_space s0 (s\<lparr>alloc_list := c\<rparr>) = same_space s0 s" "same_space s0 (s\<lparr>pframe_hash := d\<rparr>) = same_space s0 s"
  "same_space s0 (s\<lparr>mmobjs := e\<rparr>) = same_space s0 s" "same_space s0 (s\<lparr>vnodes := f\<rparr>) = same_space s0 s"
  "same_space s0 (sched_queue_init q s) = same_space s0 s"
  by (simp_all add: same_space_def sched_queue_init_def)

lemma keepSD: "keepS s0 r \<Longrightarrow> r = Some s' \<Longrightarrow> same_space s0 s'"
  by (simp add: keepS_def)

lemma keepPD: "keepP s0 r \<Longrightarrow> r = Some (x, s') \<Longrightarrow> same_space s0 s'"
  by (simp add: keepP_def)

subsection \<open>Rules\<close>

lemma keepS_state: "keepS s0 m \<Longrightarrow> (\<And>s1. same_space s0 s1 \<Longrightarrow> keepS s0 (f s1)) \<Longrightarrow> keepS s0 (Option.bind m f)"
  by (auto simp: keepS_def bind_eq_Some_conv)

lemma keepS_pair: "keepP s0 m \<Longrightarrow> (\<And>x s1. same_space s0 s1 \<Longrightarrow> keepS s0 (f (x, s1))) \<Longrightarrow> keepS s0 (Option.bind m f)"
  by (auto simp: keepS_def keepP_def bind_eq_Some_conv)

lemma keepS_pure: "(\<And>x. keepS s0 (f x)) \<Longrightarrow> keepS s0 (Option.bind m f)"
  by (auto simp: keepS_def bind_eq_Some_conv)

lemma keepP_state: "keepS s0 m \<Longrightarrow> (\<And>s1. same_space s0 s1 \<Longrightarrow> keepP s0 (f s1)) \<Longrightarrow> keepP s0 (Option.bind m f)"
  by (auto simp: keepS_def keepP_def bind_eq_Some_conv)

lemma keepP_pair: "keepP s0 m \<Longrightarrow> (\<And>x s1. same_space s0 s1 \<Longrightarrow> keepP s0 (f (x, s1))) \<Longrightarrow> keepP s0 (Option.bind m f)"
  by (auto simp: keepP_def bind_eq_Some_conv)

lemma keepP_pure: "(\<And>x. keepP s0 (f x)) \<Longrightarrow> keepP s0 (Option.bind m f)"
  by (auto simp: keepP_def bind_eq_Some_conv)

lemma keep_let: "keepS s0 (f t) \<Longrightarrow> keepS s0 (Let t f)" "keepP s0 (g u) \<Longrightarrow> keepP s0 (Let u g)"
  by simp_all

lemma keep_prod: "keepS s0 (f a b) \<Longrightarrow> keepS s0 (case_prod f (a, b))" "keepP s0 (g a b) \<Longrightarrow> keepP s0 (case_prod g (a, b))"
  by simp_all

lemma keep_prod_any: "(\<And>a b. keepS s0 (f a b)) \<Longrightarrow> keepS s0 (case_prod f p)" "(\<And>a b. keepP s0 (g a b)) \<Longrightarrow> keepP s0 (case_prod g p)"
  by (simp_all split: prod.split)

lemma keep_prod_app: "(\<And>a b. keepS s0 (f a b s)) \<Longrightarrow> keepS s0 (case_prod f p s)" "(\<And>a b. keepP s0 (g a b s)) \<Longrightarrow> keepP s0 (case_prod g p s)"
  by (simp_all split: prod.split)

lemma keep_if: "(b \<Longrightarrow> keepS s0 x) \<Longrightarrow> (\<not> b \<Longrightarrow> keepS s0 y) \<Longrightarrow> keepS s0 (if b then x else y)"
  "(b \<Longrightarrow> keepP s0 u) \<Longrightarrow> (\<not> b \<Longrightarrow> keepP s0 v) \<Longrightarrow> keepP s0 (if b then u else v)"
  by simp_all

lemma keep_option: "keepS s0 n \<Longrightarrow> (\<And>x. keepS s0 (f x)) \<Longrightarrow> keepS s0 (case r of None \<Rightarrow> n | Some x \<Rightarrow> f x)"
  "keepP s0 k \<Longrightarrow> (\<And>x. keepP s0 (g x)) \<Longrightarrow> keepP s0 (case r of None \<Rightarrow> k | Some x \<Rightarrow> g x)"
  by (simp_all split: option.split)

lemma keep_sum: "(\<And>x. keepP s0 (f x)) \<Longrightarrow> (\<And>x. keepP s0 (g x)) \<Longrightarrow> keepP s0 (case r of Inl x \<Rightarrow> f x | Inr x \<Rightarrow> g x)"
  by (simp split: sum.split)

lemma keep_ret: "keepS s0 None" "same_space s0 s \<Longrightarrow> keepS s0 (Some s)" "keepP s0 None" "same_space s0 s \<Longrightarrow> keepP s0 (Some (x, s))"
  by (simp_all add: keepS_def keepP_def)

lemma keep_upd: "same_space s0 s \<Longrightarrow> keepS s0 (pf_upd pf f s)" "same_space s0 s \<Longrightarrow> keepS s0 (obj_upd ob g s)"
  "same_space s0 s \<Longrightarrow> keepS s0 (vn_upd v h s)"
  by (auto simp: keepS_def pf_upd_def obj_upd_def vn_upd_def bind_eq_Some_conv)

lemma keep_nrespages: "same_space s0 s \<Longrightarrow> keepS s0 (add_nrespages k ob s)"
  unfolding add_nrespages_def by (intro keepS_pure keep_if keep_upd)

lemma sched_broadcast_on_space: "sched_broadcast_on q s = Some s' \<Longrightarrow> same_space s s'"
  by (drule sched_broadcast_on_frame, cases s, cases s') (simp add: same_space_def)

lemma keep_broadcast: "same_space s0 s \<Longrightarrow> keepS s0 (sched_broadcast_on q s)"
  using sched_broadcast_on_space by (auto simp: keepS_def intro: same_space_trans)

lemmas keep_rules = keep_ret keep_upd keep_nrespages keep_broadcast keep_let keep_prod keep_prod_any keep_prod_app keep_if keep_option
  keep_sum keepS_state keepP_state keepS_pair keepP_pair keepS_pure keepP_pure

subsection \<open>The interface of memory objects\<close>

definition table_frame :: "'a vm_st_scheme obj_ops \<Rightarrow> bool" where
  "table_frame T \<longleftrightarrow> (\<forall>ob s. keepS s (oref T ob s)) \<and> (\<forall>ob s. keepS s (oput T ob s))
     \<and> (\<forall>ob n w s. keepP s (olookuppage T ob n w s)) \<and> (\<forall>ob pf s. keepP s (ofillpage T ob pf s))
     \<and> (\<forall>ob pf s. keepP s (odirtypage T ob pf s)) \<and> (\<forall>ob pf s. keepP s (ocleanpage T ob pf s))"

definition ext_frame :: "'a vm_st_scheme vm_ext \<Rightarrow> bool" where
  "ext_frame X \<longleftrightarrow> (\<forall>ob s. keepS s (vo_vref X ob s)) \<and> (\<forall>ob s. keepS s (vo_vput X ob s))
     \<and> (\<forall>ob n w s. keepP s (vlookuppage X ob n w s)) \<and> (\<forall>ob pf s. keepP s (vreadpage X ob pf s))
     \<and> (\<forall>ob pf s. keepP s (vdirtypage X ob pf s)) \<and> (\<forall>ob pf s. keepP s (vcleanpage X ob pf s))
     \<and> (\<forall>q s. keepS s (vm_sleep X q s)) \<and> (\<forall>pd va s. same_space s (pt_unmap X pd va s))
     \<and> (\<forall>pd lo hi s. same_space s (pt_unmap_range X pd lo hi s))
     \<and> (\<forall>v a s. keepP s (vop_mmap X v a s)) \<and> (\<forall>cd v a s. keepP s (cd_mmap X cd v a s))"

lemma keepS_from: "keepS s m \<Longrightarrow> same_space s0 s \<Longrightarrow> keepS s0 m"
  by (auto simp: keepS_def intro: same_space_trans)

lemma keepP_from: "keepP s m \<Longrightarrow> same_space s0 s \<Longrightarrow> keepP s0 m"
  by (auto simp: keepP_def intro: same_space_trans)

lemma table_frameD:
  assumes "table_frame T" "same_space s0 s"
  shows "keepS s0 (oref T ob s)" "keepS s0 (oput T ob s)" "keepP s0 (olookuppage T ob n w s)"
    "keepP s0 (ofillpage T ob pf s)" "keepP s0 (odirtypage T ob pf s)" "keepP s0 (ocleanpage T ob pf s)"
  using assms unfolding table_frame_def by (meson keepS_from keepP_from)+

lemma ext_frameD:
  assumes "ext_frame X" "same_space s0 s"
  shows "keepS s0 (vo_vref X ob s)" "keepS s0 (vo_vput X ob s)" "keepP s0 (vlookuppage X ob n w s)"
    "keepP s0 (vreadpage X ob pf s)" "keepP s0 (vdirtypage X ob pf s)" "keepP s0 (vcleanpage X ob pf s)"
    "keepS s0 (vm_sleep X q s)" "same_space s0 (pt_unmap X pd va s)" "same_space s0 (pt_unmap_range X pd lo hi s)"
    "keepP s0 (vop_mmap X v a s)" "keepP s0 (cd_mmap X cd v a s)"
  using assms unfolding ext_frame_def by (meson keepS_from keepP_from same_space_trans)+

subsection \<open>The page cache\<close>

lemma keep_get_resident: "same_space s0 s \<Longrightarrow> keepP s0 (pframe_get_resident C ob n s)"
  unfolding pframe_get_resident_def by (rule keep_rules | assumption | simp)+

lemma keep_pin: "same_space s0 s \<Longrightarrow> keepS s0 (pframe_pin pf s)"
  unfolding pframe_pin_def by (rule keep_rules | assumption | simp)+

lemma keep_unpin: "same_space s0 s \<Longrightarrow> keepS s0 (pframe_unpin pf s)"
  unfolding pframe_unpin_def by (rule keep_rules | assumption | simp)+

lemma keep_unmap_vmas:
  assumes "ext_frame X"
  shows "same_space s0 s \<Longrightarrow> keepS s0 (unmap_from_vmas C X n as s)"
proof (induction as arbitrary: s)
  case (Cons a as)
  show ?case unfolding unmap_from_vmas.simps
    by (rule keep_rules Cons.IH ext_frameD [OF assms] Cons.prems | assumption)+
qed (simp add: keep_ret)

lemma keep_remove_from_pts: "ext_frame X \<Longrightarrow> same_space s0 s \<Longrightarrow> keepS s0 (pframe_remove_from_pts C X pf s)"
  unfolding pframe_remove_from_pts_def by (rule keep_rules keep_unmap_vmas | assumption)+

lemma keep_alloc: "table_frame T \<Longrightarrow> same_space s0 s \<Longrightarrow> keepP s0 (pframe_alloc C X T ob n s)"
  unfolding pframe_alloc_def by (rule keep_rules table_frameD | assumption | simp)+

lemma keep_fill: "table_frame T \<Longrightarrow> same_space s0 s \<Longrightarrow> keepP s0 (pframe_fill T pf s)"
  unfolding pframe_fill_def by (rule keep_rules table_frameD | assumption | simp)+

lemma keep_dirty: "table_frame T \<Longrightarrow> same_space s0 s \<Longrightarrow> keepP s0 (pframe_dirty T pf s)"
  unfolding pframe_dirty_def by (rule keep_rules table_frameD | assumption | simp)+

lemma keep_clean: "ext_frame X \<Longrightarrow> table_frame T \<Longrightarrow> same_space s0 s \<Longrightarrow> keepP s0 (pframe_clean C X T pf s)"
  unfolding pframe_clean_def by (rule keep_rules table_frameD keep_remove_from_pts | assumption | simp)+

lemma keep_free: "ext_frame X \<Longrightarrow> table_frame T \<Longrightarrow> same_space s0 s \<Longrightarrow> keepS s0 (pframe_free C X T pf s)"
  unfolding pframe_free_def by (rule keep_rules table_frameD keep_remove_from_pts | assumption | simp)+

lemma keep_get: "ext_frame X \<Longrightarrow> table_frame T \<Longrightarrow> same_space s0 s \<Longrightarrow> keepP s0 (pframe_get E C X T ob n s)"
  unfolding pframe_get_def
  by (rule keep_rules keep_get_resident ext_frameD(7) keep_alloc keep_fill keep_free | assumption | simp)+

subsection \<open>Anonymous and shadow objects\<close>

lemmas keep_cache = keep_get_resident keep_pin keep_unpin keep_alloc keep_fill keep_dirty keep_clean keep_free keep_get

lemma keep_ref: "same_space s0 s \<Longrightarrow> keepS s0 (anon_ref ob s)" "same_space s0 s \<Longrightarrow> keepS s0 (shadow_ref ob s)"
  unfolding anon_ref_def shadow_ref_def by (rule keep_rules | assumption)+

lemma keep_anon_pages:
  "ext_frame X \<Longrightarrow> table_frame T \<Longrightarrow> same_space s0 s \<Longrightarrow> keepS s0 (anon_free_pages C X T pfs s)"
proof (induction pfs arbitrary: s)
  case (Cons pf pfs)
  show ?case unfolding anon_free_pages.simps by (rule keep_rules keep_cache Cons.IH Cons.prems | assumption)+
qed (simp add: keep_ret)

lemma keep_shadow_pages:
  "ext_frame X \<Longrightarrow> table_frame T \<Longrightarrow> same_space s0 s \<Longrightarrow> keepS s0 (shadow_free_pages C X T pfs s)"
proof (induction pfs arbitrary: s)
  case (Cons pf pfs)
  show ?case unfolding shadow_free_pages.simps by (rule keep_rules keep_cache Cons.IH Cons.prems | assumption)+
qed (simp add: keep_ret)

lemma keep_put:
  assumes "ext_frame X" "table_frame T" "same_space s0 s"
  shows "keepS s0 (anon_put C X T ob s)" "keepS s0 (shadow_put C X T ob s)"
  unfolding anon_put_def shadow_put_def
  by (rule keep_rules keep_anon_pages keep_shadow_pages table_frameD assms | assumption | simp)+

lemma get_resident_space: "pframe_get_resident C ob n s = Some (r, s') \<Longrightarrow> same_space s s'"
  using keepPD [OF keep_get_resident [OF same_space_refl]] .

lemma keep_find: "keepP s (shadow_find C n ob s)"
proof -
  have "same_space s s'" if "shadow_find C n ob s = Some (r, s')" for r s'
  proof -
    have "case y of (r, s') \<Rightarrow> same_space s s'" if "shadow_find C n ob s = Some y" for y
      by (rule shadow_find.raw_induct [OF _ that])
        (auto simp: bind_eq_Some_conv split: option.splits if_splits dest!: get_resident_space intro: same_space_trans)
    from this [OF that] show ?thesis by simp
  qed
  then show ?thesis by (simp add: keepP_def)
qed

lemma keep_source: "keepP s (shadow_source C n ob s)"
proof -
  have "same_space s s'" if "shadow_source C n ob s = Some (r, s')" for r s'
  proof -
    have "case y of (r, s') \<Rightarrow> same_space s s'" if "shadow_source C n ob s = Some y" for y
      by (rule shadow_source.raw_induct [OF _ that])
        (auto simp: bind_eq_Some_conv split: option.splits if_splits dest!: get_resident_space,
          blast intro: same_space_trans)
    from this [OF that] show ?thesis by simp
  qed
  then show ?thesis by (simp add: keepP_def)
qed

lemma keep_copy: "same_space s0 s \<Longrightarrow> keepS s0 (copy_page t f s)"
  unfolding copy_page_def by (rule keep_rules | assumption)+

lemmas keep_walk = keepP_from [OF keep_find] keepP_from [OF keep_source] keep_copy

lemma keep_dirtypage: "same_space s0 s \<Longrightarrow> keepP s0 (anon_dirtypage ob pf s)" "same_space s0 s \<Longrightarrow> keepP s0 (shadow_dirtypage ob pf s)"
  unfolding anon_dirtypage_def shadow_dirtypage_def by (rule keep_rules | assumption)+

lemma keep_lookup:
  assumes "ext_frame X" "table_frame T" "same_space s0 s"
  shows "keepP s0 (anon_lookuppage E C X T ob n w s)" "keepP s0 (shadow_lookuppage E C X T ob n w s)"
  unfolding anon_lookuppage_def shadow_lookuppage_def pframe_lookup_def
  by (rule keep_rules keep_walk keep_cache keep_dirtypage table_frameD assms | assumption)+

lemma keep_fillpage:
  assumes "table_frame T" "same_space s0 s"
  shows "keepP s0 (anon_fillpage C ob pf s)" "keepP s0 (shadow_fillpage C T ob pf s)"
  unfolding anon_fillpage_def shadow_fillpage_def pframe_lookup_def
  by (rule keep_rules keep_walk keep_cache table_frameD assms | assumption)+

lemma keep_cleanpage:
  assumes "table_frame T" "same_space s0 s"
  shows "keepP s0 (anon_cleanpage ob pf s)" "keepP s0 (shadow_cleanpage T ob pf s)"
  unfolding anon_cleanpage_def shadow_cleanpage_def
  by (rule keep_rules keep_walk table_frameD assms | assumption)+

lemma keep_ops: "keepS s0 a \<Longrightarrow> keepS s0 b \<Longrightarrow> keepS s0 c \<Longrightarrow>
    keepS s0 (case r of Anon_mmobj_ops \<Rightarrow> a | Shadow_mmobj_ops \<Rightarrow> b | Vnode_mmobj_ops \<Rightarrow> c)"
  "keepP s0 x \<Longrightarrow> keepP s0 y \<Longrightarrow> keepP s0 z \<Longrightarrow>
    keepP s0 (case r of Anon_mmobj_ops \<Rightarrow> x | Shadow_mmobj_ops \<Rightarrow> y | Vnode_mmobj_ops \<Rightarrow> z)"
  by (cases r; simp)+

lemma table_frame_step:
  assumes "ext_frame X" "table_frame T"
  shows "table_frame (obj_table E C X T)"
  unfolding table_frame_def obj_table_def obj_ops.simps
  by (rule conjI allI keep_rules keep_ops keep_ref keep_put keep_lookup keep_fillpage keep_dirtypage keep_cleanpage
      ext_frameD assms same_space_refl)+

lemma table_frame_n: "ext_frame X \<Longrightarrow> table_frame (obj_ops_n E C X n)"
  by (induction n) (simp_all add: table_frame_step, simp add: table_frame_def keep_ret)

end
