(* ===== verification/Vm_Maps.thy ===== *)
theory Vm_Maps
  imports Vm_Frame
begin

section \<open>Changing an address space\<close>

text \<open>
  Removing a range and adding a mapping, as changes of the function from pages to mappings: the loop of
  \<^verbatim>\<open>vmmap_remove\<close> cuts the range out of every area, and \<^verbatim>\<open>vmmap_map\<close> at a fixed address overwrites it.
\<close>

definition slab_fresh :: "'a vm_st_scheme vm_ext \<Rightarrow> bool" where
  "slab_fresh X \<longleftrightarrow> (\<forall>s b v. slab_vmarea X s = Some (b, v) \<longrightarrow> vmareas s b = None)"

definition cut :: "u32 \<Rightarrow> u32 \<Rightarrow> (u32 \<Rightarrow> 'i option) \<Rightarrow> u32 \<Rightarrow> 'i option" where
  "cut lo hi f p = (if lo \<le> p \<and> p < hi then None else f p)"

text \<open>\<open>relist s s' mp zs\<close>: from \<open>s\<close> to \<open>s'\<close> the list of the address space \<open>mp\<close> becomes \<open>zs\<close>, and processes stay.\<close>

definition relist :: "'a vm_st_scheme \<Rightarrow> 'a vm_st_scheme \<Rightarrow> ptr \<Rightarrow> ptr list \<Rightarrow> bool" where
  "relist s s' mp zs \<longleftrightarrow> (\<exists>m. vmmaps s mp = Some m \<and> vmmaps s' = (vmmaps s)(mp \<mapsto> m\<lparr>vmm_list := zs\<rparr>))
     \<and> procs s' = procs s \<and> curproc s' = curproc s"

subsection \<open>Single updates\<close>

lemma vma_updD: "vma_upd a f s = Some s' \<Longrightarrow> \<exists>v. vmareas s a = Some v \<and> s' = s\<lparr>vmareas := (vmareas s)(a \<mapsto> f v)\<rparr>"
  by (auto simp: vma_upd_def bind_eq_Some_conv)

lemma map_updD: "map_upd mp f s = Some s' \<Longrightarrow>
    \<exists>m. vmmaps s mp = Some m \<and> s' = s\<lparr>vmmaps := (vmmaps s)(mp \<mapsto> m\<lparr>vmm_list := f (vmm_list m)\<rparr>)\<rparr>"
  by (auto simp: map_upd_def bind_eq_Some_conv)

lemma space_obj_upd: "obj_upd ob f s = Some s' \<Longrightarrow> same_space s s'"
  using keepSD [OF keep_upd(2) [OF same_space_refl]] .

lemma space_shadow_create: "shadow_create X s = Some (ob, s') \<Longrightarrow> same_space s s'"
  by (auto simp: shadow_create_def bind_eq_Some_conv)

lemma space_anon_create: "anon_create X s = Some (ob, s') \<Longrightarrow> same_space s s'"
  by (auto simp: anon_create_def bind_eq_Some_conv)

lemma keep_add_vma: "same_space s0 s \<Longrightarrow> keepS s0 (add_vma f ob s)"
  unfolding add_vma_def by (auto intro!: keepS_pure keep_upd keep_ret split: mmo_un.split)

lemmas space_add_vma = keepSD [OF keep_add_vma [OF same_space_refl]]

lemma space_unlink: "same_space s (unlink_olink a s)"
  by (simp add: unlink_olink_def)

lemma insert_after_append: "a \<notin> set xs \<Longrightarrow> insert_after a b (xs @ a # ys) = xs @ a # b # ys"
  by (induction xs) auto

lemma relist_same: "vmmaps s mp = Some m \<Longrightarrow> vmm_list m = zs \<Longrightarrow> vmmaps s' = vmmaps s \<Longrightarrow> procs s' = procs s
    \<Longrightarrow> curproc s' = curproc s \<Longrightarrow> relist s s' mp zs"
  by (auto simp: relist_def)

lemma relist_trans: "relist s s1 mp ys \<Longrightarrow> relist s1 s2 mp zs \<Longrightarrow> relist s s2 mp zs"
  by (auto simp: relist_def)

text \<open>\<open>covers v\<close> is the part of the view that one area contributes.\<close>

definition covers :: "vmarea \<Rightarrow> u32 \<Rightarrow> (u32 \<times> u32 \<times> u32) option" where
  "covers v p = (if in_area v p then Some (area_info v p) else None)"

lemma split_area_space:
  assumes run: "split_area X T mp a lo hi s = Some s'" and T: "table_frame T" and fr: "slab_fresh X"
    and v: "vmareas s a = Some v" and m: "vmmaps s mp = Some m" "vmm_list m = xs @ a # ys" "a \<notin> set xs"
  obtains b wa wb where "vmareas s b = None"
    "vmareas s' = (vmareas s)(a \<mapsto> wa, b \<mapsto> wb)" "relist s s' mp (xs @ [a, b] @ ys)"
    "wa = v\<lparr>vma_end := lo, vma_obj := vma_obj wa\<rparr>"
    "wb = v\<lparr>vma_off := vma_off v + hi - vma_start v, vma_start := hi, vma_vmmap := Some mp, vma_obj := vma_obj wb\<rparr>"
proof -
  obtain b w where b: "slab_vmarea X s = Some (b, w)"
    using run by (auto simp: split_area_def vmarea_alloc_def bind_eq_Some_conv Let_def split: option.splits)
  then have nb: "vmareas s b = None" "b \<noteq> a" using fr v by (auto simp: slab_fresh_def)
  obtain s2 s3 s4 s5 s6 s7 s8 s9 s10 s11 s12 s13 f1 f2 bo ob bb where
    s2: "vma_upd b (\<lambda>w. w\<lparr>vma_off := vma_off v + hi - vma_start v, vma_start := hi, vma_end := vma_end v,
        vma_prot := vma_prot v, vma_flags := vma_flags v, vma_vmmap := Some mp, vma_obj := vma_obj v\<rparr>)
        (s\<lparr>vmareas := (vmareas s)(b \<mapsto> w\<lparr>vma_vmmap := None\<rparr>)\<rparr>) = Some s2"
    and s3: "vma_upd a (\<lambda>w. w\<lparr>vma_end := lo\<rparr>) s2 = Some s3" and s4: "map_upd mp (insert_after a b) s3 = Some s4"
    and c: "shadow_create X s4 = Some (f1, s5)" "shadow_create X s5 = Some (f2, s6)"
    and s7: "vma_upd a (\<lambda>w. w\<lparr>vma_obj := Some f1\<rparr>) s6 = Some s7"
    and s8: "vma_upd b (\<lambda>w. w\<lparr>vma_obj := Some f2\<rparr>) s7 = Some s8"
    and u: "obj_upd f2 (\<lambda>m. m\<lparr>mmo_un := Mmo_bottom_obj (Some bo)\<rparr>) s8 = Some s9"
    "obj_upd f1 (\<lambda>m. m\<lparr>mmo_un := Mmo_bottom_obj (Some bo)\<rparr>) s9 = Some s10"
    "obj_upd f1 (\<lambda>m. m\<lparr>mmo_shadowed := vma_obj v\<rparr>) s10 = Some s11"
    "obj_upd f2 (\<lambda>m. m\<lparr>mmo_shadowed := vma_obj v\<rparr>) s11 = Some s12"
    and r: "oref T ob s12 = Some s13" "add_vma (\<lambda>vs. vs @ [b]) bb s13 = Some s'"
    using run b nb v by (auto simp: split_area_def vmarea_alloc_def bind_eq_Some_conv Let_def)
  have sp: "same_space s4 s6" "same_space s8 s'"
    using space_shadow_create [OF c(1)] space_shadow_create [OF c(2)] space_obj_upd [OF u(1)] space_obj_upd [OF u(2)]
      space_obj_upd [OF u(3)] space_obj_upd [OF u(4)] keepSD [OF table_frameD(1) [OF T same_space_refl] r(1)] space_add_vma [OF r(2)]
    by (meson same_space_trans)+
  let ?wa = "v\<lparr>vma_end := lo, vma_obj := Some f1\<rparr>"
  let ?wb = "v\<lparr>vma_off := vma_off v + hi - vma_start v, vma_start := hi, vma_vmmap := Some mp, vma_obj := Some f2\<rparr>"
  have "vmareas s4 = (vmareas s)(a \<mapsto> v\<lparr>vma_end := lo\<rparr>, b \<mapsto> ?wb\<lparr>vma_obj := vma_obj v\<rparr>)" "relist s s4 mp (xs @ [a, b] @ ys)"
    using vma_updD [OF s2] vma_updD [OF s3] map_updD [OF s4] nb v m by (auto simp: fun_eq_iff relist_def insert_after_append)
  moreover from this sp(1) have "vmareas s8 = (vmareas s)(a \<mapsto> ?wa, b \<mapsto> ?wb)" "vmmaps s8 = vmmaps s4"
    "procs s8 = procs s4" "curproc s8 = curproc s4"
    using vma_updD [OF s7] vma_updD [OF s8] nb by (auto simp: fun_eq_iff same_space_def)
  ultimately have "vmareas s' = (vmareas s)(a \<mapsto> ?wa, b \<mapsto> ?wb)" "relist s s' mp (xs @ [a, b] @ ys)"
    using sp(2) by (simp_all add: same_space_def relist_def)
  then show ?thesis by (rule that [OF nb(1)]) simp_all
qed

lemma drop_area_space:
  assumes run: "drop_area T mp a s = Some s'" and T: "table_frame T" and m: "vmmaps s mp = Some m"
  shows "vmareas s' = (vmareas s)(a := None)" "relist s s' mp (remove1 a (vmm_list m))"
proof -
  obtain s2 ob s3 where s2: "map_upd mp (remove1 a) (unlink_olink a s) = Some s2" and s3: "oput T ob s2 = Some s3"
    and s': "s' = vmarea_free a s3" using run by (auto simp: drop_area_def bind_eq_Some_conv Let_def)
  have "same_space s2 s3" using keepSD [OF table_frameD(2) [OF T same_space_refl] s3] .
  with map_updD [OF s2] space_unlink [of s a] m
  show "vmareas s' = (vmareas s)(a := None)" "relist s s' mp (remove1 a (vmm_list m))"
    by (auto simp: s' vmarea_free_def same_space_def relist_def)
qed

text \<open>
  \<open>trimmed\<close> is what the body of the loop does to one area: in its place comes a list of areas that show
  what is left of it, none of which was in use before.
\<close>

definition trimmed :: "u32 \<Rightarrow> u32 \<Rightarrow> ptr \<Rightarrow> vmarea \<Rightarrow> ptr \<Rightarrow> 'a vm_st_scheme \<Rightarrow> ptr list \<Rightarrow> 'a vm_st_scheme \<Rightarrow> bool" where
  "trimmed lo hi mp v a s zs s' \<longleftrightarrow> areas_ok (vmareas s') mp (vma_start v) (vma_end v) zs
     \<and> view (vmareas s') zs = cut lo hi (covers v)
     \<and> (\<forall>x. x \<noteq> a \<longrightarrow> vmareas s x \<noteq> None \<longrightarrow> vmareas s' x = vmareas s x) \<and> (\<forall>z \<in> set zs. z = a \<or> vmareas s z = None)"

lemma remove_from_area_trimmed:
  assumes run: "remove_from_area X T mp a lo hi s = Some s'" and T: "table_frame T" and fr: "slab_fresh X"
    and v: "vmareas s a = Some v" "vma_start v < vma_end v" "vma_vmmap v = Some mp"
    and m: "vmmaps s mp = Some m" "vmm_list m = xs @ a # ys" "a \<notin> set xs" and "lo < hi"
  shows "\<exists>zs. relist s s' mp (xs @ zs @ ys) \<and> trimmed lo hi mp v a s zs s'"
proof -
  consider (split) "vma_start v < lo" "hi < vma_end v" "split_area X T mp a lo hi s = Some s'"
    | (upper) "vma_start v < lo" "lo < vma_end v" "vma_end v \<le> hi" "vma_upd a (\<lambda>w. w\<lparr>vma_end := lo\<rparr>) s = Some s'"
    | (drop) "lo \<le> vma_start v" "vma_end v \<le> hi" "drop_area T mp a s = Some s'"
    | (lower) "lo \<le> vma_start v" "hi < vma_end v" "vma_start v < hi"
        "vma_upd a (\<lambda>w. w\<lparr>vma_off := vma_off w + hi - vma_start w, vma_start := hi\<rparr>) s = Some s'"
    | (none) "vma_end v \<le> lo \<or> hi \<le> vma_start v" "s' = s"
    using run v(1) by (auto simp: remove_from_area_def not_less split: if_split_asm)
  then show ?thesis
  proof cases
    case split
    obtain b wa wb where b: "vmareas s b = None" "vmareas s' = (vmareas s)(a \<mapsto> wa, b \<mapsto> wb)" "relist s s' mp (xs @ [a, b] @ ys)"
      "wa = v\<lparr>vma_end := lo, vma_obj := vma_obj wa\<rparr>"
      "wb = v\<lparr>vma_off := vma_off v + hi - vma_start v, vma_start := hi, vma_vmmap := Some mp, vma_obj := vma_obj wb\<rparr>"
      using split_area_space [OF split(3) T fr v(1) m] by blast
    from b(1) v(1) have "b \<noteq> a" by auto
    note w = arg_cong [OF b(4), of vma_start] arg_cong [OF b(4), of vma_end]  arg_cong [OF b(4), of vma_off]
      arg_cong [OF b(4), of vma_prot] arg_cong [OF b(4), of vma_flags] arg_cong [OF b(4), of vma_vmmap]
      arg_cong [OF b(5), of vma_start] arg_cong [OF b(5), of vma_end]  arg_cong [OF b(5), of vma_off]
      arg_cong [OF b(5), of vma_prot] arg_cong [OF b(5), of vma_flags] arg_cong [OF b(5), of vma_vmmap]
    have "areas_ok (vmareas s') mp (vma_start v) (vma_end v) [a, b]"
      using w split(1,2) v(2,3) \<open>lo < hi\<close> \<open>b \<noteq> a\<close> by (auto simp: b(2))
    moreover have "view (vmareas s') [a, b] = cut lo hi (covers v)"
      using w split(1,2) v(2) \<open>lo < hi\<close> \<open>b \<noteq> a\<close> by (auto simp: b(2) fun_eq_iff cut_def covers_def in_area_def area_info_def)
    ultimately have "trimmed lo hi mp v a s [a, b] s'" using b(1) by (auto simp: trimmed_def b(2))
    with b(3) show ?thesis by blast
  next
    case upper
    have s': "s' = s\<lparr>vmareas := (vmareas s)(a \<mapsto> v\<lparr>vma_end := lo\<rparr>)\<rparr>" using vma_updD [OF upper(4)] v(1) by auto
    have "trimmed lo hi mp v a s [a] s'" using upper v(2,3)
      by (auto simp: s' trimmed_def fun_eq_iff cut_def covers_def in_area_def area_info_def)
    moreover have "relist s s' mp (xs @ [a] @ ys)" using m by (simp add: s' relist_same)
    ultimately show ?thesis by blast
  next
    case drop
    have "relist s s' mp (xs @ [] @ ys)" using drop_area_space(2) [OF drop(3) T m(1)] m(2,3) by (simp add: remove1_append)
    moreover have "trimmed lo hi mp v a s [] s'"
      using drop drop_area_space(1) [OF drop(3) T m(1)] by (auto simp: trimmed_def fun_eq_iff cut_def covers_def in_area_def)
    ultimately show ?thesis by blast
  next
    case lower
    have s': "s' = s\<lparr>vmareas := (vmareas s)(a \<mapsto> v\<lparr>vma_off := vma_off v + hi - vma_start v, vma_start := hi\<rparr>)\<rparr>"
      using vma_updD [OF lower(4)] v(1) by auto
    have "trimmed lo hi mp v a s [a] s'" using lower v(2,3)
      by (auto simp: s' trimmed_def fun_eq_iff cut_def covers_def in_area_def area_info_def)
    moreover have "relist s s' mp (xs @ [a] @ ys)" using m by (simp add: s' relist_same)
    ultimately show ?thesis by blast
  next
    case none
    have "trimmed lo hi mp v a s [a] s'" using none v
      by (auto simp: trimmed_def fun_eq_iff cut_def covers_def in_area_def)
    moreover have "relist s s' mp (xs @ [a] @ ys)" using m by (simp add: none(2) relist_same)
    ultimately show ?thesis by blast
  qed
qed

subsection \<open>The loop\<close>

lemma covers_Cons: "A a = Some v \<Longrightarrow> view A (a # as) p = (case covers v p of None \<Rightarrow> view A as p | Some i \<Rightarrow> Some i)"
  by (simp add: covers_def)

lemma remove_from_areas_view:
  assumes T: "table_frame T" and fr: "slab_fresh X" and "lo < hi"
  shows "remove_from_areas X T mp lo hi as s = Some s' \<Longrightarrow> areas_ok (vmareas s) mp l h as \<Longrightarrow> l \<le> h \<Longrightarrow>
      vmmaps s mp = Some m \<Longrightarrow> vmm_list m = xs @ as \<Longrightarrow> distinct (xs @ as) \<Longrightarrow> \<forall>x \<in> set xs. vmareas s x \<noteq> None \<Longrightarrow>
    \<exists>zs. relist s s' mp (xs @ zs) \<and> areas_ok (vmareas s') mp l h zs \<and> view (vmareas s') zs = cut lo hi (view (vmareas s) as)
      \<and> (\<forall>x. x \<notin> set as \<longrightarrow> vmareas s x \<noteq> None \<longrightarrow> vmareas s' x = vmareas s x)
      \<and> (\<forall>z \<in> set zs. z \<in> set as \<or> vmareas s z = None)"
proof (induction as arbitrary: s l m xs)
  case Nil
  then show ?case by (auto simp: relist_same cut_def fun_eq_iff intro!: exI [of _ "[]"])
next
  case (Cons a as)
  from Cons.prems(1) obtain s1 where s1: "remove_from_area X T mp a lo hi s = Some s1"
    "remove_from_areas X T mp lo hi as s1 = Some s'" by (auto simp: bind_eq_Some_conv)
  from Cons.prems(2) obtain v where v: "vmareas s a = Some v" "l \<le> vma_start v" "vma_start v < vma_end v" "vma_end v \<le> h"
    "vma_vmmap v = Some mp" and ok: "areas_ok (vmareas s) mp (vma_end v) h as" unfolding areas_ok_Cons by blast
  from Cons.prems(6) have a: "a \<notin> set xs" "a \<notin> set as" by simp_all
  obtain zs where zs: "relist s s1 mp (xs @ zs @ as)" "trimmed lo hi mp v a s zs s1"
    using remove_from_area_trimmed [OF s1(1) T fr v(1,3,5) Cons.prems(4,5) a(1) \<open>lo < hi\<close>] by blast
  have known: "vmareas s x \<noteq> None" if "x \<in> set as" for x
    using areas_ok_member [OF ok that] by (metis option.distinct(1))
  have same: "vmareas s1 x = vmareas s x" if "x \<noteq> a" "vmareas s x \<noteq> None" for x using zs(2) that by (simp add: trimmed_def)
  have ok1: "areas_ok (vmareas s1) mp (vma_end v) h as" "view (vmareas s1) as = view (vmareas s) as"
    using ok same known a(2) areas_ok_cong [of as "vmareas s1" "vmareas s"] view_cong [of as "vmareas s1" "vmareas s"] by metis+
  have zs': "areas_ok (vmareas s1) mp (vma_start v) (vma_end v) zs" "view (vmareas s1) zs = cut lo hi (covers v)"
    "\<forall>z \<in> set zs. z = a \<or> vmareas s z = None" using zs(2) by (simp_all add: trimmed_def)
  have m1: "vmmaps s1 mp = Some (m\<lparr>vmm_list := xs @ zs @ as\<rparr>)" using zs(1) Cons.prems(4) by (auto simp: relist_def)
  have "distinct ((xs @ zs) @ as)"
    using Cons.prems(6,7) areas_ok_distinct [OF zs'(1)] zs'(3) known a by fastforce
  moreover have "\<forall>x \<in> set (xs @ zs). vmareas s1 x \<noteq> None"
    using Cons.prems(7) same a(1) areas_ok_member [OF zs'(1)] by (metis Un_iff option.distinct(1) set_append)
  moreover have "vma_end v \<le> h" by (rule v(4))
  ultimately obtain ws where ws: "relist s1 s' mp ((xs @ zs) @ ws)" "areas_ok (vmareas s') mp (vma_end v) h ws"
    "view (vmareas s') ws = cut lo hi (view (vmareas s1) as)"
    "\<forall>x. x \<notin> set as \<longrightarrow> vmareas s1 x \<noteq> None \<longrightarrow> vmareas s' x = vmareas s1 x"
    "\<forall>z \<in> set ws. z \<in> set as \<or> vmareas s1 z = None"
    using Cons.IH [OF s1(2) ok1(1) _ m1, of "xs @ zs"] by auto
  have "vmareas s' z = vmareas s1 z" if "z \<in> set zs" for z
    using that ws(4) zs'(3) known a(2) areas_ok_member [OF zs'(1) that] by (metis option.distinct(1))
  then have z: "areas_ok (vmareas s') mp (vma_start v) (vma_end v) zs" "view (vmareas s') zs = cut lo hi (covers v)"
    using zs'(1,2) areas_ok_cong [of zs "vmareas s'" "vmareas s1"] view_cong [of zs "vmareas s'" "vmareas s1"] by metis+
  have "relist s s' mp (xs @ (zs @ ws))" using relist_trans [OF zs(1) ws(1)] by simp
  moreover have "areas_ok (vmareas s') mp l h (zs @ ws)"
    using areas_ok_append [OF areas_ok_mono [OF z(1) v(2) order_refl] ws(2)] v by auto
  moreover have "view (vmareas s') (zs @ ws) = cut lo hi (view (vmareas s) (a # as))"
    by (auto simp: view_append z(2) ws(3) ok1(2) covers_Cons [of "vmareas s", OF v(1)] cut_def fun_eq_iff
        split: option.split simp del: view.simps)
  moreover have "\<forall>x. x \<notin> set (a # as) \<longrightarrow> vmareas s x \<noteq> None \<longrightarrow> vmareas s' x = vmareas s x" using ws(4) same by simp
  moreover have "\<forall>z \<in> set (zs @ ws). z \<in> set (a # as) \<or> vmareas s z = None" using zs'(3) ws(5) same by fastforce
  ultimately show ?case by blast
qed

text \<open>
  \<open>respaced\<close> relates the states before and after a change of the address space \<open>mp\<close>: it is well-formed with
  the given pages, and neither other address spaces nor the areas of others change, those in \<open>B\<close> apart.
\<close>

definition respaced :: "mconf \<Rightarrow> ptr \<Rightarrow> ptr set \<Rightarrow> (u32 \<Rightarrow> (u32 \<times> u32 \<times> u32) option) \<Rightarrow> 'a vm_st_scheme \<Rightarrow> 'a vm_st_scheme \<Rightarrow> bool" where
  "respaced C mp B f s s' \<longleftrightarrow> map_ok C s' mp \<and> pages s' mp = f \<and> procs s' = procs s \<and> curproc s' = curproc s
     \<and> (\<forall>mp'. mp' \<noteq> mp \<longrightarrow> vmmaps s' mp' = vmmaps s mp')
     \<and> (\<forall>x v. x \<notin> B \<longrightarrow> vmareas s x = Some v \<longrightarrow> vma_vmmap v \<noteq> Some mp \<longrightarrow> vmareas s' x = Some v)"

definition others_kept :: "mconf \<Rightarrow> ptr \<Rightarrow> 'a vm_st_scheme \<Rightarrow> 'a vm_st_scheme \<Rightarrow> bool" where
  "others_kept C mp s s' \<longleftrightarrow> (\<forall>mp'. mp' \<noteq> mp \<longrightarrow> map_ok C s mp' \<longrightarrow> map_ok C s' mp' \<and> pages s' mp' = pages s mp')"

lemma respaced_others:
  assumes r: "respaced C mp B f s s'" and B: "\<forall>a \<in> B. vmareas s a = None"
  shows "others_kept C mp s s'"
proof -
  have "map_ok C s' mp' \<and> pages s' mp' = pages s mp'" if ne: "mp' \<noteq> mp" and ok: "map_ok C s mp'" for mp'
  proof -
    obtain m where m: "vmmaps s mp' = Some m" "areas_ok (vmareas s) mp' (user_lo C) (user_hi C) (vmm_list m)"
      using ok by (rule map_okE)
    have "vmareas s' x = vmareas s x" if x: "x \<in> set (vmm_list m)" for x
    proof -
      obtain v where "vmareas s x = Some v" "vma_vmmap v = Some mp'" using areas_ok_member [OF m(2) x] by blast
      moreover from this B have "x \<notin> B" by auto
      ultimately show ?thesis using r ne by (simp add: respaced_def)
    qed
    then have "areas_ok (vmareas s') mp' (user_lo C) (user_hi C) (vmm_list m)" "view (vmareas s') (vmm_list m) = view (vmareas s) (vmm_list m)"
      using m(2) areas_ok_cong [of "vmm_list m" "vmareas s'" "vmareas s"] view_cong [of "vmm_list m" "vmareas s'" "vmareas s"] by metis+
    moreover have "vmmaps s' mp' = Some m" using r ne m(1) by (simp add: respaced_def)
    ultimately show ?thesis using m(1) by (simp add: map_ok_def pages_eq)
  qed
  then show ?thesis by (simp add: others_kept_def)
qed

lemma respaced_trans: "respaced C mp B f s s1 \<Longrightarrow> respaced C mp B g s1 s2 \<Longrightarrow> respaced C mp B g s s2"
  by (simp add: respaced_def)

lemma respaced_mono: "respaced C mp B f s s' \<Longrightarrow> B \<subseteq> B' \<Longrightarrow> respaced C mp B' f s s'"
  by (auto simp: respaced_def)

lemma same_space_pages:
  assumes "same_space s s'"
  shows "map_ok C s' mp = map_ok C s mp" "pages s' mp = pages s mp"
proof -
  have e: "vmareas s' = vmareas s" "vmmaps s' = vmmaps s" using assms by (simp_all add: same_space_def)
  show "map_ok C s' mp = map_ok C s mp" "pages s' mp = pages s mp" unfolding map_ok_def pages_def [abs_def] e by simp_all
qed

lemma respaced_same_space: "respaced C mp B f s s1 \<Longrightarrow> same_space s1 s2 \<Longrightarrow> respaced C mp B f s s2"
  using same_space_pages [of s1 s2] by (simp add: respaced_def same_space_def)

lemma remove_from_areas_respaced:
  assumes "table_frame T" "slab_fresh X" "lo < hi" "user_lo C \<le> user_hi C" and ok: "map_ok C s mp"
    and run: "vmmaps s mp = Some m" "remove_from_areas X T mp lo hi (vmm_list m) s = Some s'"
  shows "respaced C mp {} (cut lo hi (pages s mp)) s s'"
proof -
  have aok: "areas_ok (vmareas s) mp (user_lo C) (user_hi C) (vmm_list m)" using ok run(1) by (simp add: map_ok_def)
  obtain zs where zs: "relist s s' mp zs" "areas_ok (vmareas s') mp (user_lo C) (user_hi C) zs"
    "view (vmareas s') zs = cut lo hi (view (vmareas s) (vmm_list m))"
    "\<forall>x. x \<notin> set (vmm_list m) \<longrightarrow> vmareas s x \<noteq> None \<longrightarrow> vmareas s' x = vmareas s x"
    using remove_from_areas_view [OF assms(1-3) run(2) aok assms(4) run(1), of "[]"] areas_ok_distinct [OF aok] by auto
  have "vmareas s' x = Some v" if "vmareas s x = Some v" "vma_vmmap v \<noteq> Some mp" for x v
    using that zs(4) areas_ok_member [OF aok, of x] by (metis option.distinct(1) option.inject)
  moreover have "map_ok C s' mp" "pages s' mp = cut lo hi (pages s mp)"
    using zs run(1) by (auto simp: relist_def map_ok_def pages_eq)
  ultimately show ?thesis using zs(1) by (auto simp: respaced_def relist_def)
qed

lemma vmmap_remove_respaced:
  assumes "table_frame T" "ext_frame X" "slab_fresh X" "lo < lo + n" "user_lo C \<le> user_hi C" "map_ok C s mp"
    and run: "vmmap_remove C X T mp lo n s = Some (r, s')"
  shows "r = 0 \<and> respaced C mp {} (cut lo (lo + n) (pages s mp)) s s'"
proof -
  obtain m s1 pd where s1: "vmmaps s mp = Some m" "remove_from_areas X T mp lo (lo + n) (vmm_list m) s = Some s1" "r = 0"
    and s': "s' = pt_unmap_range X pd (PN_TO_ADDR C lo) (PN_TO_ADDR C (lo + n)) s1"
    using run by (auto simp: vmmap_remove_def bind_eq_Some_conv Let_def)
  have "same_space s1 s'" unfolding s' by (rule ext_frameD(9) [OF assms(2) same_space_refl])
  with remove_from_areas_respaced [OF assms(1,3,4,5,6) s1(1,2)] s1(3) show ?thesis by (simp add: respaced_same_space)
qed

subsection \<open>Inserting an area\<close>

lemma insert_area_view:
  assumes "areas_ok A mp l h as" and v: "A a = Some v" "l \<le> vma_start v" "vma_start v < vma_end v" "vma_end v \<le> h" "vma_vmmap v = Some mp"
    and free: "\<And>p. in_area v p \<Longrightarrow> view A as p = None"
  shows "\<exists>zs. insert_area A a (vma_start v) as = Some zs \<and> areas_ok A mp l h zs
     \<and> view A zs = (\<lambda>p. if in_area v p then Some (area_info v p) else view A as p)"
  using assms(1) v(2) free
proof (induction as arbitrary: l)
  case Nil
  then show ?case using v by (auto simp: fun_eq_iff)
next
  case (Cons b as)
  from Cons.prems(1) obtain w where w: "A b = Some w" "l \<le> vma_start w" "vma_start w < vma_end w" "vma_end w \<le> h"
    "vma_vmmap w = Some mp" "areas_ok A mp (vma_end w) h as" unfolding areas_ok_Cons by blast
  have dis: "\<not> in_area w p" if "in_area v p" for p using Cons.prems(3) [OF that] w(1) by (auto split: if_splits)
  show ?case
  proof (cases "vma_start v \<le> vma_start w")
    case True
    then have "vma_end v \<le> vma_start w" using dis [of "vma_start w"] w(3) unfolding in_area_def by (metis not_le order_refl)
    with True v w show ?thesis using Cons.prems(2) by (auto simp: fun_eq_iff)
  next
    case False
    then have "vma_end w \<le> vma_start v" using dis [of "vma_start v"] v(3) unfolding in_area_def by (metis not_le order_refl order.strict_implies_order)
    moreover have "view A as p = None" if "in_area v p" for p using Cons.prems(3) [OF that] w(1) dis [OF that] by simp
    ultimately obtain zs where "insert_area A a (vma_start v) as = Some zs" "areas_ok A mp (vma_end w) h zs"
      "view A zs = (\<lambda>p. if in_area v p then Some (area_info v p) else view A as p)" using Cons.IH [OF w(6)] by blast
    with False w dis show ?thesis by (auto simp: fun_eq_iff)
  qed
qed

definition overlay :: "vmarea \<Rightarrow> (u32 \<Rightarrow> (u32 \<times> u32 \<times> u32) option) \<Rightarrow> u32 \<Rightarrow> (u32 \<times> u32 \<times> u32) option" where
  "overlay v f p = (if in_area v p then Some (area_info v p) else f p)"

lemma vmmap_insert_respaced:
  assumes ok: "map_ok C s mp" and v: "vmareas s a = Some v" "vma_vmmap v = None" "vma_start v < vma_end v"
      "user_lo C \<le> vma_start v" "vma_end v \<le> user_hi C"
    and free: "\<And>p. in_area v p \<Longrightarrow> pages s mp p = None"
  shows "\<exists>s'. vmmap_insert C mp a s = Some s' \<and> respaced C mp {a} (overlay v (pages s mp)) s s'"
proof -
  obtain m where m: "vmmaps s mp = Some m" "areas_ok (vmareas s) mp (user_lo C) (user_hi C) (vmm_list m)"
    "pages s mp = view (vmareas s) (vmm_list m)" using ok by (rule map_okE)
  let ?v = "v\<lparr>vma_vmmap := Some mp\<rparr>"
  let ?A = "(vmareas s)(a \<mapsto> ?v)"
  have "vmareas s x = ?A x" if "x \<in> set (vmm_list m)" for x
    using areas_ok_member [OF m(2) that] v(1,2) by (metis fun_upd_other option.distinct(1) option.inject)
  then have old: "areas_ok ?A mp (user_lo C) (user_hi C) (vmm_list m)" "view ?A (vmm_list m) = pages s mp"
    using m areas_ok_cong [of "vmm_list m" "vmareas s" ?A] view_cong [of "vmm_list m" "vmareas s" ?A] by metis+
  have new: "in_area ?v = in_area v" "area_info ?v = area_info v" by (simp_all add: fun_eq_iff in_area_def area_info_def)
  obtain zs where zs: "insert_area ?A a (vma_start v) (vmm_list m) = Some zs" "areas_ok ?A mp (user_lo C) (user_hi C) zs"
    "view ?A zs = overlay v (pages s mp)"
    using insert_area_view [OF old(1), of a ?v] v free unfolding new old(2) overlay_def by auto
  let ?s = "s\<lparr>vmareas := ?A, vmmaps := (vmmaps s)(mp \<mapsto> m\<lparr>vmm_list := zs\<rparr>)\<rparr>"
  have "vmmap_insert C mp a s = Some ?s"
    using v m(1) zs(1) by (simp add: vmmap_insert_def vma_upd_def map_upd_def user_lo_def user_hi_def)
  moreover have "respaced C mp {a} (overlay v (pages s mp)) s ?s"
    using zs by (simp add: respaced_def map_ok_def pages_eq [where m = "m\<lparr>vmm_list := zs\<rparr>"])
  ultimately show ?thesis by blast
qed

subsection \<open>Adding a mapping\<close>

lemma keep_vn_mmap: "ext_frame X \<Longrightarrow> same_space s0 s \<Longrightarrow> keepP s0 (vn_mmap E X f a s)"
  unfolding vn_mmap_def special_file_mmap_def
  by (rule keepP_pure) (auto intro!: keep_ret keep_if keepP_pure ext_frameD(10,11) split: vnode_ops.split)

lemma space_map_object:
  assumes "map_object E X vn a s = Some (obj, s')" "ext_frame X"
  shows "same_space s s'"
  using assms keepPD [OF keep_vn_mmap [OF assms(2) same_space_refl]] space_anon_create
  by (fastforce simp: map_object_def bind_eq_Some_conv split: option.split_asm)

lemma attach_obj_space:
  assumes run: "attach_obj C X flags a obj s = Some s'" and v: "vmareas s a = Some v"
  obtains ob where "same_space (s\<lparr>vmareas := (vmareas s)(a \<mapsto> v\<lparr>vma_obj := ob\<rparr>)\<rparr>) s'"
proof (cases "flags AND MAP_PRIVATE C = 0")
  case True
  with run obtain s2 ob where s2: "vma_upd a (\<lambda>w. w\<lparr>vma_obj := obj\<rparr>) s = Some s2" and s': "add_vma (\<lambda>vs. a # vs) ob s2 = Some s'"
    by (auto simp: attach_obj_def bind_eq_Some_conv)
  from vma_updD [OF s2] space_add_vma [OF s'] v show ?thesis by (intro that [of obj]) (auto simp: same_space_def)
next
  case False
  with run obtain s2 s3 s4 s5 sh nb where
    s2: "shadow_create X s = Some (sh, s2)" and s3: "obj_upd sh (\<lambda>m. m\<lparr>mmo_shadowed := obj\<rparr>) s2 = Some s3"
    and s4: "vma_upd a (\<lambda>w. w\<lparr>vma_obj := Some sh\<rparr>) s3 = Some s4"
    and s5: "obj_upd sh (\<lambda>m. m\<lparr>mmo_un := Mmo_bottom_obj obj\<rparr>) s4 = Some s5"
    and s': "add_vma (\<lambda>vs. a # vs) nb s5 = Some s'" by (auto simp: attach_obj_def bind_eq_Some_conv)
  from space_shadow_create [OF s2] space_obj_upd [OF s3] vma_updD [OF s4] space_obj_upd [OF s5] space_add_vma [OF s'] v
  show ?thesis by (intro that [of "Some sh"]) (auto simp: same_space_def)
qed

lemma respaced_unlisted:
  assumes ok: "map_ok C s mp" and v: "\<And>v. vmareas s a = Some v \<Longrightarrow> vma_vmmap v = None"
  shows "respaced C mp {a} (pages s mp) s (s\<lparr>vmareas := (vmareas s)(a \<mapsto> w)\<rparr>)"
proof -
  obtain m where m: "vmmaps s mp = Some m" "areas_ok (vmareas s) mp (user_lo C) (user_hi C) (vmm_list m)"
    "pages s mp = view (vmareas s) (vmm_list m)" using ok by (rule map_okE)
  let ?A = "(vmareas s)(a \<mapsto> w)"
  have "vmareas s x = ?A x" if "x \<in> set (vmm_list m)" for x
    using areas_ok_member [OF m(2) that] v by (metis fun_upd_other option.distinct(1))
  then have "areas_ok ?A mp (user_lo C) (user_hi C) (vmm_list m)" "view ?A (vmm_list m) = pages s mp"
    using m areas_ok_cong [of "vmm_list m" "vmareas s" ?A] view_cong [of "vmm_list m" "vmareas s" ?A] by metis+
  with m(1) show ?thesis by (simp add: respaced_def map_ok_def pages_eq [where m = m])
qed

lemma cut_free: "(\<And>p. lo \<le> p \<Longrightarrow> p < hi \<Longrightarrow> f p = None) \<Longrightarrow> cut lo hi f = f"
  by (auto simp: cut_def fun_eq_iff)

lemma respaced_refl: "map_ok C s mp \<Longrightarrow> respaced C mp B (pages s mp) s s"
  by (simp add: respaced_def)

lemma is_range_empty_view:
  assumes "map_ok C s mp"
  shows "vmmap_is_range_empty C mp lo n s = (if lo < lo + n \<and> user_lo C \<le> lo \<and> lo + n \<le> user_hi C
     then Some (if \<forall>p. lo \<le> p \<longrightarrow> p < lo + n \<longrightarrow> pages s mp p = None then 1 else 0) else None)"
proof -
  obtain m where "vmmaps s mp = Some m" "areas_ok (vmareas s) mp (user_lo C) (user_hi C) (vmm_list m)"
    "pages s mp = view (vmareas s) (vmm_list m)" using assms by (rule map_okE)
  then show ?thesis using range_empty_view [of "vmareas s" mp "user_lo C" "user_hi C" "vmm_list m" lo "lo + n"]
    by (simp add: vmmap_is_range_empty_def user_lo_def user_hi_def Let_def)
qed

lemma map_place_fixed:
  assumes "table_frame T" "ext_frame X" "slab_fresh X" "user_lo C \<le> user_hi C" and ok: "map_ok C s mp"
    and run: "map_place C X T mp lo n dir s = Some (found, s')" and "lo \<noteq> 0"
  shows "found = Some lo \<and> lo < lo + n \<and> user_lo C \<le> lo \<and> lo + n \<le> user_hi C \<and> respaced C mp {} (cut lo (lo + n) (pages s mp)) s s'"
proof -
  from run \<open>lo \<noteq> 0\<close> obtain res where res: "vmmap_is_range_empty C mp lo n s = Some res" "found = Some lo"
    and s': "(if res = 0 then do { (_, s) \<leftarrow> vmmap_remove C X T mp lo n s; Some s } else Some s) = Some s'"
    by (auto simp: map_place_def bind_eq_Some_conv)
  from res(1) have b: "lo < lo + n" "user_lo C \<le> lo" "lo + n \<le> user_hi C"
    and e: "res = (if \<forall>p. lo \<le> p \<longrightarrow> p < lo + n \<longrightarrow> pages s mp p = None then 1 else 0)"
    unfolding is_range_empty_view [OF ok] by (auto split: if_split_asm)
  have "respaced C mp {} (cut lo (lo + n) (pages s mp)) s s'"
  proof (cases "res = 0")
    case True
    with s' obtain r where "vmmap_remove C X T mp lo n s = Some (r, s')" by (auto simp: bind_eq_Some_conv)
    with vmmap_remove_respaced [OF assms(1-3) b(1) assms(4) ok] show ?thesis by blast
  next
    case False
    with s' have "s' = s" by simp
    moreover have "cut lo (lo + n) (pages s mp) = pages s mp" using False e by (intro cut_free) (simp split: if_split_asm)
    ultimately show ?thesis using respaced_refl [OF ok] by simp
  qed
  with res(2) b show ?thesis by simp
qed

lemma map_place_found:
  assumes ok: "map_ok C s mp" and m: "vmmaps s mp = Some m" "vmm_list m \<noteq> []" and hi: "unat (user_hi C) < 2 ^ 31"
    and run: "map_place C X T mp 0 n (VMMAP_DIR_HILO C) s = Some (found, s')"
  shows "s' = s \<and> (case found of None \<Rightarrow> \<forall>x. \<not> free_at C s mp n x
     | Some x \<Rightarrow> free_at C s mp n x \<and> (\<forall>y. free_at C s mp n y \<longrightarrow> y \<le> x))"
proof -
  obtain r where r: "vmmap_find_range C mp n (VMMAP_DIR_HILO C) s = Some r" and
    "(\<exists>x. r = int (unat x) \<and> free_at C s mp n x \<and> (\<forall>y. free_at C s mp n y \<longrightarrow> y \<le> x)) \<or> r = - 1 \<and> (\<forall>x. \<not> free_at C s mp n x)"
    using vmmap_find_range_hilo [OF ok m(1) hi m(2)] by blast
  moreover have "uint x \<noteq> - 1" for x :: u32 using uint_ge_0 [of x] by linarith
  ultimately show ?thesis using run by (auto simp: map_place_def)
qed

lemma free_at_range:
  assumes "free_at C s mp n x" "0 < n"
  shows "x < x + n" "user_lo C \<le> x" "x + n \<le> user_hi C" "cut x (x + n) (pages s mp) = pages s mp"
proof -
  have u: "unat (x + n) = unat x + unat n"
    using assms(1) unsigned_less [of "user_hi C", where 'a = nat] by (intro unat_add_lem [THEN iffD1]) (simp add: free_at_def)
  show "x < x + n" "user_lo C \<le> x" "x + n \<le> user_hi C"
    using assms u by (auto simp: free_at_def word_le_nat_alt word_less_nat_alt)
  show "cut x (x + n) (pages s mp) = pages s mp"
    using assms(1) u by (intro cut_free) (simp add: free_at_def word_less_nat_alt)
qed

definition mapping :: "u32 \<Rightarrow> u32 \<Rightarrow> u32 \<Rightarrow> u32 \<Rightarrow> u32 \<Rightarrow> (u32 \<Rightarrow> (u32 \<times> u32 \<times> u32) option) \<Rightarrow> u32 \<Rightarrow> (u32 \<times> u32 \<times> u32) option" where
  "mapping x n prot flags pg f p = (if x \<le> p \<and> p < x + n then Some (prot, flags, p - x + pg) else f p)"

lemma new_area_respaced:
  assumes X: "ext_frame X" and ok: "map_ok C s mp" and a: "vmareas s a = Some w" "vma_vmmap w = None"
    and x: "x < x + n" "user_lo C \<le> x" "x + n \<le> user_hi C" "\<And>p. x \<le> p \<Longrightarrow> p < x + n \<Longrightarrow> pages s mp p = None"
    and s1: "vma_upd a (\<lambda>w. w\<lparr>vma_off := pg, vma_start := x, vma_end := x + n, vma_obj := None, vma_prot := prot,
        vma_flags := flags\<rparr>) s = Some s1"
    and s2: "map_object E X vn a s1 = Some (obj, s2)" and s3: "attach_obj C X flags a obj s2 = Some s3"
    and s4: "vmmap_insert C mp a s3 = Some s4"
  shows "respaced C mp {a} (mapping x n prot flags pg (pages s mp)) s s4"
proof -
  define v where "v = w\<lparr>vma_off := pg, vma_start := x, vma_end := x + n, vma_obj := None, vma_prot := prot, vma_flags := flags\<rparr>"
  have s1': "s1 = s\<lparr>vmareas := (vmareas s)(a \<mapsto> v)\<rparr>" using vma_updD [OF s1] a(1) by (auto simp: v_def)
  have r1: "respaced C mp {a} (pages s mp) s s1" unfolding s1' by (rule respaced_unlisted [OF ok]) (simp add: a)
  have r2: "respaced C mp {a} (pages s mp) s s2" by (rule respaced_same_space [OF r1 space_map_object [OF s2 X]])
  have v2: "vmareas s2 a = Some v" using space_map_object [OF s2 X] by (simp add: same_space_def s1')
  obtain ob where sp: "same_space (s2\<lparr>vmareas := (vmareas s2)(a \<mapsto> v\<lparr>vma_obj := ob\<rparr>)\<rparr>) s3"
    using attach_obj_space [OF s3 v2] by blast
  have ok2: "map_ok C s2 mp" "pages s2 mp = pages s mp" using r2 by (simp_all add: respaced_def)
  have "respaced C mp {a} (pages s2 mp) s2 s3"
    by (rule respaced_same_space [OF respaced_unlisted [OF ok2(1)] sp]) (use a(2) v2 in \<open>simp add: v_def\<close>)
  then have r3: "respaced C mp {a} (pages s mp) s s3" using respaced_trans [OF r2] ok2(2) by simp
  then have p3: "pages s3 mp = pages s mp" "map_ok C s3 mp" by (simp_all add: respaced_def)
  let ?v = "v\<lparr>vma_obj := ob\<rparr>"
  have "vmareas s3 a = Some ?v" using sp by (simp add: same_space_def)
  then have "respaced C mp {a} (overlay ?v (pages s mp)) s3 s4"
    using vmmap_insert_respaced [OF p3(2), of a ?v] s4 x a(2) unfolding p3(1) by (auto simp: v_def in_area_def)
  moreover have "overlay ?v (pages s mp) = mapping x n prot flags pg (pages s mp)"
    by (simp add: fun_eq_iff overlay_def mapping_def in_area_def area_info_def v_def)
  ultimately show ?thesis using respaced_trans [OF r3] by simp
qed

lemma vmmap_mapE:
  assumes run: "vmmap_map E C X T mp vn lo n prot flags off dir s = Some ((r, new), s')"
  obtains (full) area s1 where "vmarea_alloc X s = (area, s1)" "map_place C X T mp lo n dir s1 = Some (None, s')" "r = - 1" "new = None" "0 < n"
  | (mapped) a s1 x s2 s3 obj s4 s5 where "vmarea_alloc X s = (Some a, s1)" "map_place C X T mp lo n dir s1 = Some (Some x, s2)"
      "vma_upd a (\<lambda>w. w\<lparr>vma_off := ADDR_TO_PN C off, vma_start := x, vma_end := x + n, vma_obj := None, vma_prot := prot,
        vma_flags := flags\<rparr>) s2 = Some s3" "map_object E X vn a s3 = Some (obj, s4)" "attach_obj C X flags a obj s4 = Some s5"
      "vmmap_insert C mp a s5 = Some s'" "r = 0" "new = Some a" "0 < n"
proof -
  obtain area s1 where s1: "vmarea_alloc X s = (area, s1)" by (cases "vmarea_alloc X s")
  from run have n: "0 < n" by (auto simp: vmmap_map_def split: if_split_asm)
  from run obtain found s2 where s2: "map_place C X T mp lo n dir s1 = Some (found, s2)"
    by (auto simp: vmmap_map_def s1 bind_eq_Some_conv split: if_split_asm)
  show thesis
  proof (cases found)
    case None
    with run s2 show ?thesis by (intro full [OF s1 _ _ _ n]) (auto simp: vmmap_map_def s1 split: if_split_asm)
  next
    case (Some x)
    from run s2 obtain a s3 obj s4 s5 where "area = Some a" and r: "vma_upd a (\<lambda>w. w\<lparr>vma_off := ADDR_TO_PN C off, vma_start := x,
        vma_end := x + n, vma_obj := None, vma_prot := prot, vma_flags := flags\<rparr>) s2 = Some s3"
      "map_object E X vn a s3 = Some (obj, s4)" "attach_obj C X flags a obj s4 = Some s5" "vmmap_insert C mp a s5 = Some s'"
      "r = 0" "new = Some a"
      by (auto simp: vmmap_map_def s1 Some bind_eq_Some_conv split: if_split_asm)
    with s1 s2 Some n show ?thesis by (intro mapped [OF _ _ r n]) auto
  qed
qed

lemma respaced_pages: "respaced C mp B f s s' \<Longrightarrow> pages s' mp = f" "respaced C mp B f s s' \<Longrightarrow> map_ok C s' mp"
  by (simp_all add: respaced_def)

lemma free_at_cong: "pages s mp = pages s' mp \<Longrightarrow> free_at C s mp = free_at C s' mp"
  by (simp add: free_at_def fun_eq_iff)

lemma mapping_cut: "mapping x n prot flags pg (cut x (x + n) f) = mapping x n prot flags pg f"
  by (simp add: mapping_def cut_def fun_eq_iff)

text \<open>Where \<^verbatim>\<open>vmmap_map\<close> puts a mapping: where it is told to, or as high as it fits.\<close>

definition place :: "mconf \<Rightarrow> 'a vm_st_scheme \<Rightarrow> ptr \<Rightarrow> u32 \<Rightarrow> u32 \<Rightarrow> u32 \<Rightarrow> bool" where
  "place C s mp lo n x \<longleftrightarrow> (if lo = 0 then free_at C s mp n x \<and> (\<forall>y. free_at C s mp n y \<longrightarrow> y \<le> x) else x = lo)"

lemma map_place_run:
  assumes fr: "table_frame T" "ext_frame X" "slab_fresh X" and hi: "user_lo C \<le> user_hi C" "unat (user_hi C) < 2 ^ 31"
    and ok: "map_ok C s mp" and ne: "lo = 0 \<Longrightarrow> \<exists>p. pages s mp p \<noteq> None" and "0 < n"
    and run: "map_place C X T mp lo n (VMMAP_DIR_HILO C) s = Some (found, s')"
  shows "case found of None \<Rightarrow> lo = 0 \<and> (\<forall>x. \<not> free_at C s mp n x) \<and> s' = s
    | Some x \<Rightarrow> place C s mp lo n x \<and> x < x + n \<and> user_lo C \<le> x \<and> x + n \<le> user_hi C
        \<and> respaced C mp {} (cut x (x + n) (pages s mp)) s s'"
proof (cases "lo = 0")
  case False
  with map_place_fixed [OF fr hi(1) ok run] show ?thesis by (simp add: place_def)
next
  case True
  obtain m where m: "vmmaps s mp = Some m" "pages s mp = view (vmareas s) (vmm_list m)" using ok by (rule map_okE)
  with ne [OF True] have "vmm_list m \<noteq> []" by auto
  from map_place_found [OF ok m(1) this hi(2) run [unfolded True]] show ?thesis
    using True free_at_range [OF _ \<open>0 < n\<close>, of C s mp] respaced_refl [OF ok]
    by (auto simp: place_def split: option.splits)
qed

lemma vmarea_alloc_fresh:
  assumes "vmarea_alloc X s = (Some a, s1)" "slab_fresh X"
  shows "\<exists>w. vmareas s a = None \<and> vma_vmmap w = None \<and> s1 = s\<lparr>vmareas := (vmareas s)(a \<mapsto> w)\<rparr>"
proof -
  obtain w where "slab_vmarea X s = Some (a, w)" and s1: "s1 = s\<lparr>vmareas := (vmareas s)(a \<mapsto> w\<lparr>vma_vmmap := None\<rparr>)\<rparr>"
    using assms(1) unfolding vmarea_alloc_def by (fastforce split: option.split_asm)
  with assms(2) have "vmareas s a = None" by (simp add: slab_fresh_def)
  then show ?thesis using s1 by (intro exI [of _ "w\<lparr>vma_vmmap := None\<rparr>"] conjI) simp_all
qed

lemma vmarea_alloc_none: "vmarea_alloc X s = (None, s1) \<Longrightarrow> s1 = s"
  unfolding vmarea_alloc_def by (auto split: option.split_asm)

lemma vmmap_map_run:
  assumes fr: "table_frame T" "ext_frame X" "slab_fresh X" and hi: "user_lo C \<le> user_hi C" "unat (user_hi C) < 2 ^ 31"
    and ok: "map_ok C s mp" and ne: "lo = 0 \<Longrightarrow> \<exists>p. pages s mp p \<noteq> None"
    and run: "vmmap_map E C X T mp vn lo n prot flags off (VMMAP_DIR_HILO C) s = Some ((r, new), s')"
  shows "(\<exists>x a. r = 0 \<and> new = Some a \<and> vmareas s a = None \<and> place C s mp lo n x
       \<and> respaced C mp {a} (mapping x n prot flags (ADDR_TO_PN C off) (pages s mp)) s s')
    \<or> r = - 1 \<and> new = None \<and> lo = 0 \<and> (\<forall>x. \<not> free_at C s mp n x) \<and> pages s' mp = pages s mp"
  using run
proof (cases rule: vmmap_mapE)
  case (full area s1)
  have "pages s1 mp = pages s mp \<and> map_ok C s1 mp"
  proof (cases area)
    case None
    with vmarea_alloc_none full(1) ok show ?thesis by blast
  next
    case (Some a)
    with vmarea_alloc_fresh full(1) fr(3) obtain w where "vmareas s a = None" and s1: "s1 = s\<lparr>vmareas := (vmareas s)(a \<mapsto> w)\<rparr>" by blast
    with respaced_pages [OF respaced_unlisted [OF ok, of a w]] show ?thesis unfolding s1 by simp
  qed
  then have p1: "pages s1 mp = pages s mp" "map_ok C s1 mp" by simp_all
  have "lo = 0 \<and> (\<forall>x. \<not> free_at C s1 mp n x) \<and> s' = s1"
    using map_place_run [OF fr hi p1(2) _ full(5,2)] ne unfolding p1(1) by simp
  then show ?thesis using full(3,4) p1(1) unfolding free_at_cong [OF p1(1)] by blast
next
  case (mapped a s1 x s2 s3 obj s4 s5)
  from mapped(1) fr(3) obtain w where a: "vmareas s a = None" and s1: "s1 = s\<lparr>vmareas := (vmareas s)(a \<mapsto> w)\<rparr>" and w: "vma_vmmap w = None"
    using vmarea_alloc_fresh by blast
  have r1: "respaced C mp {a} (pages s mp) s s1" unfolding s1 by (rule respaced_unlisted [OF ok]) (simp add: a)
  note p1 = respaced_pages [OF r1]
  have "place C s1 mp lo n x" and x: "x < x + n" "user_lo C \<le> x" "x + n \<le> user_hi C"
    and r2: "respaced C mp {} (cut x (x + n) (pages s mp)) s1 s2"
    using map_place_run [OF fr hi p1(2) _ mapped(9,2)] ne unfolding p1(1) by simp_all
  then have pl: "place C s mp lo n x" unfolding place_def free_at_cong [OF p1(1)] by blast
  note p2 = respaced_pages [OF r2]
  have "vmareas s2 a = Some w" using r2 w by (simp add: respaced_def s1)
  from new_area_respaced [OF fr(2) p2(2) this w x _ mapped(3-6)]
  have "respaced C mp {a} (mapping x n prot flags (ADDR_TO_PN C off) (pages s mp)) s2 s'"
    unfolding p2(1) mapping_cut by (simp add: cut_def)
  with respaced_trans [OF r1 respaced_trans [OF respaced_mono [OF r2]]]
  have "respaced C mp {a} (mapping x n prot flags (ADDR_TO_PN C off) (pages s mp)) s s'" by simp
  with a pl mapped(7,8) show ?thesis by blast
qed

definition user_conf :: "mconf \<Rightarrow> bool" where
  "user_conf C \<longleftrightarrow> user_lo C \<le> user_hi C \<and> unat (user_hi C) < 2 ^ 31"

end
