(* ===== verification/Vm_Demo.thy ===== *)
theory Vm_Demo
  imports Vm_Maps
begin

section \<open>An example of virtual memory\<close>

text \<open>
  One instance of the code outside the repository, and a state in which the statements about virtual
  memory are evaluated. Pages have four bytes, and user memory has the pages 4 to 255. The current
  process has two areas: a private one, whose shadow object 61 lies above the anonymous object 60, and
  a shared one with the anonymous object 62.
\<close>

definition demo_mconf :: mconf where
  "demo_mconf = \<lparr>PAGE_SHIFT = 2, PF_HASH_SIZE = 3, USER_MEM_LOW = 16, USER_MEM_HIGH = 1024, PROT_READ = 1, PROT_WRITE = 2,
     PROT_EXEC = 4, MAP_SHARED = 1, MAP_PRIVATE = 2, MAP_FIXED = 4, MAP_ANON = 8, FAULT_WRITE = 2, FAULT_EXEC = 4,
     PD_PRESENT = 1, PD_USER = 2, PD_WRITE = 4, PT_PRESENT = 1, PT_USER = 2, PT_WRITE = 4, VMMAP_DIR_HILO = 1, VMMAP_DIR_LOHI = 2\<rparr>"

definition demo_area :: vmarea where
  "demo_area = \<lparr>vma_start = 0, vma_end = 0, vma_off = 0, vma_prot = 0, vma_flags = 0, vma_vmmap = None, vma_obj = None\<rparr>"

definition demo_obj :: "mmobj_ops \<Rightarrow> mmobj" where
  "demo_obj ops = \<lparr>mmo_ops = ops, mmo_refcount = 0, mmo_nrespages = 0, mmo_respages = [],
     mmo_un = (if ops = Shadow_mmobj_ops then Mmo_bottom_obj None else Mmo_vmas []), mmo_shadowed = None\<rparr>"

definition demo_bottom :: "ptr \<Rightarrow> 'a vm_st_scheme \<Rightarrow> ptr option" where
  "demo_bottom ob s = do {
     m \<leftarrow> mmobjs s ob;
     case mmo_shadowed m of None \<Rightarrow> Some ob | Some _ \<Rightarrow> (case mmo_un m of Mmo_bottom_obj b \<Rightarrow> b | Mmo_vmas _ \<Rightarrow> None)
   }"

definition free_from :: "(ptr \<Rightarrow> 'b option) \<Rightarrow> ptr \<Rightarrow> ptr option" where
  "free_from st lo = find (\<lambda>a. st a = None) [lo ..< lo + 10]"

definition demo_vm :: "'a vm_st_scheme vm_ext" where
  "demo_vm = \<lparr>mmobj_init = demo_obj, mmobj_bottom_obj = demo_bottom, vo_vref = \<lambda>_ s. Some s, vo_vput = \<lambda>_ s. Some s,
     vlookuppage = \<lambda>_ _ _ s. Some ((- 5, None), s), vreadpage = \<lambda>_ _ s. Some (0, s), vdirtypage = \<lambda>_ _ s. Some (0, s),
     vcleanpage = \<lambda>_ _ s. Some (0, s), vop_mmap = \<lambda>_ _ s. Some ((- 5, None), s), cd_mmap = \<lambda>_ _ _ s. Some ((- 5, None), s),
     cd_fillpage = \<lambda>_ _ _ _ s. Some (0, s), cd_dirtypage = \<lambda>_ _ _ s. Some (0, s), cd_cleanpage = \<lambda>_ _ _ _ s. Some (0, s),
     fref = \<lambda>f s. f_upd f (\<lambda>fl. fl\<lparr>f_refcount := f_refcount fl + 1\<rparr>) s, pt_virt_to_phys = \<lambda>a. a,
     pt_unmap = \<lambda>_ _ s. s, pt_unmap_range = \<lambda>_ _ _ s. s, pt_map = \<lambda>_ _ _ _ _ s. (0, s), vm_sleep = \<lambda>_ s. Some s,
     page_free_count = \<lambda>_. 8, slab_pframe = \<lambda>s. free_from (pframes s) 70, page_alloc = \<lambda>s. map_option (\<lambda>p. 1000 + p) (free_from (pframes s) 70),
     slab_anon = \<lambda>s. free_from (mmobjs s) 60, slab_shadow = \<lambda>s. free_from (mmobjs s) 60,
     slab_vmarea = \<lambda>s. map_option (\<lambda>a. (a, demo_area)) (free_from (vmareas s) 40), slab_vmmap = \<lambda>s. free_from (vmmaps s) 30\<rparr>"

definition vmdemo :: vm_st where
  "vmdemo = \<lparr>threads = [1 \<mapsto> thr0 10], queues = \<lambda>q. \<lparr>tq_list = [], tq_size = 0\<rparr>, curthr = Some 1, curproc = Some 10,
     ipl = IPL_LOW, km_holder = \<lambda>m. None, procs = [10 \<mapsto> demo_proc\<lparr>p_pagedir := Some 100, p_vmmap := Some 30\<rparr>],
     proc_list = [10], proc_initproc = Some 10, next_pid = 2, files = Map.empty, vnodes = Map.empty,
     vnode_inuse_list = [], vfs_root_vn = None, fs_root = Map.empty,
     pframes = [70 \<mapsto> \<lparr>pf_obj = Some 60, pf_pagenum = 1, pf_busy = False, pf_dirty = False, pf_pincount = 0, pf_addr = 1070,
                  pf_data = [1, 2, 3, 4]\<rparr>],
     npinned = 0, pinned_list = [], nallocated = 1, alloc_list = [70],
     pframe_hash = (\<lambda>h. [])(hash_page demo_mconf 60 1 := [70]), nfreepages_min = 0, nfreepages_target = 4,
     mmobjs = [60 \<mapsto> (demo_obj Anon_mmobj_ops)\<lparr>mmo_refcount := 2, mmo_nrespages := 1, mmo_respages := [70], mmo_un := Mmo_vmas [40]\<rparr>,
               61 \<mapsto> (demo_obj Shadow_mmobj_ops)\<lparr>mmo_refcount := 1, mmo_un := Mmo_bottom_obj (Some 60), mmo_shadowed := Some 60\<rparr>,
               62 \<mapsto> (demo_obj Anon_mmobj_ops)\<lparr>mmo_refcount := 1, mmo_un := Mmo_vmas [41]\<rparr>],
     vmareas = [40 \<mapsto> \<lparr>vma_start = 8, vma_end = 16, vma_off = 0, vma_prot = 3, vma_flags = 2, vma_vmmap = Some 30, vma_obj = Some 61\<rparr>,
                41 \<mapsto> \<lparr>vma_start = 20, vma_end = 24, vma_off = 0, vma_prot = 1, vma_flags = 1, vma_vmmap = Some 30, vma_obj = Some 62\<rparr>],
     vmmaps = [30 \<mapsto> \<lparr>vmm_list = [40, 41], vmm_proc = Some 10\<rparr>]\<rparr>"

abbreviation demo_ops :: "vm_st obj_ops" where
  "demo_ops \<equiv> obj_ops_n errno_std demo_mconf demo_vm 2"

lemma demo_ext_frame: "ext_frame demo_vm"
  by (simp add: ext_frame_def demo_vm_def keep_ret)

lemma free_from_None: "free_from st lo = Some a \<Longrightarrow> st a = None"
  by (auto simp: free_from_def find_Some_iff)

lemma demo_slab_fresh: "slab_fresh demo_vm"
  by (auto simp: slab_fresh_def demo_vm_def dest: free_from_None)

lemma demo_ops_frame: "table_frame demo_ops"
  by (rule table_frame_n [OF demo_ext_frame])

lemma demo_user: "user_lo demo_mconf = 4" "user_hi demo_mconf = 256"
  by (simp_all add: user_lo_def user_hi_def ADDR_TO_PN_def demo_mconf_def drop_bit_eq_div)

lemma vmdemo_map: "map_ok demo_mconf vmdemo 30"
  by (simp add: map_ok_def vmdemo_def demo_user)

lemma demo_conf_ok: "user_conf demo_mconf"
  by (simp add: user_conf_def demo_user)

end
