(* ===== verification/Vm_Props.thy ===== *)
theory Vm_Props
  imports Vm_Demo
begin

section \<open>Properties of address spaces\<close>

text \<open>
  The statements are about address spaces that are well-formed, whatever code outside the repository
  is called, as long as it leaves address spaces alone (\<open>ext_frame\<close>) and the slab allocator returns
  unused memory (\<open>slab_fresh\<close>). The operations of memory objects are those of the repository, with calls
  nested to any depth.
\<close>

text \<open>
  C3: vmmap_remove refines the abstract operation that forgets the mappings of a range of pages: every
  page in the range is unmapped, every other page keeps its protection, its flags and its page of the
  object (also when an area is split or its beginning moves), the areas stay sorted and disjoint, and
  other address spaces show what they showed before.
\<close>

theorem vmmap_remove_cuts:
  assumes "ext_frame X" "slab_fresh X" "user_conf C" "map_ok C s mp" "lo < lo + n"
    and "vmmap_remove C X (obj_ops_n E C X d) mp lo n s = Some (r, s')"
  shows "r = 0 \<and> map_ok C s' mp \<and> pages s' mp = cut lo (lo + n) (pages s mp) \<and> others_kept C mp s s'"
proof -
  have "user_lo C \<le> user_hi C" using assms(3) by (simp add: user_conf_def)
  from vmmap_remove_respaced [OF table_frame_n [OF assms(1)] assms(1,2,5) this assms(4,6)]
  have "r = 0" and sp: "respaced C mp {} (cut lo (lo + n) (pages s mp)) s s'" by simp_all
  then show ?thesis using respaced_pages [OF sp] respaced_others [OF sp] by simp
qed

theorem vmmap_remove_cuts_witness:
  "\<exists>s'. vmmap_remove demo_mconf demo_vm demo_ops 30 10 3 vmdemo = Some (0, s') \<and> map_ok demo_mconf s' 30 \<and>
     pages s' 30 = cut 10 13 (pages vmdemo 30) \<and> pages vmdemo 30 9 = Some (3, 2, 1)"
proof -
  have "case vmmap_remove demo_mconf demo_vm demo_ops 30 10 3 vmdemo of None \<Rightarrow> False | Some _ \<Rightarrow> True" by code_simp
  then obtain r s' where run: "vmmap_remove demo_mconf demo_vm demo_ops 30 10 3 vmdemo = Some (r, s')"
    by (auto split: option.split_asm)
  have "pages vmdemo 30 9 = Some (3, 2, 1)" by code_simp
  with vmmap_remove_cuts [OF demo_ext_frame demo_slab_fresh demo_conf_ok vmdemo_map _ run] run show ?thesis by auto
qed

text \<open>
  C9: vmmap_map refines the abstract operation that overwrites a range of pages with a new mapping. With a
  page given, the range starts there and whatever was mapped in it is gone; without one, it is the highest
  range that was free. All other pages and address spaces are as before. When nothing fits the result is
  -1 and the pages are unchanged.
\<close>

theorem vmmap_map_overlays:
  assumes "ext_frame X" "slab_fresh X" "user_conf C" "map_ok C s mp" "lo = 0 \<Longrightarrow> \<exists>p. pages s mp p \<noteq> None"
    and "vmmap_map E C X (obj_ops_n E C X d) mp vn lo n prot flags off (VMMAP_DIR_HILO C) s = Some ((r, new), s')"
  shows "(\<exists>x. r = 0 \<and> new \<noteq> None \<and> place C s mp lo n x \<and> map_ok C s' mp
       \<and> pages s' mp = mapping x n prot flags (ADDR_TO_PN C off) (pages s mp) \<and> others_kept C mp s s')
    \<or> r = - 1 \<and> new = None \<and> lo = 0 \<and> (\<forall>x. \<not> free_at C s mp n x) \<and> pages s' mp = pages s mp"
proof -
  have hi: "user_lo C \<le> user_hi C" "unat (user_hi C) < 2 ^ 31" using assms(3) by (simp_all add: user_conf_def)
  from vmmap_map_run [OF table_frame_n [OF assms(1)] assms(1,2) hi assms(4,5,6)] show ?thesis
    using respaced_pages respaced_others by blast
qed

theorem vmmap_map_overlays_witness:
  "\<exists>s'. vmmap_map errno_std demo_mconf demo_vm demo_ops 30 None 10 12 1 1 0 1 vmdemo = Some ((0, Some 42), s') \<and>
     pages s' 30 = mapping 10 12 1 1 0 (pages vmdemo 30)"
proof -
  have "case vmmap_map errno_std demo_mconf demo_vm demo_ops 30 None 10 12 1 1 0 1 vmdemo of None \<Rightarrow> False
    | Some ((r, new), _) \<Rightarrow> r = 0 \<and> new = Some 42" by code_simp
  then obtain s' where run: "vmmap_map errno_std demo_mconf demo_vm demo_ops 30 None 10 12 1 1 0 1 vmdemo = Some ((0, Some 42), s')"
    by (auto split: option.split_asm)
  have c: "VMMAP_DIR_HILO demo_mconf = 1" "ADDR_TO_PN demo_mconf 0 = 0" by (simp_all add: demo_mconf_def ADDR_TO_PN_def)
  from vmmap_map_overlays [OF demo_ext_frame demo_slab_fresh demo_conf_ok vmdemo_map _ run [folded c(1)]] run
  show ?thesis by (auto simp: place_def c)
qed

text \<open>
  C37: vmmap_find_range from the top returns the highest page at which the range fits into unmapped user
  memory, and -1 exactly when it fits nowhere. On an address space without areas it dereferences a null
  pointer instead.
\<close>

theorem vmmap_find_range_first_fit:
  assumes "user_conf C" "map_ok C s mp"
  shows "if \<exists>p. pages s mp p \<noteq> None
     then (\<exists>x. vmmap_find_range C mp n (VMMAP_DIR_HILO C) s = Some (int (unat x)) \<and> free_at C s mp n x \<and> (\<forall>y. free_at C s mp n y \<longrightarrow> y \<le> x))
       \<or> vmmap_find_range C mp n (VMMAP_DIR_HILO C) s = Some (- 1) \<and> (\<forall>x. \<not> free_at C s mp n x)
     else vmmap_find_range C mp n (VMMAP_DIR_HILO C) s = None"
proof -
  have hi: "unat (user_hi C) < 2 ^ 31" using assms(1) by (simp add: user_conf_def)
  obtain m where m: "vmmaps s mp = Some m" and aok: "areas_ok (vmareas s) mp (user_lo C) (user_hi C) (vmm_list m)"
    and pg: "pages s mp = view (vmareas s) (vmm_list m)" using assms(2) by (rule map_okE)
  show ?thesis
  proof (cases "vmm_list m")
    case Nil
    then show ?thesis by (simp add: pg vmmap_find_range_def m)
  next
    case (Cons a as)
    obtain v where "vmareas s a = Some v" "vma_start v < vma_end v" using aok unfolding Cons areas_ok_Cons by blast
    then have "pages s mp (vma_start v) \<noteq> None" by (simp add: pg Cons in_area_def)
    moreover have "vmm_list m \<noteq> []" using Cons by simp
    ultimately show ?thesis using vmmap_find_range_hilo [OF assms(2) m hi, of n] by auto
  qed
qed

theorem vmmap_find_range_first_fit_witness:
  "(\<exists>x. vmmap_find_range demo_mconf 30 4 1 vmdemo = Some (int (unat x)) \<and> free_at demo_mconf vmdemo 30 4 x \<and>
     (\<forall>y. free_at demo_mconf vmdemo 30 4 y \<longrightarrow> y \<le> x))"
proof -
  have "pages vmdemo 30 9 \<noteq> None" "vmmap_find_range demo_mconf 30 4 1 vmdemo \<noteq> Some (- 1)" by code_simp+
  moreover have "VMMAP_DIR_HILO demo_mconf = 1" by (simp add: demo_mconf_def)
  ultimately show ?thesis
    using vmmap_find_range_first_fit [OF demo_conf_ok vmdemo_map, of 4] by (auto split: if_split_asm)
qed

end
