(* ===== verification/Vm_Calls.thy ===== *)
theory Vm_Calls
  imports Vm_Demo
begin

section \<open>The calls munmap and brk\<close>

text \<open>
  What \<^verbatim>\<open>do_munmap\<close> (\<^verbatim>\<open>K3/mmap.c\<close>) and \<^verbatim>\<open>do_brk\<close> (\<^verbatim>\<open>K3/brk.c\<close>) do to the address space of the current process,
  stated with the function from pages to mappings: the first forgets a range of pages, the second forgets
  the pages above the new break or lets the area below the old break reach up to the new one.
\<close>

subsection \<open>An area that grows upwards\<close>

definition grow_area :: "u32 \<Rightarrow> u32 \<Rightarrow> vmarea \<Rightarrow> (u32 \<Rightarrow> (u32 \<times> u32 \<times> u32) option) \<Rightarrow> u32 \<Rightarrow> (u32 \<times> u32 \<times> u32) option" where
  "grow_area lo hi v f p = (if lo \<le> p \<and> p < hi then Some (area_info v p) else f p)"

lemma areas_ok_raise:
  assumes "areas_ok A mp lo hi as" "\<forall>p. lo \<le> p \<longrightarrow> p < lo' \<longrightarrow> view A as p = None"
  shows "areas_ok A mp lo' hi as"
proof (cases as)
  case (Cons a bs)
  with assms(1) obtain v where v: "A a = Some v" "lo \<le> vma_start v" "vma_start v < vma_end v" "vma_end v \<le> hi"
    "vma_vmmap v = Some mp" "areas_ok A mp (vma_end v) hi bs" unfolding Cons areas_ok_Cons by blast
  have "view A as (vma_start v) \<noteq> None" using v by (simp add: Cons in_area_def)
  then have "lo' \<le> vma_start v" using assms(2) v(2) by (meson not_le)
  with v show ?thesis by (simp add: Cons)
qed simp

lemma view_member: "a \<in> set as \<Longrightarrow> A a = Some v \<Longrightarrow> in_area v p \<Longrightarrow> view A as p \<noteq> None"
  by (induction as) (auto simp: area_info_def split: option.split)

lemma grow_areas:
  assumes "areas_ok A mp lo hi as" "a \<in> set as" and v: "A a = Some v" "vma_end v < e" "e \<le> hi"
    and free: "\<forall>p. vma_end v \<le> p \<longrightarrow> p < e \<longrightarrow> view A as p = None"
  shows "areas_ok (A(a \<mapsto> v\<lparr>vma_end := e\<rparr>)) mp lo hi as \<and> view (A(a \<mapsto> v\<lparr>vma_end := e\<rparr>)) as = grow_area (vma_end v) e v (view A as)"
  using assms(1,2) free
proof (induction as arbitrary: lo)
  case (Cons b bs)
  let ?A = "A(a \<mapsto> v\<lparr>vma_end := e\<rparr>)"
  from Cons.prems(1) obtain w where w: "A b = Some w" "lo \<le> vma_start w" "vma_start w < vma_end w" "vma_end w \<le> hi"
    "vma_vmmap w = Some mp" "areas_ok A mp (vma_end w) hi bs" unfolding areas_ok_Cons by blast
  have nb: "b \<notin> set bs" using areas_ok_distinct [OF Cons.prems(1)] by simp
  show ?case
  proof (cases "b = a")
    case True
    with w v have wv: "w = v" by simp
    have "view A bs p = None" if "vma_end v \<le> p" "p < e" for p
      using Cons.prems(3) [rule_format, OF that] that w(1) by (simp add: in_area_def wv split: if_split_asm)
    then have up: "areas_ok A mp e hi bs" using areas_ok_raise [OF w(6)] wv by blast
    have "?A x = A x" if "x \<in> set bs" for x using that nb True by auto
    then have same: "areas_ok ?A mp e hi bs" "view ?A bs = view A bs"
      using up areas_ok_cong [of bs ?A A] view_cong [of bs ?A A] by metis+
    have "view ?A (b # bs) p = grow_area (vma_end v) e v (view A (b # bs)) p" for p
      using same(2) w(1,3) v wv True view_below [OF up, of p] by (auto simp: grow_area_def in_area_def area_info_def)
    moreover have "areas_ok ?A mp lo hi (b # bs)"
      unfolding areas_ok_Cons using same(1) w v wv True by (intro exI [of _ "v\<lparr>vma_end := e\<rparr>"]) simp
    ultimately show ?thesis by blast
  next
    case False
    with Cons.prems(2) have a: "a \<in> set bs" by simp
    have fr: "view A bs p = None \<and> \<not> in_area w p" if "vma_end v \<le> p" "p < e" for p
      using Cons.prems(3) [rule_format, OF that] w(1) by (simp split: if_split_asm)
    then have IH: "areas_ok ?A mp (vma_end w) hi bs" "view ?A bs = grow_area (vma_end v) e v (view A bs)"
      using Cons.IH [OF w(6) a] by blast+
    have "view ?A (b # bs) p = grow_area (vma_end v) e v (view A (b # bs)) p" for p
      using IH(2) fr w(1) False by (simp add: grow_area_def)
    moreover have "areas_ok ?A mp lo hi (b # bs)"
      unfolding areas_ok_Cons using IH(1) w False by (intro exI [of _ w]) simp
    ultimately show ?thesis by blast
  qed
qed simp

text \<open>
  The same seen from the pages alone: the new pages continue the mapping of the page below them.
\<close>

definition grow :: "u32 \<Rightarrow> u32 \<Rightarrow> (u32 \<Rightarrow> (u32 \<times> u32 \<times> u32) option) \<Rightarrow> u32 \<Rightarrow> (u32 \<times> u32 \<times> u32) option" where
  "grow lo hi f p = (if lo \<le> p \<and> p < hi
     then map_option (\<lambda>(prot, flags, off). (prot, flags, off + (p - (lo - 1)))) (f (lo - 1)) else f p)"

lemma grow_area_grow: "f (lo - 1) = Some (area_info v (lo - 1)) \<Longrightarrow> grow_area lo hi v f = grow lo hi f"
  by (simp add: fun_eq_iff grow_area_def grow_def area_info_def algebra_simps)

lemma lookup_below:
  assumes ok: "map_ok C s mp" and free: "pages s mp b = None" and below: "pages s mp (b - 1) \<noteq> None"
  obtains m a v where "vmmaps s mp = Some m" "areas_ok (vmareas s) mp (user_lo C) (user_hi C) (vmm_list m)"
    "vmmap_lookup mp (b - 1) s = Some (Some a)" "a \<in> set (vmm_list m)" "vmareas s a = Some v" "vma_end v = b"
    "pages s mp (b - 1) = Some (area_info v (b - 1))"
proof -
  obtain m where m: "vmmaps s mp = Some m" "areas_ok (vmareas s) mp (user_lo C) (user_hi C) (vmm_list m)"
    "pages s mp = view (vmareas s) (vmm_list m)" using ok by (rule map_okE)
  obtain a v where v: "vmmap_lookup mp (b - 1) s = Some (Some a)" "a \<in> set (vmm_list m)" "vmareas s a = Some v"
    "in_area v (b - 1)" "pages s mp (b - 1) = Some (area_info v (b - 1))"
    using lookup_area_view [OF m(2), of "b - 1"] m(1,3) below by (auto simp: vmmap_lookup_def split: option.splits)
  have "b \<noteq> 0" using v(4) by (auto simp: in_area_def)
  then have u: "unat (b - 1) = unat b - 1" "0 < unat b" by (simp_all add: unat_minus_one unat_gt_0)
  have "\<not> in_area v b" using view_member [of a "vmm_list m" "vmareas s" v b] v(2,3) free m(3) by auto
  then have "unat (vma_end v) = unat b" using v(4) u unfolding in_area_def word_le_nat_alt word_less_nat_alt by linarith
  then have "vma_end v = b" by (rule word_unat_eq_iff [THEN iffD2])
  with m v that show thesis by blast
qed

lemma vma_grow_respaced:
  assumes ok: "map_ok C s mp" and b: "b < e" "e \<le> user_hi C" "\<forall>p. b \<le> p \<longrightarrow> p < e \<longrightarrow> pages s mp p = None"
    and below: "pages s mp (b - 1) \<noteq> None"
  obtains a s' where "vmmap_lookup mp (b - 1) s = Some (Some a)" "vma_upd a (\<lambda>v. v\<lparr>vma_end := e\<rparr>) s = Some s'"
    "respaced C mp {} (grow b e (pages s mp)) s s'"
proof -
  have "pages s mp b = None" using b(1,3) by simp
  then obtain m a v where m: "vmmaps s mp = Some m" "areas_ok (vmareas s) mp (user_lo C) (user_hi C) (vmm_list m)"
    and v: "vmmap_lookup mp (b - 1) s = Some (Some a)" "a \<in> set (vmm_list m)" "vmareas s a = Some v" "vma_end v = b"
      "pages s mp (b - 1) = Some (area_info v (b - 1))" using lookup_below [OF ok _ below] by metis
  let ?A = "(vmareas s)(a \<mapsto> v\<lparr>vma_end := e\<rparr>)"
  obtain v' where "vmareas s a = Some v'" "vma_vmmap v' = Some mp" using areas_ok_member [OF m(2) v(2)] by blast
  with v(3) have vm: "vma_vmmap v = Some mp" by simp
  have g: "areas_ok ?A mp (user_lo C) (user_hi C) (vmm_list m)" "view ?A (vmm_list m) = grow b e (pages s mp)"
    using grow_areas [OF m(2) v(2,3), of e] b v(4) grow_area_grow [of "pages s mp" b v e, OF v(5)]
    unfolding pages_eq [OF m(1)] v(4) by metis+
  then have "respaced C mp {} (grow b e (pages s mp)) s (s\<lparr>vmareas := ?A\<rparr>)"
    using m(1) vm v(3) by (simp add: respaced_def map_ok_def pages_eq del: fun_upd_apply) (simp add: v(3))
  moreover have "vma_upd a (\<lambda>v. v\<lparr>vma_end := e\<rparr>) s = Some (s\<lparr>vmareas := ?A\<rparr>)" using v(3) by (simp add: vma_upd_def)
  ultimately show thesis using v(1) that by blast
qed

subsection \<open>Page numbers\<close>

definition brk_page :: "mconf \<Rightarrow> u32 \<Rightarrow> u32" where
  "brk_page C a = (a - 1) div of_nat (PAGE_SIZE C) + 1"

lemma unmap_range_pos:
  assumes "1 < PAGE_SHIFT C" "PAGE_SHIFT C < 32"
  shows "ADDR_TO_PN C a < ADDR_TO_PN C a + brk_page C l"
proof -
  let ?q = "2 ^ PAGE_SHIFT C :: nat"
  have "?q < 2 ^ 32" using assms(2) by (intro power_strict_increasing) simp_all
  then have q: "unat (of_nat (PAGE_SIZE C) :: u32) = ?q" 
    unfolding PAGE_SIZE_def unat_of_nat by simp
  have "(2::nat) ^ 2 \<le> ?q" using assms(1) by (intro power_increasing) simp_all
  moreover have "unat x < 2 ^ 32" for x :: u32 using unsigned_less [of x] by simp
  ultimately have small: "unat x div ?q < 2 ^ 30" for x :: u32
    using less_mult_imp_div_less [of "unat x" "2 ^ 30" 4] div_le_mono2 [of 4 ?q "unat x"] by simp
  have A: "unat (ADDR_TO_PN C a) < 2 ^ 30" using small [of a] unfolding ADDR_TO_PN_def unat_drop_bit_eq by (simp add: drop_bit_eq_div)
  have d: "unat ((l - 1) div of_nat (PAGE_SIZE C)) < 2 ^ 30" using small [of "l - 1"] q by (simp add: unat_div_distrib)
  then have B: "unat (brk_page C l) = unat ((l - 1) div of_nat (PAGE_SIZE C)) + 1" by (simp add: brk_page_def unat_word_ariths)
  then have "unat (ADDR_TO_PN C a + brk_page C l) = unat (ADDR_TO_PN C a) + unat (brk_page C l)" using A d by (simp add: unat_word_ariths)
  with B show ?thesis by (simp add: word_less_nat_alt)
qed

subsection \<open>munmap\<close>

text \<open>
  C21: \<^verbatim>\<open>do_munmap\<close> refuses a range that is empty or outside user memory with \<^verbatim>\<open>EINVAL\<close> and changes nothing; for
  any other range it returns 0, and the pages from the one of the address on, as many as the length fills, are
  forgotten; every other page keeps its mapping, and other address spaces show what they showed before. The
  number of pages does not depend on where in its page the range begins.
\<close>

theorem do_munmap_cuts:
  assumes "ext_frame X" "slab_fresh X" "user_conf C" "1 < PAGE_SHIFT C" "PAGE_SHIFT C < 32"
    and "cur_proc s = Some (cp, pr)" "p_vmmap pr = Some mp" "map_ok C s mp"
  shows "if len = 0 \<or> USER_MEM_HIGH C - USER_MEM_LOW C < len \<or> USER_MEM_HIGH C < addr + len \<or> addr < USER_MEM_LOW C
    then do_munmap E C X (obj_ops_n E C X d) addr len s = Some (- E EINVAL, s)
    else \<forall>r s'. do_munmap E C X (obj_ops_n E C X d) addr len s = Some (r, s') \<longrightarrow>
      r = 0 \<and> map_ok C s' mp \<and> procs s' = procs s \<and> others_kept C mp s s' \<and>
      pages s' mp = cut (ADDR_TO_PN C addr) (ADDR_TO_PN C addr + brk_page C len) (pages s mp)"
proof -
  let ?lo = "ADDR_TO_PN C addr" and ?T = "obj_ops_n E C X d"
  have lohi: "user_lo C \<le> user_hi C" using assms(3) by (simp add: user_conf_def)
  have "r = 0 \<and> map_ok C s' mp \<and> procs s' = procs s \<and> others_kept C mp s s' \<and> pages s' mp = cut ?lo (?lo + brk_page C len) (pages s mp)"
    if run: "vmmap_remove C X ?T mp ?lo (brk_page C len) s = Some (r, s')" for r s'
  proof -
    from vmmap_remove_respaced [OF table_frame_n [OF assms(1)] assms(1,2) unmap_range_pos [OF assms(4,5)] lohi assms(8) run]
    have "r = 0" and sp: "respaced C mp {} (cut ?lo (?lo + brk_page C len) (pages s mp)) s s'" by simp_all
    then show ?thesis using respaced_pages [OF sp] respaced_others [OF sp] by (simp add: respaced_def)
  qed
  then show ?thesis using assms(6,7) by (auto simp: do_munmap_def bind_eq_Some_conv brk_page_def)
qed

theorem do_munmap_cuts_witness:
  "\<exists>s'. do_munmap errno_std demo_mconf demo_vm demo_ops 46 10 vmdemo = Some (0, s') \<and> map_ok demo_mconf s' 30 \<and>
     pages s' 30 = cut 11 14 (pages vmdemo 30)"
proof -
  have "case do_munmap errno_std demo_mconf demo_vm demo_ops 46 10 vmdemo of None \<Rightarrow> False | Some _ \<Rightarrow> True" by code_simp
  then obtain r s' where run: "do_munmap errno_std demo_mconf demo_vm demo_ops 46 10 vmdemo = Some (r, s')"
    by (auto split: option.split_asm)
  have c: "cur_proc vmdemo = Some (10, demo_proc\<lparr>p_pagedir := Some 100, p_vmmap := Some 30\<rparr>)" by (simp add: cur_proc_def vmdemo_def)
  have sh: "1 < PAGE_SHIFT demo_mconf" "PAGE_SHIFT demo_mconf < 32" by (simp_all add: demo_mconf_def)
  have "ADDR_TO_PN demo_mconf 46 = 11" "brk_page demo_mconf 10 = 3" "USER_MEM_HIGH demo_mconf = 1024" "USER_MEM_LOW demo_mconf = 16"
    by (simp_all add: ADDR_TO_PN_def brk_page_def PAGE_SIZE_def demo_mconf_def drop_bit_eq_div)
  then show ?thesis
    using do_munmap_cuts [OF demo_ext_frame demo_slab_fresh demo_conf_ok sh c _ vmdemo_map, of 10 46 errno_std 2] run by simp
qed

subsection \<open>brk\<close>

definition break_set :: "mconf \<Rightarrow> ptr \<Rightarrow> proc \<Rightarrow> ptr \<Rightarrow> u32 \<Rightarrow> (u32 \<Rightarrow> (u32 \<times> u32 \<times> u32) option) \<Rightarrow> 'a vm_st_scheme \<Rightarrow> 'a vm_st_scheme \<Rightarrow> bool" where
  "break_set C cp pr mp addr f s s' \<longleftrightarrow> procs s' = (procs s)(cp \<mapsto> pr\<lparr>p_brk := addr\<rparr>) \<and> map_ok C s' mp \<and> pages s' mp = f
     \<and> others_kept C mp s s'"

lemma procs_update_space [simp]:
  "map_ok C (s\<lparr>procs := ps\<rparr>) mp = map_ok C s mp" "pages (s\<lparr>procs := ps\<rparr>) mp = pages s mp"
  by (simp_all add: map_ok_def pages_def fun_eq_iff split: option.split)

lemma break_setI:
  assumes "respaced C mp {} f s s1" "procs s cp = Some pr"
  obtains s' where "proc_upd cp (\<lambda>p. p\<lparr>p_brk := addr\<rparr>) s1 = Some s'" "break_set C cp pr mp addr f s s'"
proof -
  have "procs s1 = procs s" using assms(1) by (simp add: respaced_def)
  then have "proc_upd cp (\<lambda>p. p\<lparr>p_brk := addr\<rparr>) s1 = Some (s1\<lparr>procs := (procs s)(cp \<mapsto> pr\<lparr>p_brk := addr\<rparr>)\<rparr>)"
    using assms(2) by (simp add: proc_upd_def)
  moreover have "others_kept C mp s s1" by (rule respaced_others [OF assms(1)]) simp
  then have "break_set C cp pr mp addr f s (s1\<lparr>procs := (procs s)(cp \<mapsto> pr\<lparr>p_brk := addr\<rparr>)\<rparr>)"
    using respaced_pages [OF assms(1)] by (simp add: break_set_def others_kept_def)
  ultimately show thesis by (rule that)
qed

lemma do_brk_branches:
  assumes "cur_proc s = Some (cp, pr)" "p_vmmap pr = Some mp"
  shows "do_brk E C X T addr s = (let b = brk_page C (p_brk pr); e = brk_page C addr in
    if addr = 0 then Some ((0, Some (p_brk pr)), s)
    else if USER_MEM_HIGH C < addr \<or> addr < p_start_brk pr then Some ((- E ENOMEM, None), s)
    else if b = e then Some ((0, None), s)
    else if e < b then do {
      (_, s) \<leftarrow> vmmap_remove C X T mp e (b - e) s;
      s \<leftarrow> proc_upd cp (\<lambda>p. p\<lparr>p_brk := addr\<rparr>) s;
      Some ((0, Some addr), s) }
    else do {
      area \<leftarrow> vmmap_lookup mp (b - 1) s;
      check \<leftarrow> vmmap_is_range_empty C mp b (e - b) s;
      if check = 1 then do {
        a \<leftarrow> area;
        s \<leftarrow> vma_upd a (\<lambda>v. v\<lparr>vma_end := e\<rparr>) s;
        s \<leftarrow> proc_upd cp (\<lambda>p. p\<lparr>p_brk := addr\<rparr>) s;
        Some ((0, Some addr), s) }
      else Some ((- E ENOMEM, None), s) })"
  using assms by (simp add: do_brk_def brk_page_def Let_def)

lemma lookup_total: "map_ok C s mp \<Longrightarrow> \<exists>q. vmmap_lookup mp p s = Some q"
  by (elim map_okE) (use lookup_area_view [of "vmareas s" mp "user_lo C" "user_hi C" _ p] in
    \<open>fastforce simp: vmmap_lookup_def split: option.splits\<close>)

lemma brk_up:
  fixes addr :: u32 and err :: int
  assumes ok: "map_ok C s mp" and pr: "procs s cp = Some pr" and "b < e"
    and grows: "user_lo C \<le> b \<and> e \<le> user_hi C \<and> pages s mp (b - 1) \<noteq> None"
  defines "up \<equiv> do {
      area \<leftarrow> vmmap_lookup mp (b - 1) s;
      check \<leftarrow> vmmap_is_range_empty C mp b (e - b) s;
      if check = 1 then do {
        a \<leftarrow> area;
        s \<leftarrow> vma_upd a (\<lambda>v. v\<lparr>vma_end := e\<rparr>) s;
        s \<leftarrow> proc_upd cp (\<lambda>p. p\<lparr>p_brk := addr\<rparr>) s;
        Some ((0, Some addr), s) }
      else Some ((err, None), s) }"
  shows "if \<forall>p. b \<le> p \<longrightarrow> p < e \<longrightarrow> pages s mp p = None
    then \<exists>s'. up = Some ((0, Some addr), s') \<and> break_set C cp pr mp addr (grow b e (pages s mp)) s s'
    else up = Some ((err, None), s)"
proof -
  from is_range_empty_view [OF ok, of b "e - b"] grows \<open>b < e\<close>
  have chk: "vmmap_is_range_empty C mp b (e - b) s = Some (if \<forall>p. b \<le> p \<longrightarrow> p < e \<longrightarrow> pages s mp p = None then 1 else 0)"
    by simp
  show ?thesis
  proof (cases "\<forall>p. b \<le> p \<longrightarrow> p < e \<longrightarrow> pages s mp p = None")
    case True
    obtain a s1 where s1: "vmmap_lookup mp (b - 1) s = Some (Some a)" "vma_upd a (\<lambda>v. v\<lparr>vma_end := e\<rparr>) s = Some s1"
      "respaced C mp {} (grow b e (pages s mp)) s s1" using vma_grow_respaced [OF ok \<open>b < e\<close> _ True] grows by blast
    obtain s' where "proc_upd cp (\<lambda>p. p\<lparr>p_brk := addr\<rparr>) s1 = Some s'" "break_set C cp pr mp addr (grow b e (pages s mp)) s s'"
      using break_setI [OF s1(3) pr] by blast
    then show ?thesis using s1(1,2) chk True by (simp add: up_def)
  next
    case False
    obtain q where "vmmap_lookup mp (b - 1) s = Some q" using lookup_total [OF ok] by blast
    with chk False show ?thesis by (simp add: up_def)
  qed
qed

text \<open>
  C16: \<^verbatim>\<open>do_brk\<close> on every branch. Without an address it returns the break; an address above user memory or below the
  start of the heap is refused. A new break on another page unmaps the pages between it and the old one, or lets
  the mapping of the page below the old break continue up to the new one, unless a page in between is mapped: then
  it is refused and nothing changes. A new break on the page of the old one is reported as a success although
  the break is neither stored nor returned.
\<close>

theorem do_brk_moves:
  assumes "ext_frame X" "slab_fresh X" "user_conf C"
    and cur: "cur_proc s = Some (cp, pr)" "p_vmmap pr = Some mp" "map_ok C s mp"
    and grows: "b < e \<Longrightarrow> user_lo C \<le> b \<and> e \<le> user_hi C \<and> pages s mp (b - 1) \<noteq> None"
    and pn: "b = brk_page C (p_brk pr)" "e = brk_page C addr"
  shows "if addr = 0 then do_brk E C X (obj_ops_n E C X d) addr s = Some ((0, Some (p_brk pr)), s)
    else if USER_MEM_HIGH C < addr \<or> addr < p_start_brk pr then do_brk E C X (obj_ops_n E C X d) addr s = Some ((- E ENOMEM, None), s)
    else if b = e then do_brk E C X (obj_ops_n E C X d) addr s = Some ((0, None), s)
    else if e < b then \<forall>r s'. do_brk E C X (obj_ops_n E C X d) addr s = Some (r, s') \<longrightarrow>
      r = (0, Some addr) \<and> break_set C cp pr mp addr (cut e b (pages s mp)) s s'
    else if \<forall>p. b \<le> p \<longrightarrow> p < e \<longrightarrow> pages s mp p = None then \<exists>s'. do_brk E C X (obj_ops_n E C X d) addr s = Some ((0, Some addr), s')
      \<and> break_set C cp pr mp addr (grow b e (pages s mp)) s s'
    else do_brk E C X (obj_ops_n E C X d) addr s = Some ((- E ENOMEM, None), s)"
proof -
  let ?T = "obj_ops_n E C X d"
  have pr: "procs s cp = Some pr" using cur(1) by (auto simp: cur_proc_def bind_eq_Some_conv)
  note run = do_brk_branches [OF cur(1,2), of E C X ?T addr, folded pn, unfolded Let_def]
  consider (early) "addr = 0 \<or> USER_MEM_HIGH C < addr \<or> addr < p_start_brk pr \<or> b = e"
    | (shrink) "\<not> (addr = 0 \<or> USER_MEM_HIGH C < addr \<or> addr < p_start_brk pr \<or> b = e)" "e < b"
    | (up) "\<not> (addr = 0 \<or> USER_MEM_HIGH C < addr \<or> addr < p_start_brk pr \<or> b = e)" "b < e" by fastforce
  then show ?thesis
  proof cases
    case early
    then show ?thesis unfolding run by auto
  next
    case shrink
    have "user_lo C \<le> user_hi C" using assms(3) by (simp add: user_conf_def)
    note cuts = vmmap_remove_respaced [OF table_frame_n [OF assms(1)] assms(1,2) _ this cur(3)]
    have "r = (0, Some addr) \<and> break_set C cp pr mp addr (cut e b (pages s mp)) s s'"
      if "do_brk E C X ?T addr s = Some (r, s')" for r s'
    proof -
      from that shrink obtain r1 s1 where s1: "vmmap_remove C X ?T mp e (b - e) s = Some (r1, s1)" "r = (0, Some addr)"
        "proc_upd cp (\<lambda>p. p\<lparr>p_brk := addr\<rparr>) s1 = Some s'" unfolding run by (auto simp: bind_eq_Some_conv)
      with cuts [OF _ s1(1)] shrink(2) have "respaced C mp {} (cut e b (pages s mp)) s s1" by simp
      from break_setI [OF this pr, of addr] s1 show ?thesis by (metis option.inject)
    qed
    with shrink show ?thesis by auto
  next
    case up
    have "\<not> e < b" using up(2) by (rule less_not_sym)
    with up grows brk_up [OF cur(3) pr up(2), of addr "- E ENOMEM"] show ?thesis unfolding run by simp
  qed
qed

definition brkdemo :: vm_st where
  "brkdemo = vmdemo\<lparr>procs := [10 \<mapsto> demo_proc\<lparr>p_pagedir := Some 100, p_vmmap := Some 30, p_start_brk := 58, p_brk := 62\<rparr>]\<rparr>"

theorem do_brk_moves_witness:
  "\<exists>s'. do_brk errno_std demo_mconf demo_vm demo_ops 76 brkdemo = Some ((0, Some 76), s') \<and> map_ok demo_mconf s' 30 \<and>
     pages s' 30 = grow 16 19 (pages vmdemo 30)"
proof -
  let ?pr = "demo_proc\<lparr>p_pagedir := Some 100, p_vmmap := Some 30, p_start_brk := 58, p_brk := 62\<rparr>"
  have c: "cur_proc brkdemo = Some (10, ?pr)" by (simp add: cur_proc_def brkdemo_def vmdemo_def)
  have m: "map_ok demo_mconf brkdemo 30" using vmdemo_map by (simp add: brkdemo_def)
  have pg: "pages brkdemo 30 = pages vmdemo 30" by (simp add: brkdemo_def)
  have bp: "16 = brk_page demo_mconf (p_brk ?pr)" "19 = brk_page demo_mconf 76" "USER_MEM_HIGH demo_mconf = 1024"
    by (simp_all add: brk_page_def PAGE_SIZE_def demo_mconf_def)
  have below: "pages vmdemo 30 15 \<noteq> None" by code_simp
  have free: "\<forall>p. 16 \<le> p \<longrightarrow> p < 19 \<longrightarrow> pages vmdemo 30 p = None"
    by (auto simp: pages_def vmdemo_def in_area_def word_le_nat_alt word_less_nat_alt)
  have "\<exists>s'. do_brk errno_std demo_mconf demo_vm demo_ops 76 brkdemo = Some ((0, Some 76), s')
      \<and> break_set demo_mconf 10 ?pr 30 76 (grow 16 19 (pages vmdemo 30)) brkdemo s'"
    using do_brk_moves [OF demo_ext_frame demo_slab_fresh demo_conf_ok c _ m _ bp(1,2), of errno_std 2] below free
    by (simp add: bp(3) pg demo_user)
  then show ?thesis by (auto simp: break_set_def)
qed

end
