(* ===== verification/Vm_Cache.thy ===== *)
theory Vm_Cache
  imports Vm_Demo
begin

section \<open>The page cache\<close>

text \<open>
  The identity of a page frame is the object it belongs to and the number of its page in it. The hash
  table is well-formed (\<open>hash_ok\<close>) when it holds every frame in the chain of its identity and no two
  frames have the same identity; then the search in a hash chain finds the frame of an identity.
\<close>

subsection \<open>The hash table\<close>

definition identity :: "pframe \<Rightarrow> ptr \<Rightarrow> u32 \<Rightarrow> bool" where
  "identity p ob n \<longleftrightarrow> pf_obj p = Some ob \<and> pf_pagenum p = n"

definition hash_ok :: "mconf \<Rightarrow> 'a vm_st_scheme \<Rightarrow> bool" where
  "hash_ok C s \<longleftrightarrow>
     (\<forall>h. \<forall>pf \<in> set (pframe_hash s h). \<exists>p ob. pframes s pf = Some p \<and> pf_obj p = Some ob \<and> h = hash_page C ob (pf_pagenum p))
   \<and> (\<forall>pf p. pframes s pf = Some p \<longrightarrow> (\<exists>ob. pf_obj p = Some ob \<and> pf \<in> set (pframe_hash s (hash_page C ob (pf_pagenum p)))))
   \<and> (\<forall>pf p pf' p' ob n. pframes s pf = Some p \<longrightarrow> pframes s pf' = Some p' \<longrightarrow> identity p ob n \<longrightarrow> identity p' ob n \<longrightarrow> pf = pf')
   \<and> (\<forall>h. distinct (pframe_hash s h))"

definition frame_of :: "mconf \<Rightarrow> 'a vm_st_scheme \<Rightarrow> ptr \<Rightarrow> u32 \<Rightarrow> ptr option" where
  "frame_of C s ob n = (case find_pframe (pframes s) ob n (pframe_hash s (hash_page C ob n)) of Some r \<Rightarrow> r | None \<Rightarrow> None)"

lemma find_pframe_Some: "find_pframe P ob n pfs = Some (Some pf) \<Longrightarrow> pf \<in> set pfs \<and> (\<exists>p. P pf = Some p \<and> identity p ob n)"
  by (induction pfs) (auto simp: bind_eq_Some_conv identity_def split: if_split_asm)

lemma find_pframe_None: "find_pframe P ob n pfs = Some None \<Longrightarrow> pf \<in> set pfs \<Longrightarrow> P pf = Some p \<Longrightarrow> \<not> identity p ob n"
  by (induction pfs) (auto simp: bind_eq_Some_conv identity_def split: if_split_asm)

lemma find_pframe_total: "(\<And>pf. pf \<in> set pfs \<Longrightarrow> P pf \<noteq> None) \<Longrightarrow> \<exists>r. find_pframe P ob n pfs = Some r"
proof (induction pfs)
  case (Cons pf pfs)
  from Cons.prems [of pf] obtain p where "P pf = Some p" by auto
  with Cons show ?case by simp
qed simp

lemma hash_total:
  assumes "hash_ok C s"
  shows "find_pframe (pframes s) ob n (pframe_hash s (hash_page C ob n)) = Some (frame_of C s ob n)"
proof -
  have "pframes s pf \<noteq> None" if "pf \<in> set (pframe_hash s h)" for pf h using assms that unfolding hash_ok_def by blast
  then obtain r where "find_pframe (pframes s) ob n (pframe_hash s (hash_page C ob n)) = Some r"
    using find_pframe_total by blast
  then show ?thesis by (simp add: frame_of_def)
qed

lemma frame_of_iff:
  assumes "hash_ok C s"
  shows "frame_of C s ob n = Some pf \<longleftrightarrow> (\<exists>p. pframes s pf = Some p \<and> identity p ob n)"
proof
  assume "frame_of C s ob n = Some pf"
  then show "\<exists>p. pframes s pf = Some p \<and> identity p ob n" using find_pframe_Some hash_total [OF assms, of ob n] by metis
next
  assume "\<exists>p. pframes s pf = Some p \<and> identity p ob n"
  then obtain p where p: "pframes s pf = Some p" "identity p ob n" by blast
  with assms have "pf \<in> set (pframe_hash s (hash_page C ob n))" unfolding hash_ok_def identity_def by fastforce
  then have "frame_of C s ob n \<noteq> None" using find_pframe_None p hash_total [OF assms, of ob n] by metis
  then obtain pf' where f: "frame_of C s ob n = Some pf'" by blast
  then obtain p' where "pframes s pf' = Some p'" "identity p' ob n" using find_pframe_Some hash_total [OF assms, of ob n] by metis
  with p assms have "pf' = pf" unfolding hash_ok_def by blast
  with f show "frame_of C s ob n = Some pf" by simp
qed

text \<open>\<open>touch pf s\<close> is \<open>s\<close> with the frame at the back of the list of allocated frames, unless it is pinned.\<close>

definition touch :: "ptr option \<Rightarrow> 'a vm_st_scheme \<Rightarrow> 'a vm_st_scheme" where
  "touch r s = (case r of None \<Rightarrow> s | Some pf \<Rightarrow> (case pframes s pf of None \<Rightarrow> s
     | Some p \<Rightarrow> if pframe_is_pinned p then s else s\<lparr>alloc_list := remove1 pf (alloc_list s) @ [pf]\<rparr>))"

lemma pframe_get_resident_eq:
  assumes "hash_ok C s"
  shows "pframe_get_resident C ob n s = Some (frame_of C s ob n, touch (frame_of C s ob n) s)"
proof (cases "frame_of C s ob n")
  case None
  then show ?thesis using hash_total [OF assms, of ob n] by (simp add: pframe_get_resident_def touch_def)
next
  case (Some pf)
  with frame_of_iff [OF assms] obtain p where "pframes s pf = Some p" by blast
  with Some show ?thesis using hash_total [OF assms, of ob n] by (simp add: pframe_get_resident_def touch_def)
qed

lemma touch_simps [simp]:
  "pframes (touch r s) = pframes s" "pframe_hash (touch r s) = pframe_hash s" "mmobjs (touch r s) = mmobjs s"
  "pinned_list (touch r s) = pinned_list s" "npinned (touch r s) = npinned s" "nallocated (touch r s) = nallocated s"
  "queues (touch r s) = queues s" "vnodes (touch r s) = vnodes s" "threads (touch r s) = threads s"
  by (auto simp: touch_def split: option.split)

lemma hash_ok_cong: "pframes s = pframes s' \<Longrightarrow> pframe_hash s = pframe_hash s' \<Longrightarrow> hash_ok C s = hash_ok C s'"
  by (simp add: hash_ok_def)

lemma frame_of_cong: "pframes s = pframes s' \<Longrightarrow> pframe_hash s = pframe_hash s' \<Longrightarrow> frame_of C s = frame_of C s'"
  by (intro ext) (simp add: frame_of_def)

subsection \<open>Chains of shadow objects and what they show\<close>

text \<open>
  \<open>chain s obs\<close>: each object of the list shadows the next, and the last shadows nothing. \<open>contents\<close> is what
  such a chain shows as a page: the nearest frame there is of it, and zeros when there is none.
\<close>

fun chain :: "'a vm_st_scheme \<Rightarrow> ptr list \<Rightarrow> bool" where
  "chain s [] = False"
| "chain s [b] = (\<exists>m. mmobjs s b = Some m \<and> mmo_shadowed m = None)"
| "chain s (a # b # obs) = ((\<exists>m. mmobjs s a = Some m \<and> mmo_shadowed m = Some b) \<and> chain s (b # obs))"

definition frame_data :: "'a vm_st_scheme \<Rightarrow> ptr \<Rightarrow> 8 word list" where
  "frame_data s pf = (case pframes s pf of None \<Rightarrow> [] | Some p \<Rightarrow> pf_data p)"

definition pdata :: "mconf \<Rightarrow> 'a vm_st_scheme \<Rightarrow> ptr \<Rightarrow> u32 \<Rightarrow> 8 word list option" where
  "pdata C s ob n = map_option (frame_data s) (frame_of C s ob n)"

fun shown :: "8 word list \<Rightarrow> (ptr \<Rightarrow> u32 \<Rightarrow> 8 word list option) \<Rightarrow> ptr list \<Rightarrow> u32 \<Rightarrow> 8 word list" where
  "shown z D [] n = z"
| "shown z D (ob # obs) n = (case D ob n of None \<Rightarrow> shown z D obs n | Some d \<Rightarrow> d)"

definition contents :: "mconf \<Rightarrow> 'a vm_st_scheme \<Rightarrow> ptr list \<Rightarrow> u32 \<Rightarrow> 8 word list" where
  "contents C s = shown (replicate (PAGE_SIZE C) 0) (pdata C s)"

definition links :: "'a vm_st_scheme \<Rightarrow> ptr \<Rightarrow> (mmobj_ops \<times> ptr option \<times> mmo_un) option" where
  "links s ob = map_option (\<lambda>m. (mmo_ops m, mmo_shadowed m, mmo_un m)) (mmobjs s ob)"

lemma chain_cong: "links s = links s' \<Longrightarrow> chain s obs = chain s' obs"
proof (induction obs rule: induct_list012)
  case (2 b)
  then have "links s b = links s' b" by simp
  then show ?case by (auto simp: links_def map_option_case split: option.splits)
next
  case (3 a b obs)
  then have "links s a = links s' a" by simp
  with 3 show ?case by (auto simp: links_def map_option_case split: option.splits)
qed simp

lemma chain_unique: "chain s (a # xs) \<Longrightarrow> chain s (a # ys) \<Longrightarrow> xs = ys"
proof (induction xs arbitrary: a ys)
  case Nil
  then show ?case by (cases ys) auto
next
  case (Cons x xs)
  then show ?case by (cases ys) auto
qed

lemma chain_suffix: "chain s (xs @ a # ys) \<Longrightarrow> chain s (a # ys)"
proof (induction xs)
  case (Cons x xs)
  then show ?case by (cases xs) auto
qed simp

fun nearest :: "mconf \<Rightarrow> 'a vm_st_scheme \<Rightarrow> ptr list \<Rightarrow> u32 \<Rightarrow> ptr option" where
  "nearest C s [] n = None"
| "nearest C s (ob # obs) n = (case frame_of C s ob n of None \<Rightarrow> nearest C s obs n | Some pf \<Rightarrow> Some pf)"

lemma contents_nearest:
  "contents C s obs n = (case nearest C s obs n of None \<Rightarrow> replicate (PAGE_SIZE C) 0 | Some pf \<Rightarrow> frame_data s pf)"
  unfolding contents_def by (induction obs) (auto simp: pdata_def split: option.split)

lemma nearest_append: "nearest C s (xs @ ys) n = (case nearest C s xs n of None \<Rightarrow> nearest C s ys n | Some pf \<Rightarrow> Some pf)"
  by (induction xs) (auto split: option.split)

lemma nearest_Some: "nearest C s obs n = Some pf \<Longrightarrow> \<exists>ob \<in> set obs. frame_of C s ob n = Some pf"
  by (induction obs) (auto split: option.split_asm)

lemma nearest_frame:
  assumes "hash_ok C s" "nearest C s obs n = Some pf"
  obtains ob p where "ob \<in> set obs" "frame_of C s ob n = Some pf" "pframes s pf = Some p" "identity p ob n"
  using assms nearest_Some frame_of_iff by metis

lemma touch_None [simp]: "touch None s = s"
  by (simp add: touch_def)

lemma shadow_find_chain:
  assumes ok: "hash_ok C s"
  shows "chain s (a # b # obs) \<Longrightarrow> shadow_find C n a s = Some (case nearest C s (a # butlast (b # obs)) n of
      None \<Rightarrow> (Inr (last (b # obs)), s) | Some pf \<Rightarrow> (Inl pf, touch (Some pf) s))"
proof (induction obs arbitrary: a b)
  case Nil
  then show ?case by (subst shadow_find.simps) (auto simp: pframe_get_resident_eq [OF ok] split: option.split)
next
  case (Cons c obs)
  then have "shadow_find C n b s = Some (case nearest C s (b # butlast (c # obs)) n of
      None \<Rightarrow> (Inr (last (c # obs)), s) | Some pf \<Rightarrow> (Inl pf, touch (Some pf) s))" by simp
  with Cons.prems show ?case by (subst shadow_find.simps) (auto simp: pframe_get_resident_eq [OF ok] split: option.split)
qed

lemma shadow_source_chain:
  assumes ok: "hash_ok C s"
  shows "chain s (a # obs) \<Longrightarrow> shadow_source C n a s = Some (nearest C s obs n, touch (nearest C s obs n) s)"
proof (induction obs arbitrary: a)
  case Nil
  then show ?case by (subst shadow_source.simps) auto
next
  case (Cons b obs)
  then have "shadow_source C n b s = Some (nearest C s obs n, touch (nearest C s obs n) s)" by simp
  with Cons.prems show ?case by (subst shadow_source.simps) (auto simp: pframe_get_resident_eq [OF ok] split: option.split)
qed

lemma chain_distinct: "chain s obs \<Longrightarrow> distinct obs"
proof (induction obs)
  case (Cons a obs)
  have "a \<notin> set obs"
  proof
    assume "a \<in> set obs"
    then obtain xs ys where "obs = xs @ a # ys" by (auto simp: in_set_conv_decomp)
    with chain_unique [OF Cons.prems, of ys] chain_suffix [of s "a # xs" a ys] Cons.prems show False by simp
  qed
  moreover have "obs = [] \<or> chain s obs" using Cons.prems by (cases obs) auto
  ultimately show ?case using Cons.IH by auto
qed simp

text \<open>A copy of what lies below changes nothing of what any chain shows.\<close>

lemma shown_copy:
  assumes D: "D ob n = None" and ch: "chain s (ob # rest)" "chain s os"
  shows "shown z (D(ob := (D ob)(n \<mapsto> shown z D rest n))) os k = shown z D os k"
proof -
  let ?D = "D(ob := (D ob)(n \<mapsto> shown z D rest n))"
  have out: "shown z ?D xs k = shown z D xs k" if "ob \<notin> set xs \<or> k \<noteq> n" for xs
    using that by (induction xs) (auto split: option.split)
  show ?thesis
  proof (cases "ob \<in> set os \<and> k = n")
    case True
    then obtain xs ys where os: "os = xs @ ob # ys" "ob \<notin> set xs" by (meson split_list_first)
    with ch have "ys = rest" using chain_unique chain_suffix by metis
    with True D have "shown z ?D (ob # ys) k = shown z D (ob # ys) k" by simp
    moreover have "shown z ?D us k = shown z D us k \<Longrightarrow> shown z ?D (xs @ us) k = shown z D (xs @ us) k" for us
      using os(2) by (induction xs) (auto split: option.split)
    ultimately show ?thesis unfolding os(1) by blast
  qed (use out in auto)
qed

lemma pdata_iff:
  assumes "hash_ok C s"
  shows "pdata C s ob n = Some d \<longleftrightarrow> (\<exists>pf p. pframes s pf = Some p \<and> identity p ob n \<and> pf_data p = d)"
proof -
  have "pdata C s ob n = Some d \<longleftrightarrow> (\<exists>pf. frame_of C s ob n = Some pf \<and> frame_data s pf = d)" by (auto simp: pdata_def)
  also have "\<dots> \<longleftrightarrow> (\<exists>pf p. pframes s pf = Some p \<and> identity p ob n \<and> pf_data p = d)"
    unfolding frame_of_iff [OF assms] by (fastforce simp: frame_data_def)
  finally show ?thesis .
qed

lemma pdata_upd:
  assumes ok: "hash_ok C s" "hash_ok C s'" and P: "pframes s' = (pframes s)(pf \<mapsto> p)" and p: "identity p ob n"
    and old: "\<And>q. pframes s pf = Some q \<Longrightarrow> identity q ob n"
  shows "pdata C s' = (pdata C s)(ob := (pdata C s ob)(n \<mapsto> pf_data p))"
proof (intro ext)
  fix o' k
  show "pdata C s' o' k = ((pdata C s)(ob := (pdata C s ob)(n \<mapsto> pf_data p))) o' k"
  proof (cases "o' = ob \<and> k = n")
    case True
    have "frame_of C s' ob n = Some pf" using p by (simp add: frame_of_iff [OF ok(2)] P)
    with True show ?thesis by (simp add: pdata_def frame_data_def P)
  next
    case False
    have "pframes s' x = Some y \<and> identity y o' k \<longleftrightarrow> pframes s x = Some y \<and> identity y o' k" for x y
      using False p old by (auto simp: P identity_def)
    then have "pdata C s' o' k = Some d \<longleftrightarrow> pdata C s o' k = Some d" for d
      unfolding pdata_iff [OF ok(1)] pdata_iff [OF ok(2)] by metis
    then have "pdata C s' o' k = pdata C s o' k" by (metis option.exhaust)
    with False show ?thesis by auto
  qed
qed

subsection \<open>New frames\<close>

text \<open>The state after \<^verbatim>\<open>pframe_alloc\<close> has entered a frame in the cache.\<close>

definition enter :: "mconf \<Rightarrow> ptr \<Rightarrow> ptr \<Rightarrow> u32 \<Rightarrow> pframe \<Rightarrow> 'a vm_st_scheme \<Rightarrow> 'a vm_st_scheme" where
  "enter C pf ob n p s = s\<lparr>pframes := (pframes s)(pf \<mapsto> p),
     pframe_hash := (pframe_hash s)(hash_page C ob n := pf # pframe_hash s (hash_page C ob n))\<rparr>"

lemma hash_ok_enter:
  assumes ok: "hash_ok C s" and new: "pframes s pf = None" "frame_of C s ob n = None" and p: "identity p ob n"
    and s': "pframes s' = pframes (enter C pf ob n p s)" "pframe_hash s' = pframe_hash (enter C pf ob n p s)"
  shows "hash_ok C s'"
proof -
  have a: "\<exists>q o'. pframes s x = Some q \<and> pf_obj q = Some o' \<and> h = hash_page C o' (pf_pagenum q)" if "x \<in> set (pframe_hash s h)" for x h
    using ok that unfolding hash_ok_def by blast
  then have npf: "pf \<notin> set (pframe_hash s h)" for h using new(1) by fastforce
  have b: "\<not> identity q ob n" if "pframes s x = Some q" for x q using new(2) frame_of_iff [OF ok, of ob n x] that by auto
  have c: "distinct (pframe_hash s h)" for h using ok by (simp add: hash_ok_def)
  have d: "\<exists>o'. pf_obj q = Some o' \<and> x \<in> set (pframe_hash s (hash_page C o' (pf_pagenum q)))" if "pframes s x = Some q" for x q
    using ok that by (simp add: hash_ok_def)
  have e: "x = y" if "pframes s x = Some q" "pframes s y = Some r" "identity q o' k" "identity r o' k" for x y q r o' k
    using ok that unfolding hash_ok_def by blast
  show ?thesis unfolding hash_ok_def s'
  proof (intro conjI allI ballI impI)
    fix h x assume x: "x \<in> set (pframe_hash (enter C pf ob n p s) h)"
    show "\<exists>q o'. pframes (enter C pf ob n p s) x = Some q \<and> pf_obj q = Some o' \<and> h = hash_page C o' (pf_pagenum q)"
    proof (cases "x = pf")
      case True
      with x npf p show ?thesis by (auto simp: enter_def identity_def split: if_split_asm)
    next
      case False
      with x a show ?thesis by (auto simp: enter_def split: if_split_asm)
    qed
  next
    fix x q assume "pframes (enter C pf ob n p s) x = Some q"
    then show "\<exists>o'. pf_obj q = Some o' \<and> x \<in> set (pframe_hash (enter C pf ob n p s) (hash_page C o' (pf_pagenum q)))"
      using d [of x q] p by (auto simp: enter_def identity_def split: if_split_asm)
  next
    fix x q y r o' k assume "pframes (enter C pf ob n p s) x = Some q" "pframes (enter C pf ob n p s) y = Some r"
      "identity q o' k" "identity r o' k"
    then show "x = y" using e b p by (auto simp: enter_def identity_def split: if_split_asm)
  next
    fix h show "distinct (pframe_hash (enter C pf ob n p s) h)" using c npf by (simp add: enter_def)
  qed
qed

lemma hash_ok_modify:
  assumes ok: "hash_ok C s" and q: "pframes s pf = Some q" and p: "pf_obj p = pf_obj q" "pf_pagenum p = pf_pagenum q"
    and s': "pframes s' = (pframes s)(pf \<mapsto> p)" "pframe_hash s' = pframe_hash s"
  shows "hash_ok C s'"
  using ok q p unfolding hash_ok_def s' identity_def by (auto; (metis option.inject)?)

lemma broadcast_empty: "tq_list (queues s q) = [] \<Longrightarrow> sched_broadcast_on q s = Some s"
  by (subst sched_broadcast_on.simps) (simp add: sched_queue_empty_def)

lemma links_same: "(\<And>ob m. mmobjs s ob = Some m \<Longrightarrow> \<exists>m'. mmobjs s' ob = Some m' \<and> mmo_ops m' = mmo_ops m \<and> mmo_shadowed m' = mmo_shadowed m
    \<and> mmo_un m' = mmo_un m) \<Longrightarrow> (\<And>ob. mmobjs s ob = None \<Longrightarrow> mmobjs s' ob = None) \<Longrightarrow> links s' = links s"
  unfolding links_def by (intro ext) (metis (no_types, lifting) not_None_eq option.map(1) option.map(2))

text \<open>\<open>can_alloc X s\<close>: the allocators have a free frame and a free page.\<close>

definition can_alloc :: "'a vm_st_scheme vm_ext \<Rightarrow> 'a vm_st_scheme \<Rightarrow> bool" where
  "can_alloc X s \<longleftrightarrow> (\<exists>pf addr. slab_pframe X s = Some pf \<and> page_alloc X s = Some addr \<and> pframes s pf = None)"

definition live_anon :: "'a vm_st_scheme \<Rightarrow> ptr \<Rightarrow> bool" where
  "live_anon s ob \<longleftrightarrow> (\<exists>m. mmobjs s ob = Some m \<and> mmo_ops m = Anon_mmobj_ops \<and> 0 < mmo_refcount m)"

text \<open>\<open>unwatched s pf\<close>: no thread waits for the frame.\<close>

definition unwatched :: "'a vm_st_scheme \<Rightarrow> ptr \<Rightarrow> bool" where
  "unwatched s pf \<longleftrightarrow> tq_list (queues s (Pf_waitq pf)) = []"

lemma unwatched_touch [simp]: "unwatched (touch r s) = unwatched s"
  by (simp add: unwatched_def fun_eq_iff)

lemma anon_get_new:
  assumes ok: "hash_ok C s" and new: "frame_of C s ob n = None" and ob: "live_anon s ob" and "can_alloc X s"
  shows "\<exists>pf p s'. pframe_get E C X (obj_table E C X T) ob n s = Some ((0, Some pf), s') \<and> pframes s pf = None
     \<and> pframes s' = (pframes s)(pf \<mapsto> p) \<and> hash_ok C s' \<and> links s' = links s \<and> identity p ob n
     \<and> pf_data p = replicate (PAGE_SIZE C) 0 \<and> \<not> pf_busy p \<and> unwatched s' pf \<and> (\<forall>q. q \<noteq> Pf_waitq pf \<longrightarrow> queues s' q = queues s q)"
proof -
  obtain m where m: "mmobjs s ob = Some m" "mmo_ops m = Anon_mmobj_ops" "0 < mmo_refcount m" using ob by (auto simp: live_anon_def)
  obtain pf addr where a: "slab_pframe X s = Some pf" "page_alloc X s = Some addr" "pframes s pf = None"
    using \<open>can_alloc X s\<close> by (auto simp: can_alloc_def)
  let ?p = "\<lparr>pf_obj = Some ob, pf_pagenum = n, pf_busy = False, pf_dirty = False, pf_pincount = 0, pf_addr = addr,
     pf_data = replicate (PAGE_SIZE C) 0\<rparr>"
  obtain s' where g: "pframe_get E C X (obj_table E C X T) ob n s = Some ((0, Some pf), s')"
    and s': "pframes s' = (pframes s)(pf \<mapsto> ?p)" "pframe_hash s' = pframe_hash (enter C pf ob n ?p s)"
      "queues s' = (queues s)(Pf_waitq pf := \<lparr>tq_list = [], tq_size = 0\<rparr>)"
      "mmobjs s' = (mmobjs s)(ob \<mapsto> m\<lparr>mmo_refcount := mmo_refcount m + 1, mmo_nrespages := mmo_nrespages m + 1, mmo_respages := pf # mmo_respages m\<rparr>)"
    using m a new
    by (simp add: pframe_get_def pframe_get_resident_eq [OF ok] pframe_alloc_def pframe_fill_def obj_table_def
        anon_ref_def anon_fillpage_def pframe_pin_def pframe_unpin_def pframe_is_free_def pframe_is_pinned_def pf_upd_def obj_upd_def add_nrespages_def sched_queue_init_def
        broadcast_empty Let_def enter_def)
  have id: "identity ?p ob n" by (simp add: identity_def)
  have "hash_ok C s'" by (rule hash_ok_enter [OF ok a(3) new id]) (simp_all add: s' enter_def)
  moreover have "links s' = links s" using m by (intro links_same) (auto simp: s'(4))
  ultimately show ?thesis using g s'(1,3) a(3) id by (intro exI conjI) (assumption | simp add: unwatched_def)+
qed

subsection \<open>Looking up a page\<close>

text \<open>
  \<open>same_shown C s s'\<close>: the cache is still well-formed, the objects are linked as before, and every chain
  shows what it showed.
\<close>

definition same_shown :: "mconf \<Rightarrow> 'a vm_st_scheme \<Rightarrow> 'a vm_st_scheme \<Rightarrow> bool" where
  "same_shown C s s' \<longleftrightarrow> hash_ok C s' \<and> links s' = links s \<and> (\<forall>os k. chain s os \<longrightarrow> contents C s' os k = contents C s os k)"

definition idle :: "'a vm_st_scheme \<Rightarrow> bool" where
  "idle s \<longleftrightarrow> (\<forall>pf p. pframes s pf = Some p \<longrightarrow> \<not> pf_busy p)"

lemma contents_cong: "pdata C s' = pdata C s \<Longrightarrow> contents C s' = contents C s"
  by (intro ext) (simp add: contents_def)

lemma pdata_cong: "pframes s = pframes s' \<Longrightarrow> pframe_hash s = pframe_hash s' \<Longrightarrow> pdata C s = pdata C s'"
  using frame_of_cong [of s s' C] by (simp add: fun_eq_iff pdata_def frame_data_def [abs_def])

lemma same_shown_touch: "hash_ok C s \<Longrightarrow> same_shown C s (touch r s)"
  using contents_cong [OF pdata_cong [of "touch r s" s C]] hash_ok_cong [of "touch r s" s C]
  by (simp add: same_shown_def links_def fun_eq_iff)

lemma contents_copy:
  assumes "pdata C s ob n = None" "chain s (ob # rest)" "chain s os"
    and "pdata C s' = (pdata C s)(ob := (pdata C s ob)(n \<mapsto> contents C s rest n))"
  shows "contents C s' os k = contents C s os k"
  using shown_copy [of "pdata C s" ob n s rest os, OF assms(1-3)] unfolding contents_def assms(4) by simp

lemma frame_data_contents:
  assumes "hash_ok C s" "frame_of C s ob n = Some pf"
  obtains p where "pframes s pf = Some p" "identity p ob n" "contents C s (ob # obs) n = pf_data p"
  using assms frame_of_iff [OF assms(1)] by (auto simp: contents_def pdata_def frame_data_def)

lemma anon_get:
  assumes ok: "hash_ok C s" and "idle s" and ob: "live_anon s ob" "chain s [ob]" and "can_alloc X s"
  shows "\<exists>pf p s'. pframe_get E C X (obj_table E C X T) ob n s = Some ((0, Some pf), s') \<and> pframes s' pf = Some p
     \<and> identity p ob n \<and> \<not> pf_busy p \<and> pf_data p = contents C s [ob] n \<and> same_shown C s s' \<and> ((\<forall>x. unwatched s x) \<longrightarrow> unwatched s' pf)"
proof (cases "frame_of C s ob n")
  case None
  from anon_get_new [OF ok None ob(1) assms(5)] obtain pf p s' where
    g: "pframe_get E C X (obj_table E C X T) ob n s = Some ((0, Some pf), s')" and new: "pframes s pf = None"
    and s': "pframes s' = (pframes s)(pf \<mapsto> p)" "hash_ok C s'" "links s' = links s"
    and p: "identity p ob n" "pf_data p = replicate (PAGE_SIZE C) 0" "\<not> pf_busy p" "unwatched s' pf" by blast
  have nd: "pdata C s ob n = None" by (simp add: pdata_def None)
  then have z: "contents C s [] n = pf_data p" "contents C s [ob] n = pf_data p" by (simp_all add: contents_def p(2))
  have "pdata C s' = (pdata C s)(ob := (pdata C s ob)(n \<mapsto> contents C s [] n))"
    unfolding z(1) by (rule pdata_upd [OF ok s'(2,1) p(1)]) (simp add: new)
  from contents_copy [OF nd ob(2) _ this] have "same_shown C s s'" using s' by (simp add: same_shown_def)
  with g s'(1) p z(2) show ?thesis by (intro exI conjI) (assumption | simp)+
next
  case (Some pf)
  obtain p where p: "pframes s pf = Some p" "identity p ob n" "contents C s [ob] n = pf_data p" using frame_data_contents [OF ok Some] .
  with \<open>idle s\<close> have "\<not> pf_busy p" by (simp add: idle_def)
  moreover from this p(1) have "pframe_get E C X (obj_table E C X T) ob n s = Some ((0, Some pf), touch (Some pf) s)"
    by (simp add: pframe_get_def pframe_get_resident_eq [OF ok] Some)
  ultimately show ?thesis using p same_shown_touch [OF ok] by (intro exI conjI) (assumption | simp)+
qed

end
