(* ===== verification/Vm_Shadow.thy ===== *)
theory Vm_Shadow
  imports Vm_Cache
begin

section \<open>Copy on write\<close>

text \<open>
  The page lookups of shadow objects, for reading and for writing, on a chain of shadow objects that ends
  in an anonymous object.
\<close>

subsection \<open>Reading\<close>

definition shadow_chain :: "'a vm_st_scheme \<Rightarrow> ptr \<Rightarrow> ptr list \<Rightarrow> bool" where
  "shadow_chain s ob obs \<longleftrightarrow> chain s (ob # obs) \<and> obs \<noteq> [] \<and> live_anon s (last obs) \<and>
     (\<exists>m. mmobjs s ob = Some m \<and> mmo_ops m = Shadow_mmobj_ops \<and> 0 < mmo_refcount m \<and> mmo_un m = Mmo_bottom_obj (Some (last obs)))"

lemma shadow_chainE:
  assumes "shadow_chain s ob obs"
  obtains m b obs' where "chain s (ob # obs)" "obs = b # obs'" "live_anon s (last obs)" "chain s [last obs]"
    "mmobjs s ob = Some m" "mmo_ops m = Shadow_mmobj_ops" "mmo_shadowed m = Some b" "0 < mmo_refcount m"
    "mmo_un m = Mmo_bottom_obj (Some (last obs))"
proof -
  from assms obtain m where m: "chain s (ob # obs)" "live_anon s (last obs)" "mmobjs s ob = Some m" "mmo_ops m = Shadow_mmobj_ops"
    "0 < mmo_refcount m" "mmo_un m = Mmo_bottom_obj (Some (last obs))" and "obs \<noteq> []" by (auto simp: shadow_chain_def)
  from \<open>obs \<noteq> []\<close> obtain b obs' where o: "obs = b # obs'" by (cases obs) auto
  have "ob # obs = (ob # butlast obs) @ last obs # []" using \<open>obs \<noteq> []\<close> by simp
  then have "chain s [last obs]" using m(1) chain_suffix by metis
  moreover have "mmo_shadowed m = Some b" using m(1,3) by (simp add: o)
  ultimately show thesis using that m o by blast
qed

lemma nearest_last:
  assumes "obs \<noteq> []"
  shows "nearest C s (ob # obs) n = (case nearest C s (ob # butlast obs) n of None \<Rightarrow> nearest C s [last obs] n | Some pf \<Rightarrow> Some pf)"
proof -
  have "ob # obs = (ob # butlast obs) @ [last obs]" using assms by simp
  then show ?thesis using nearest_append by metis
qed

lemma shadow_read:
  assumes ok: "hash_ok C s" and "idle s" and sc: "shadow_chain s ob obs" and al: "can_alloc X s"
  shows "\<exists>pf p s'. olookuppage (obj_ops_n E C X (Suc (Suc (Suc d)))) ob n False s = Some ((0, Some pf), s') \<and> pframes s' pf = Some p
     \<and> (\<exists>o' \<in> set (ob # obs). identity p o' n) \<and> pf_data p = contents C s (ob # obs) n \<and> same_shown C s s'"
proof -
  obtain m b obs' where ch: "chain s (ob # obs)" and obs: "obs = b # obs'" and la: "live_anon s (last obs)" "chain s [last obs]"
    and m: "mmobjs s ob = Some m" "mmo_ops m = Shadow_mmobj_ops" "mmo_shadowed m = Some b" using sc by (rule shadow_chainE)
  have "obs \<noteq> []" by (simp add: obs)
  note nl = nearest_last [OF this, of C s ob n]
  let ?T = "obj_ops_n E C X (Suc (Suc d))"
  have run: "olookuppage (obj_ops_n E C X (Suc (Suc (Suc d)))) ob n False s = shadow_lookuppage E C X ?T ob n False s"
    using m by (simp add: obj_table_def)
  note find = shadow_find_chain [OF ok ch [unfolded obs], of n, folded obs]
  show ?thesis
  proof (cases "nearest C s (ob # butlast obs) n")
    case (Some pf)
    with nl have near: "nearest C s (ob # obs) n = Some pf" by simp
    obtain o' p where p: "o' \<in> set (ob # obs)" "pframes s pf = Some p" "identity p o' n" using nearest_frame [OF ok near] by metis
    have "pf_data p = contents C s (ob # obs) n" by (simp only: contents_nearest near) (simp add: frame_data_def p)
    moreover have "shadow_lookuppage E C X ?T ob n False s = Some ((0, Some pf), touch (Some pf) s)"
      unfolding shadow_lookuppage_def by (simp add: m find Some del: obj_ops_n.simps nearest.simps)
    ultimately show ?thesis unfolding run using p same_shown_touch [OF ok] by (intro exI conjI) (assumption | simp | blast)+
  next
    case None
    obtain pf p s' where g: "pframe_get E C X (obj_ops_n E C X (Suc d)) (last obs) n s = Some ((0, Some pf), s')"
      and p: "pframes s' pf = Some p" "identity p (last obs) n" "\<not> pf_busy p" "pf_data p = contents C s [last obs] n" "same_shown C s s'"
      using anon_get [OF ok \<open>idle s\<close> la al, of E "obj_ops_n E C X d" n] by auto
    have "pframe_lookup ?T (last obs) n False s = Some ((0, Some pf), s')"
      using la(1) g by (auto simp: live_anon_def pframe_lookup_def obj_table_def anon_lookuppage_def)
    with p have "shadow_lookuppage E C X ?T ob n False s = Some ((0, Some pf), s')"
      unfolding shadow_lookuppage_def by (simp add: m find None identity_def del: obj_ops_n.simps nearest.simps)
    moreover have "contents C s (ob # obs) n = contents C s [last obs] n" by (simp only: contents_nearest nl None option.case)
    moreover have "last obs \<in> set (ob # obs)" by (simp add: obs)
    ultimately show ?thesis unfolding run using p by (intro exI conjI) (assumption | simp | blast)+
  qed
qed

subsection \<open>Writing\<close>

definition put :: "(ptr \<Rightarrow> u32 \<Rightarrow> 8 word list option) \<Rightarrow> ptr \<Rightarrow> u32 \<Rightarrow> 8 word list \<Rightarrow> ptr \<Rightarrow> u32 \<Rightarrow> 8 word list option" where
  "put D ob n d = D(ob := (D ob)(n \<mapsto> d))"

lemma pin_copy:
  assumes "pframes s pf = Some p" "pf_obj p \<noteq> None" "pf_pincount p = 0" "pframes s t = Some q" "t \<noteq> pf"
  shows "\<exists>s'. do { s \<leftarrow> pframe_pin pf s; s \<leftarrow> copy_page pf t s; Some (0 :: int, s) } = Some (0, s')
     \<and> pframes s' = (pframes s)(pf \<mapsto> p\<lparr>pf_pincount := 1, pf_data := pf_data q\<rparr>) \<and> pframe_hash s' = pframe_hash s
     \<and> mmobjs s' = mmobjs s \<and> queues s' = queues s"
  using assms by (simp add: pframe_pin_def copy_page_def pf_upd_def pframe_is_free_def pframe_is_pinned_def Let_def)

lemma pin_copy_data:
  assumes ok: "hash_ok C s" and p: "pframes s pf = Some p" "identity p ob n" and d: "d = pf_data q"
    and s': "pframes s' = (pframes s)(pf \<mapsto> p\<lparr>pf_pincount := 1, pf_data := pf_data q\<rparr>)" "pframe_hash s' = pframe_hash s"
  shows "hash_ok C s' \<and> pdata C s' = put (pdata C s) ob n d"
proof -
  have h: "hash_ok C s'" by (rule hash_ok_modify [OF ok p(1) _ _ s']) simp_all
  show ?thesis using pdata_upd [OF ok h s'(1), of ob n] p by (simp add: h put_def d identity_def)
qed

lemma shadow_fill:
  assumes ok: "hash_ok C s" and sc: "shadow_chain s ob obs" and p: "pframes s pf = Some p" "identity p ob n" "pf_busy p" "pf_pincount p = 0"
    and al: "can_alloc X s"
  shows "\<exists>s'. shadow_fillpage C (obj_ops_n E C X (Suc (Suc d))) ob pf s = Some (0, s') \<and> hash_ok C s' \<and> links s' = links s
     \<and> pframes s' pf = Some (p\<lparr>pf_pincount := 1, pf_data := contents C s obs n\<rparr>)
     \<and> queues s' (Pf_waitq pf) = queues s (Pf_waitq pf)
     \<and> (pdata C s' = put (pdata C s) ob n (contents C s obs n)
        \<or> pdata C s (last obs) n = None \<and> pdata C s' = put (put (pdata C s) (last obs) n (contents C s [] n)) ob n (contents C s obs n))"
proof -
  let ?T = "obj_ops_n E C X (Suc (Suc d))"
  obtain m b obs' where ch: "chain s (ob # obs)" and obs: "obs = b # obs'" and la: "live_anon s (last obs)" "chain s [last obs]"
    and m: "mmobjs s ob = Some m" "mmo_un m = Mmo_bottom_obj (Some (last obs))" using sc by (rule shadow_chainE)
  have pn: "pf_pagenum p = n" "pf_obj p \<noteq> None" using p(2) by (auto simp: identity_def)
  note src = shadow_source_chain [OF ok ch, of n]
  show ?thesis
  proof (cases "nearest C s obs n")
    case (Some t)
    then obtain o' q where q: "o' \<in> set obs" "pframes s t = Some q" "identity q o' n" using nearest_frame [OF ok] by metis
    have "ob \<notin> set obs" using chain_distinct [OF ch] by simp
    then have "t \<noteq> pf" using p q by (auto simp: identity_def)
    from pin_copy [of "touch (Some t) s" pf p t q] p q pn this obtain s' where
      r: "do { s \<leftarrow> pframe_pin pf (touch (Some t) s); s \<leftarrow> copy_page pf t s; Some (0 :: int, s) } = Some (0, s')"
      and s': "pframes s' = (pframes s)(pf \<mapsto> p\<lparr>pf_pincount := 1, pf_data := pf_data q\<rparr>)" "pframe_hash s' = pframe_hash s"
        "mmobjs s' = mmobjs s" "queues s' = queues s" by auto
    have c: "contents C s obs n = pf_data q" by (simp only: contents_nearest Some) (simp add: frame_data_def q)
    have "shadow_fillpage C ?T ob pf s = Some (0, s')" unfolding shadow_fillpage_def
      using p r by (simp add: src Some pn pframe_is_pinned_def del: obj_ops_n.simps)
    moreover have "links s' = links s" by (simp add: links_def fun_eq_iff s'(3))
    ultimately show ?thesis using pin_copy_data [OF ok p(1,2) c s'(1,2)] s' c by auto
  next
    case None
    then have nf: "frame_of C s (last obs) n = None" using obs nearest_append [of C s "butlast obs" "[last obs]" n]
      by (auto split: option.split_asm)
    obtain t q s1 where g: "pframe_get E C X (obj_ops_n E C X (Suc d)) (last obs) n s = Some ((0, Some t), s1)"
      and s1: "pframes s t = None" "pframes s1 = (pframes s)(t \<mapsto> q)" "hash_ok C s1" "links s1 = links s" "identity q (last obs) n"
        "pf_data q = replicate (PAGE_SIZE C) 0" "\<forall>w. w \<noteq> Pf_waitq t \<longrightarrow> queues s1 w = queues s w"
      using anon_get_new [OF ok nf la(1) al, of E "obj_ops_n E C X d"] by auto
    have c: "contents C s obs n = pf_data q" "contents C s [] n = pf_data q" by (simp_all only: contents_nearest None s1) simp_all
    have t: "t \<noteq> pf" using s1(1) p(1) by auto
    have p1: "pframes s1 pf = Some p" "pframes s1 t = Some q" using s1(2) t p(1) by simp_all
    from pin_copy [OF p1(1) pn(2) p(4) p1(2) t] obtain s' where
      r: "do { s \<leftarrow> pframe_pin pf s1; s \<leftarrow> copy_page pf t s; Some (0 :: int, s) } = Some (0, s')"
      and s': "pframes s' = (pframes s1)(pf \<mapsto> p\<lparr>pf_pincount := 1, pf_data := pf_data q\<rparr>)" "pframe_hash s' = pframe_hash s1"
        "mmobjs s' = mmobjs s1" "queues s' = queues s1" by blast
    have "pframe_lookup ?T (last obs) n False s = Some ((0, Some t), s1)"
      using la(1) g by (auto simp: live_anon_def pframe_lookup_def obj_table_def anon_lookuppage_def)
    then have "shadow_fillpage C ?T ob pf s = Some (0, s')" unfolding shadow_fillpage_def
      using p r m by (simp add: src None pn pframe_is_pinned_def del: obj_ops_n.simps)
    moreover have "links s' = links s" using s1(4) by (simp add: links_def fun_eq_iff s'(3))
    moreover have "pdata C s1 = put (pdata C s) (last obs) n (pf_data q)"
      unfolding put_def by (rule pdata_upd [OF ok s1(3,2,5)]) (simp add: s1(1))
    moreover have "pdata C s (last obs) n = None" by (simp add: pdata_def nf)
    ultimately show ?thesis using pin_copy_data [OF s1(3) p1(1) p(2) c(1) s'(1,2)] s' c s1(7) t by auto
  qed
qed

lemma put_simps [simp]:
  "put (put D ob n d) ob n e = put D ob n e" "ob \<notin> set obs \<Longrightarrow> shown z (put D ob n d) obs k = shown z D obs k"
  "k \<noteq> n \<Longrightarrow> shown z (put D ob n d) obs k = shown z D obs k" "put D ob n d ob n = Some d" "a \<noteq> ob \<Longrightarrow> put D ob n d a = D a"
  by (simp_all add: put_def) ((induction obs; auto split: option.split)+)

lemma put_over: "a \<noteq> b \<Longrightarrow> put (put (put D b n x) a n y) b n z = put (put D a n y) b n z"
  by (simp add: put_def fun_upd_twist)

lemma pdata_modify:
  assumes ok: "hash_ok C s" and p: "pframes s pf = Some p" "pf_obj q = pf_obj p" "pf_pagenum q = pf_pagenum p" "pf_data q = pf_data p"
    and s': "pframes s' = (pframes s)(pf \<mapsto> q)" "pframe_hash s' = pframe_hash s"
  shows "hash_ok C s' \<and> pdata C s' = pdata C s"
proof -
  have h: "hash_ok C s'" by (rule hash_ok_modify [OF ok p(1-3) s'])
  obtain ob where ob: "pf_obj p = Some ob" using ok p(1) unfolding hash_ok_def by blast
  then have id: "identity p ob (pf_pagenum p)" by (simp add: identity_def)
  then have "pdata C s ob (pf_pagenum p) = Some (pf_data p)" using pdata_iff [OF ok] p(1) by blast
  moreover have "pdata C s' = (pdata C s)(ob := (pdata C s ob)(pf_pagenum p \<mapsto> pf_data q))"
    by (rule pdata_upd [OF ok h s'(1)]) (use p id in \<open>auto simp: identity_def\<close>)
  ultimately show ?thesis using h p(4) by (simp add: fun_upd_idem)
qed

text \<open>\<open>room X s\<close>: the allocators can serve two requests.\<close>

definition room :: "'a vm_st_scheme vm_ext \<Rightarrow> 'a vm_st_scheme \<Rightarrow> bool" where
  "room X s \<longleftrightarrow> (\<forall>s' pf. (\<forall>x. x \<noteq> pf \<longrightarrow> pframes s' x = pframes s x) \<longrightarrow> can_alloc X s')"

lemma shown_filled:
  assumes D: "D ob n = None" and ch: "chain s (ob # obs)" "chain s [last obs]" "chain s os" and ne: "obs \<noteq> []"
    and D': "D' = put D ob n (shown z D obs n) \<or> D (last obs) n = None \<and> D' = put (put D (last obs) n (shown z D [] n)) ob n (shown z D obs n)"
  shows "shown z D' os k = shown z D os k"
proof (cases "D' = put D ob n (shown z D obs n)")
  case True
  then show ?thesis using shown_copy [of D ob n s obs os, OF D ch(1,3)] by (simp add: put_def)
next
  case False
  let ?D = "put D (last obs) n (shown z D [] n)"
  from False D' have bot: "D (last obs) n = None" and D': "D' = put ?D ob n (shown z D obs n)" by auto
  have same: "shown z ?D xs k = shown z D xs k" if "chain s xs" for xs k
    using shown_copy [of D "last obs" n s "[]" xs, OF bot ch(2) that] by (simp add: put_def)
  have "last obs \<noteq> ob" using chain_distinct [OF ch(1)] ne by auto
  then have "?D ob n = None" using D by simp
  from shown_copy [of ?D ob n s obs os, OF this ch(1,3), of z k] same [OF ch(3)] same [of obs n] ch(1) ne show ?thesis
    by (cases obs) (auto simp: D' put_def)
qed

lemma shadow_get_run:
  assumes ok: "hash_ok C s" and new: "frame_of C s ob n = None"
    and m: "mmobjs s ob = Some m" "mmo_ops m = Shadow_mmobj_ops" "0 < mmo_refcount m"
    and a: "slab_pframe X s = Some pf" "page_alloc X s = Some addr" "pframes s pf = None"
  defines "p \<equiv> \<lparr>pf_obj = Some ob, pf_pagenum = n, pf_busy = True, pf_dirty = False, pf_pincount = 0, pf_addr = addr, pf_data = []\<rparr>"
  shows "\<exists>s1. pframes s1 = (pframes s)(pf \<mapsto> p) \<and> pframe_hash s1 = pframe_hash (enter C pf ob n p s)
     \<and> queues s1 = (queues s)(Pf_waitq pf := \<lparr>tq_list = [], tq_size = 0\<rparr>)
     \<and> mmobjs s1 = (mmobjs s)(ob \<mapsto> m\<lparr>mmo_refcount := mmo_refcount m + 1, mmo_nrespages := mmo_nrespages m + 1, mmo_respages := pf # mmo_respages m\<rparr>)
     \<and> (\<forall>s2 q. shadow_fillpage C T ob pf s1 = Some (0, s2) \<longrightarrow> pframes s2 pf = Some q \<longrightarrow> queues s2 (Pf_waitq pf) = queues s1 (Pf_waitq pf) \<longrightarrow>
        pframe_get E C X (obj_table E C X T) ob n s = Some ((0, Some pf), s2\<lparr>pframes := (pframes s2)(pf \<mapsto> q\<lparr>pf_busy := False\<rparr>)\<rparr>))"
proof -
  obtain s0 where al: "pframe_alloc C X (obj_table E C X T) ob n s = Some (Some pf, s0)"
    and s0: "pframes s0 = (pframes s)(pf \<mapsto> p\<lparr>pf_busy := False\<rparr>)" "pframe_hash s0 = pframe_hash (enter C pf ob n p s)"
      "queues s0 = (queues s)(Pf_waitq pf := \<lparr>tq_list = [], tq_size = 0\<rparr>)"
      "mmobjs s0 = (mmobjs s)(ob \<mapsto> m\<lparr>mmo_refcount := mmo_refcount m + 1, mmo_nrespages := mmo_nrespages m + 1, mmo_respages := pf # mmo_respages m\<rparr>)"
    using m a by (simp add: pframe_alloc_def obj_table_def p_def shadow_ref_def obj_upd_def add_nrespages_def sched_queue_init_def Let_def enter_def)
  let ?s1 = "s0\<lparr>pframes := (pframes s0)(pf \<mapsto> p)\<rparr>"
  have fill: "pframe_fill (obj_table E C X T) pf s0 = Some (0, s2\<lparr>pframes := (pframes s2)(pf \<mapsto> q\<lparr>pf_busy := False\<rparr>)\<rparr>)"
    if "shadow_fillpage C T ob pf ?s1 = Some (0, s2)" "pframes s2 pf = Some q" "queues s2 (Pf_waitq pf) = queues ?s1 (Pf_waitq pf)" for s2 q
    using that m by (simp add: pframe_fill_def pf_upd_def obj_table_def s0 p_def broadcast_empty)
  have "pframe_get E C X (obj_table E C X T) ob n s = Some ((0, Some pf), s2\<lparr>pframes := (pframes s2)(pf \<mapsto> q\<lparr>pf_busy := False\<rparr>)\<rparr>)"
    if "shadow_fillpage C T ob pf ?s1 = Some (0, s2)" "pframes s2 pf = Some q" "queues s2 (Pf_waitq pf) = queues ?s1 (Pf_waitq pf)" for s2 q
    by (simp add: pframe_get_def pframe_get_resident_eq [OF ok] new al fill [OF that])
  then show ?thesis by (intro exI [of _ ?s1] conjI allI impI) (simp_all add: s0)
qed

lemma shadow_get_new:
  assumes ok: "hash_ok C s" and new: "frame_of C s ob n = None" and sc: "shadow_chain s ob obs" and rm: "room X s"
  shows "\<exists>pf p s'. pframe_get E C X (obj_ops_n E C X (Suc (Suc (Suc d)))) ob n s = Some ((0, Some pf), s') \<and> pframes s' pf = Some p
     \<and> identity p ob n \<and> \<not> pf_busy p \<and> pf_data p = contents C s (ob # obs) n \<and> same_shown C s s' \<and> unwatched s' pf"
proof -
  let ?T = "obj_ops_n E C X (Suc (Suc d))"
  obtain m b obs' where ch: "chain s (ob # obs)" "chain s [last obs]" and obs: "obs = b # obs'"
    and m: "mmobjs s ob = Some m" "mmo_ops m = Shadow_mmobj_ops" "0 < mmo_refcount m" using sc by (rule shadow_chainE)
  obtain pf addr where a: "slab_pframe X s = Some pf" "page_alloc X s = Some addr" "pframes s pf = None"
    using rm by (auto simp: room_def can_alloc_def)
  let ?p = "\<lparr>pf_obj = Some ob, pf_pagenum = n, pf_busy = True, pf_dirty = False, pf_pincount = 0, pf_addr = addr, pf_data = []\<rparr>"
  obtain s1 where s1: "pframes s1 = (pframes s)(pf \<mapsto> ?p)" "pframe_hash s1 = pframe_hash (enter C pf ob n ?p s)"
      "queues s1 = (queues s)(Pf_waitq pf := \<lparr>tq_list = [], tq_size = 0\<rparr>)"
      "mmobjs s1 = (mmobjs s)(ob \<mapsto> m\<lparr>mmo_refcount := mmo_refcount m + 1, mmo_nrespages := mmo_nrespages m + 1, mmo_respages := pf # mmo_respages m\<rparr>)"
    and run: "\<And>s2 q. shadow_fillpage C ?T ob pf s1 = Some (0, s2) \<Longrightarrow> pframes s2 pf = Some q \<Longrightarrow> queues s2 (Pf_waitq pf) = queues s1 (Pf_waitq pf) \<Longrightarrow>
        pframe_get E C X (obj_ops_n E C X (Suc (Suc (Suc d)))) ob n s = Some ((0, Some pf), s2\<lparr>pframes := (pframes s2)(pf \<mapsto> q\<lparr>pf_busy := False\<rparr>)\<rparr>)"
    using shadow_get_run [OF ok new m a, of ?T E] by auto
  have id: "identity ?p ob n" by (simp add: identity_def)
  have ok1: "hash_ok C s1" by (rule hash_ok_enter [OF ok a(3) new id]) (simp_all add: s1 enter_def)
  have l1: "links s1 = links s" using m by (intro links_same) (auto simp: s1(4))
  have sc1: "shadow_chain s1 ob obs" using sc m unfolding shadow_chain_def chain_cong [OF l1] by (auto simp: s1(4) live_anon_def)
  have al1: "can_alloc X s1" using rm by (auto simp: room_def s1(1))
  have d1: "pdata C s1 = put (pdata C s) ob n []" using pdata_upd [OF ok ok1 s1(1) id] a(3) by (simp add: put_def)
  have out: "ob \<notin> set obs" using chain_distinct [OF ch(1)] by simp
  have c1: "contents C s1 obs n = contents C s obs n" using out by (simp add: contents_def d1)
  have lob: "last obs \<noteq> ob" using out obs last_in_set [of obs] by blast
  from shadow_fill [OF ok1 sc1 _ id _ _ al1, of pf E d] s1(1) obtain s2 where
    f: "shadow_fillpage C ?T ob pf s1 = Some (0, s2)" "hash_ok C s2" "links s2 = links s1"
      "pframes s2 pf = Some (?p\<lparr>pf_pincount := 1, pf_data := contents C s obs n\<rparr>)" "queues s2 (Pf_waitq pf) = queues s1 (Pf_waitq pf)"
    and d2: "pdata C s2 = put (pdata C s1) ob n (contents C s obs n)
        \<or> pdata C s1 (last obs) n = None \<and> pdata C s2 = put (put (pdata C s1) (last obs) n (contents C s1 [] n)) ob n (contents C s obs n)"
    unfolding c1 by auto
  define s' where "s' = s2\<lparr>pframes := (pframes s2)(pf \<mapsto> ?p\<lparr>pf_pincount := 1, pf_data := contents C s obs n, pf_busy := False\<rparr>)\<rparr>"
  have mod: "hash_ok C s'" "pdata C s' = pdata C s2" using pdata_modify [OF f(2,4), of _ s'] by (simp_all add: s'_def)
  have nd: "pdata C s ob n = None" by (simp add: pdata_def new)
  have "contents C s' os k = contents C s os k" if "chain s os" for os k
    unfolding contents_def using nd ch that
  proof (rule shown_filled)
    show "obs \<noteq> []" by (simp add: obs)

    show "pdata C s' = put (pdata C s) ob n (shown (replicate (PAGE_SIZE C) 0) (pdata C s) obs n) \<or> pdata C s (last obs) n = None \<and>
        pdata C s' = put (put (pdata C s) (last obs) n (shown (replicate (PAGE_SIZE C) 0) (pdata C s) [] n)) ob n (shown (replicate (PAGE_SIZE C) 0) (pdata C s) obs n)"
      using d2 lob unfolding mod(2) d1 contents_def by (auto simp: put_over)
  qed
  moreover have "links s' = links s" using l1 f(3) by (simp add: links_def fun_eq_iff s'_def)
  moreover have "contents C s (ob # obs) n = contents C s obs n" by (simp add: contents_def nd)
  moreover have "unwatched s' pf" using f(5) by (simp add: unwatched_def s'_def s1(3))
  ultimately show ?thesis using run [OF f(1,4,5)] mod(1) unfolding same_shown_def
    by (intro exI [of _ pf] exI [of _ s'] exI conjI allI impI) (assumption | simp add: s'_def identity_def)+
qed

lemma shadow_write:
  assumes ok: "hash_ok C s" and sc: "shadow_chain s ob obs" and rm: "room X s"
  shows "\<exists>pf p s'. olookuppage (obj_ops_n E C X (Suc (Suc (Suc (Suc d))))) ob n True s = Some ((0, Some pf), s') \<and> pframes s' pf = Some p
     \<and> identity p ob n \<and> pf_data p = contents C s (ob # obs) n \<and> same_shown C s s'
     \<and> (idle s \<and> (\<forall>x. unwatched s x) \<longrightarrow> \<not> pf_busy p \<and> unwatched s' pf)"
proof -
  let ?T = "obj_ops_n E C X (Suc (Suc (Suc d)))"
  obtain m where m: "mmobjs s ob = Some m" "mmo_ops m = Shadow_mmobj_ops" using sc by (auto simp: shadow_chain_def)
  have run: "olookuppage (obj_ops_n E C X (Suc (Suc (Suc (Suc d))))) ob n True s = shadow_lookuppage E C X ?T ob n True s"
    using m by (simp add: obj_table_def)
  show ?thesis
  proof (cases "frame_of C s ob n")
    case (Some pf)
    obtain p where p: "pframes s pf = Some p" "identity p ob n" "contents C s (ob # obs) n = pf_data p" using frame_data_contents [OF ok Some] .
    have "shadow_lookuppage E C X ?T ob n True s = Some ((0, Some pf), touch (Some pf) s)"
      by (simp add: shadow_lookuppage_def pframe_get_resident_eq [OF ok] Some del: obj_ops_n.simps)
    then show ?thesis unfolding run using p same_shown_touch [OF ok] by (intro exI conjI) (assumption | simp add: idle_def)+
  next
    case None
    from shadow_get_new [OF ok None sc rm, of E d] obtain pf p s1 where g: "pframe_get E C X ?T ob n s = Some ((0, Some pf), s1)"
      and p: "pframes s1 pf = Some p" "identity p ob n" "pf_data p = contents C s (ob # obs) n" and sh: "same_shown C s s1"
      and q: "\<not> pf_busy p" "unwatched s1 pf" by blast
    define s' where "s' = s1\<lparr>pframes := (pframes s1)(pf \<mapsto> p\<lparr>pf_dirty := True\<rparr>)\<rparr>"
    have "shadow_lookuppage E C X ?T ob n True s = Some ((0, Some pf), s')"
      using p by (simp add: shadow_lookuppage_def pframe_get_resident_eq [OF ok] None g shadow_dirtypage_def pf_upd_def s'_def del: obj_ops_n.simps)
    moreover have mod: "hash_ok C s' \<and> pdata C s' = pdata C s1"
      by (rule pdata_modify [OF _ p(1), of C "p\<lparr>pf_dirty := True\<rparr>"]) (use sh in \<open>simp_all add: same_shown_def s'_def\<close>)
    moreover have "links s' = links s1" by (simp add: links_def fun_eq_iff s'_def)
    then have "same_shown C s s'" using sh mod contents_cong [OF conjunct2 [OF mod]] by (simp add: same_shown_def)
    moreover have "pframes s' pf = Some (p\<lparr>pf_dirty := True\<rparr>)" "unwatched s' pf" using q(2) by (simp_all add: s'_def unwatched_def)
    ultimately show ?thesis unfolding run using p q(1) by (intro exI [of _ pf] exI conjI) (assumption | simp add: identity_def)+
  qed
qed

text \<open>What a store into a frame changes.\<close>

lemma store_shown:
  fixes d :: "8 word list"
  assumes ok: "hash_ok C s" and p: "pframes s pf = Some p" "identity p ob n"
  defines "s' \<equiv> s\<lparr>pframes := (pframes s)(pf \<mapsto> p\<lparr>pf_data := d\<rparr>)\<rparr>"
  shows "contents C s' (ob # obs) n = d" and "ob \<notin> set os \<or> k \<noteq> n \<Longrightarrow> contents C s' os k = contents C s os k"
proof -
  have "hash_ok C s'" by (rule hash_ok_modify [OF ok p(1), of "p\<lparr>pf_data := d\<rparr>"]) (simp_all add: s'_def)
  from pdata_upd [OF ok this, of pf "p\<lparr>pf_data := d\<rparr>" ob n] p have "pdata C s' = put (pdata C s) ob n d"
    by (simp add: s'_def put_def identity_def)
  then show "contents C s' (ob # obs) n = d" "ob \<notin> set os \<or> k \<noteq> n \<Longrightarrow> contents C s' os k = contents C s os k"
    by (auto simp: contents_def)
qed

subsection \<open>The properties\<close>

lemma vmdemo_hash: "hash_ok demo_mconf vmdemo"
  by (auto simp: hash_ok_def vmdemo_def identity_def)

lemma vmdemo_idle: "idle vmdemo"
  by (simp add: idle_def vmdemo_def)

lemma vmdemo_chain: "shadow_chain vmdemo 61 [60]" "chain vmdemo [60]"
  by (simp_all add: shadow_chain_def vmdemo_def live_anon_def demo_obj_def)

lemma vmdemo_room: "room demo_vm vmdemo"
proof -
  have "can_alloc demo_vm s'" if "\<forall>x. x \<noteq> pf \<longrightarrow> pframes s' x = pframes vmdemo x" for s' :: vm_st and pf
  proof -
    have "free_from (pframes s') 70 \<noteq> None"
    proof
      assume "free_from (pframes s') 70 = None"
      then have "pframes s' 71 \<noteq> None" "pframes s' 72 \<noteq> None" unfolding free_from_def find_None_iff by auto
      moreover have "pframes vmdemo 71 = None" "pframes vmdemo 72 = None" by (simp_all add: vmdemo_def)
      ultimately show False using that [rule_format, of 71] that [rule_format, of 72] by (cases "pf = 71") auto
    qed
    then show ?thesis using free_from_None by (auto simp: can_alloc_def demo_vm_def)
  qed
  then show ?thesis by (auto simp: room_def)
qed

text \<open>
  C6: A page lookup for writing in a shadow object returns a frame that belongs to that object and holds
  what the chain of objects showed as the page. It changes nothing of what any chain shows. A store into
  the frame is seen by the chain, and neither as another page nor by a chain without the object, such as
  that of the other process after a fork.
\<close>

theorem shadow_write_private:
  assumes "hash_ok C s" "shadow_chain s ob obs" "room X s"
  shows "\<exists>pf p s'. olookuppage (obj_ops_n E C X (Suc (Suc (Suc (Suc d))))) ob n True s = Some ((0, Some pf), s') \<and>
     pframes s' pf = Some p \<and> pf_obj p = Some ob \<and> pf_pagenum p = n \<and> pf_data p = contents C s (ob # obs) n \<and>
     hash_ok C s' \<and> (\<forall>os k. chain s os \<longrightarrow> chain s' os \<and> contents C s' os k = contents C s os k) \<and>
     (\<forall>bytes. contents C (s'\<lparr>pframes := (pframes s')(pf \<mapsto> p\<lparr>pf_data := bytes\<rparr>)\<rparr>) (ob # obs) n = bytes) \<and>
     (\<forall>bytes os k. chain s os \<longrightarrow> ob \<notin> set os \<or> k \<noteq> n \<longrightarrow>
        contents C (s'\<lparr>pframes := (pframes s')(pf \<mapsto> p\<lparr>pf_data := bytes\<rparr>)\<rparr>) os k = contents C s os k)"
proof -
  obtain pf p s' where g: "olookuppage (obj_ops_n E C X (Suc (Suc (Suc (Suc d))))) ob n True s = Some ((0, Some pf), s')"
    and p: "pframes s' pf = Some p" "identity p ob n" "pf_data p = contents C s (ob # obs) n" and sh: "same_shown C s s'"
    using shadow_write [OF assms, of E d n] by blast
  then have ok': "hash_ok C s'" "links s' = links s" by (simp_all add: same_shown_def)
  show ?thesis using g p sh ok' store_shown [OF ok'(1) p(1,2)] chain_cong [OF ok'(2)] unfolding same_shown_def
    by (intro exI conjI allI impI) (assumption | simp add: identity_def)+
qed

theorem shadow_write_private_witness:
  "\<exists>pf p s'. olookuppage (obj_ops_n errno_std demo_mconf demo_vm 4) 61 1 True vmdemo = Some ((0, Some pf), s') \<and>
     pframes s' pf = Some p \<and> pf_obj p = Some 61 \<and> pf_data p = [1, 2, 3, 4] \<and>
     contents demo_mconf (s'\<lparr>pframes := (pframes s')(pf \<mapsto> p\<lparr>pf_data := [9, 9, 9, 9]\<rparr>)\<rparr>) [60] 1 = [1, 2, 3, 4]"
proof -
  have "contents demo_mconf vmdemo [61, 60] 1 = [1, 2, 3, 4]" "contents demo_mconf vmdemo [60] 1 = [1, 2, 3, 4]" by code_simp+
  with shadow_write_private [OF vmdemo_hash vmdemo_chain(1) vmdemo_room, of errno_std 0 1] vmdemo_chain(2)
  show ?thesis by (fastforce simp: eval_nat_numeral simp del: obj_ops_n.simps)
qed

text \<open>
  C20: A page lookup for reading in a shadow object returns a frame of an object of its chain that holds what
  the chain shows as the page: the data of the nearest object that has the page, zeros when none has it.
  What any chain shows stays the same, although the page may have to be created at the bottom.
\<close>

theorem shadow_read_shown:
  assumes "hash_ok C s" "idle s" "shadow_chain s ob obs" "can_alloc X s"
  shows "\<exists>pf p s'. olookuppage (obj_ops_n E C X (Suc (Suc (Suc d)))) ob n False s = Some ((0, Some pf), s') \<and>
     pframes s' pf = Some p \<and> pf_pagenum p = n \<and> (\<exists>o' \<in> set (ob # obs). pf_obj p = Some o') \<and>
     pf_data p = (case nearest C s (ob # obs) n of None \<Rightarrow> replicate (PAGE_SIZE C) 0 | Some f \<Rightarrow> frame_data s f) \<and>
     hash_ok C s' \<and> (\<forall>os k. chain s os \<longrightarrow> chain s' os \<and> contents C s' os k = contents C s os k)"
proof -
  obtain pf p s' where g: "olookuppage (obj_ops_n E C X (Suc (Suc (Suc d)))) ob n False s = Some ((0, Some pf), s')"
    and p: "pframes s' pf = Some p" "\<exists>o' \<in> set (ob # obs). identity p o' n" "pf_data p = contents C s (ob # obs) n" and sh: "same_shown C s s'"
    using shadow_read [OF assms, of E d n] by blast
  then have l: "links s' = links s" "hash_ok C s'" by (simp_all add: same_shown_def)
  have "\<exists>o' \<in> set (ob # obs). pf_obj p = Some o'" "pf_pagenum p = n" using p(2) by (auto simp: identity_def)
  moreover have "\<forall>os k. chain s os \<longrightarrow> chain s' os \<and> contents C s' os k = contents C s os k"
    using sh chain_cong [OF l(1)] by (simp add: same_shown_def)
  ultimately show ?thesis using g p(1) p(3) [unfolded contents_nearest] l(2) by blast
qed

theorem shadow_read_shown_witness:
  "\<exists>pf p s'. olookuppage (obj_ops_n errno_std demo_mconf demo_vm 3) 61 5 False vmdemo = Some ((0, Some pf), s') \<and>
     pframes s' pf = Some p \<and> pf_data p = [0, 0, 0, 0] \<and> contents demo_mconf s' [61, 60] 1 = [1, 2, 3, 4]"
proof -
  have al: "can_alloc demo_vm vmdemo" using vmdemo_room by (simp add: room_def)
  have n: "nearest demo_mconf vmdemo [61, 60] 5 = None" "PAGE_SIZE demo_mconf = 4" "contents demo_mconf vmdemo [61, 60] 1 = [1, 2, 3, 4]" by code_simp+
  have ch: "chain vmdemo [61, 60]" using vmdemo_chain(1) by (simp add: shadow_chain_def)
  have "Suc (Suc (Suc 0)) = 3" by simp
  from shadow_read_shown [OF vmdemo_hash vmdemo_idle vmdemo_chain(1) al, of errno_std 0 5, unfolded this n option.case] ch n(3)
  show ?thesis by (fastforce simp: eval_nat_numeral simp del: obj_ops_n.simps nearest.simps chain.simps)
qed

end
