(* ===== verification/Vm_Fork.thy ===== *)
theory Vm_Fork
  imports Vm_Shadow
begin

section \<open>Forking an address space\<close>

text \<open>
  What \<^verbatim>\<open>do_fork\<close> does with a private area: parent and child get shadow objects of their own over the object
  they had in common. \<open>fork_ext\<close> is what is relied on of the code outside the repository: the slab allocator
  returns unused memory, twice, and the inline functions of \<^verbatim>\<open>mmobj.h\<close> set and follow the fields they are named after.
\<close>

definition fork_ext :: "'a vm_st_scheme vm_ext \<Rightarrow> 'a vm_st_scheme \<Rightarrow> bool" where
  "fork_ext X s \<longleftrightarrow> (\<forall>s' a. (\<forall>x. x \<noteq> a \<longrightarrow> (mmobjs s' x = None) = (mmobjs s x = None)) \<longrightarrow>
        (\<exists>ob. slab_shadow X s' = Some ob \<and> mmobjs s' ob = None))
     \<and> mmo_ops (mmobj_init X Shadow_mmobj_ops) = Shadow_mmobj_ops
     \<and> (\<forall>ob s m b. mmobjs s ob = Some m \<longrightarrow> mmo_shadowed m \<noteq> None \<longrightarrow> mmo_un m = Mmo_bottom_obj (Some b) \<longrightarrow> mmobj_bottom_obj X ob s = Some b)"

definition owned :: "'a vm_st_scheme \<Rightarrow> bool" where
  "owned s \<longleftrightarrow> (\<forall>pf p ob. pframes s pf = Some p \<longrightarrow> pf_obj p = Some ob \<longrightarrow> mmobjs s ob \<noteq> None)"

lemma fork_ext_bottom:
  assumes "fork_ext X s" "mmobjs s' ob = Some m" "mmo_shadowed m = Some o'" "mmo_un m = Mmo_bottom_obj (Some b)"
  shows "mmobj_bottom_obj X ob s' = Some b"
proof -
  have "mmo_shadowed m \<noteq> None" using assms(3) by simp
  with assms(1,2,4) show ?thesis unfolding fork_ext_def by blast
qed

lemma fork_shadow_run:
  assumes X: "fork_ext X s" and s1: "\<forall>x. x \<noteq> a \<longrightarrow> (mmobjs s1 x = None) = (mmobjs s x = None)"
    and m: "mmobjs s1 ob = Some m" "mmo_un m = Mmo_bottom_obj (Some b)"
  shows "\<exists>sh w. mmobjs s1 sh = None \<and> fork_shadow X ob s1 = Some (sh, s1\<lparr>mmobjs := (mmobjs s1)(sh \<mapsto> w)\<rparr>)
     \<and> mmo_ops w = Shadow_mmobj_ops \<and> mmo_refcount w = 1 \<and> mmo_shadowed w = Some ob \<and> mmo_un w = Mmo_bottom_obj (Some b)"
proof -
  from X s1 obtain sh where sh: "slab_shadow X s1 = Some sh" "mmobjs s1 sh = None" unfolding fork_ext_def by blast
  moreover from sh m have "sh \<noteq> ob" by auto
  moreover have "mmo_ops (mmobj_init X Shadow_mmobj_ops) = Shadow_mmobj_ops" using X by (simp add: fork_ext_def)
  ultimately show ?thesis using m
    by (intro exI [of _ sh] exI [of _ "(mmobj_init X Shadow_mmobj_ops)\<lparr>mmo_refcount := 1, mmo_shadowed := Some ob, mmo_un := Mmo_bottom_obj (Some b)\<rparr>"])
       (simp add: fork_shadow_def shadow_create_def obj_upd_def)
qed

lemma fork_private_run:
  assumes X: "fork_ext X s" and cv: "vmareas s c = Some cv" "vma_flags cv AND MAP_PRIVATE C \<noteq> 0"
    and v: "vmmap_lookup mp (vma_start cv) s = Some (Some a)" "vmareas s a = Some v" "vma_obj v = Some ob" "a \<noteq> c"
    and sc: "shadow_chain s ob obs" and b: "mmobjs s (last obs) = Some mb" "mmo_un mb = Mmo_vmas vs"
  shows "\<exists>s' p q mp' mq m'. fork_area C X (obj_ops_n E C X (Suc d)) mp c s = Some s' \<and> p \<noteq> q \<and> mmobjs s p = None \<and> mmobjs s q = None
     \<and> vmareas s' = (vmareas s)(a \<mapsto> v\<lparr>vma_obj := Some p\<rparr>, c \<mapsto> cv\<lparr>vma_obj := Some q\<rparr>)
     \<and> mmobjs s' = (mmobjs s)(ob \<mapsto> m', p \<mapsto> mp', q \<mapsto> mq, last obs \<mapsto> mb\<lparr>mmo_un := Mmo_vmas (vs @ [c])\<rparr>)
     \<and> (\<exists>m. mmobjs s ob = Some m \<and> m' = m\<lparr>mmo_refcount := mmo_refcount m + 1\<rparr>)
     \<and> (\<forall>w \<in> {mp', mq}. mmo_ops w = Shadow_mmobj_ops \<and> mmo_refcount w = 1 \<and> mmo_shadowed w = Some ob \<and> mmo_un w = Mmo_bottom_obj (Some (last obs)))
     \<and> pframes s' = pframes s \<and> pframe_hash s' = pframe_hash s"
proof -
  obtain m b' obs' where ch: "chain s (ob # obs)" and obs: "obs = b' # obs'"
    and m: "mmobjs s ob = Some m" "mmo_ops m = Shadow_mmobj_ops" "0 < mmo_refcount m" "mmo_un m = Mmo_bottom_obj (Some (last obs))"
    using sc by (rule shadow_chainE)
  let ?m = "m\<lparr>mmo_refcount := mmo_refcount m + 1\<rparr>"
  let ?s1 = "s\<lparr>mmobjs := (mmobjs s)(ob \<mapsto> ?m)\<rparr>"
  have ref: "oref (obj_ops_n E C X (Suc d)) ob s = Some ?s1" using m by (simp add: obj_table_def shadow_ref_def obj_upd_def)
  have lob: "last obs \<noteq> ob" using b m(4) m(1) by auto
  have d1: "\<forall>x. x \<noteq> ob \<longrightarrow> (mmobjs ?s1 x = None) = (mmobjs s x = None)" and un: "mmo_un ?m = Mmo_bottom_obj (Some (last obs))"
    and m1: "mmobjs ?s1 ob = Some ?m" using m(4) by simp_all
  obtain p wp where p: "mmobjs ?s1 p = None" "fork_shadow X ob ?s1 = Some (p, ?s1\<lparr>mmobjs := (mmobjs ?s1)(p \<mapsto> wp)\<rparr>)"
    and wp: "mmo_ops wp = Shadow_mmobj_ops" "mmo_refcount wp = 1" "mmo_shadowed wp = Some ob" "mmo_un wp = Mmo_bottom_obj (Some (last obs))"
    using fork_shadow_run [OF X d1 m1 un] by blast
  let ?s2 = "?s1\<lparr>mmobjs := (mmobjs ?s1)(p \<mapsto> wp)\<rparr>"
  have pob: "p \<noteq> ob" "p \<noteq> last obs" using p(1) m(1) b(1) by (auto split: if_split_asm)
  have d2: "\<forall>x. x \<noteq> p \<longrightarrow> (mmobjs ?s2 x = None) = (mmobjs s x = None)" and m2: "mmobjs ?s2 ob = Some ?m" using m(1) pob by auto
  obtain q wq where q: "mmobjs ?s2 q = None" "fork_shadow X ob ?s2 = Some (q, ?s2\<lparr>mmobjs := (mmobjs ?s2)(q \<mapsto> wq)\<rparr>)"
    and wq: "mmo_ops wq = Shadow_mmobj_ops" "mmo_refcount wq = 1" "mmo_shadowed wq = Some ob" "mmo_un wq = Mmo_bottom_obj (Some (last obs))"
    using fork_shadow_run [OF X d2 m2 un] by blast
  let ?s3 = "?s2\<lparr>mmobjs := (mmobjs ?s2)(q \<mapsto> wq)\<rparr>"
  have qob: "q \<noteq> ob" "q \<noteq> p" "q \<noteq> last obs" using q(1) m(1) b(1) by (auto split: if_split_asm)
  let ?s4 = "?s3\<lparr>vmareas := (vmareas s)(a \<mapsto> v\<lparr>vma_obj := Some p\<rparr>, c \<mapsto> cv\<lparr>vma_obj := Some q\<rparr>)\<rparr>"
  have "mmobjs ?s4 p = Some wp" using qob by simp
  then have "mmobj_bottom_obj X p ?s4 = Some (last obs)" by (rule fork_ext_bottom [OF X _ wp(3,4)])
  moreover have "mmobjs ?s4 (last obs) = Some mb" using b(1) lob pob qob by simp
  ultimately have bot: "mmobj_bottom_vmas X p ?s4 = Some (last obs, vs)"
    and add: "add_vma (\<lambda>vs. vs @ [c]) (last obs) ?s4 = Some (?s4\<lparr>mmobjs := (mmobjs ?s4)(last obs \<mapsto> mb\<lparr>mmo_un := Mmo_vmas (vs @ [c])\<rparr>)\<rparr>)"
    using b(2) by (simp_all add: mmobj_bottom_vmas_def add_vma_def obj_upd_def)
  have "fork_area C X (obj_ops_n E C X (Suc d)) mp c s = Some (?s4\<lparr>mmobjs := (mmobjs ?s4)(last obs \<mapsto> mb\<lparr>mmo_un := Mmo_vmas (vs @ [c])\<rparr>)\<rparr>)"
    using cv v p(2) q(2) bot add by (simp add: fork_area_def ref vma_upd_def fun_upd_twist del: obj_ops_n.simps)
  with p(1) q(1) wp wq pob qob m(1) show ?thesis
    by (intro exI [of _ "?s4\<lparr>mmobjs := (mmobjs ?s4)(last obs \<mapsto> mb\<lparr>mmo_un := Mmo_vmas (vs @ [c])\<rparr>)\<rparr>"] exI [of _ p] exI [of _ q] exI [of _ wp] exI [of _ wq] exI [of _ ?m])
       (auto split: if_split_asm)
qed

lemma chain_mono:
  assumes "\<And>x m. mmobjs s x = Some m \<Longrightarrow> \<exists>m'. mmobjs s' x = Some m' \<and> mmo_shadowed m' = mmo_shadowed m"
  shows "chain s obs \<Longrightarrow> chain s' obs"
  using assms by (induction obs rule: induct_list012) (simp, fastforce, fastforce)

lemma unowned_contents:
  assumes "hash_ok C s" "owned s" "mmobjs s ob = None"
  shows "contents C s (ob # obs) n = contents C s obs n"
proof -
  have "frame_of C s ob n \<noteq> Some pf" for pf using assms(2,3) unfolding frame_of_iff [OF assms(1)] owned_def identity_def by metis
  then have "pdata C s ob n = None" by (auto simp: pdata_def)
  then show ?thesis by (simp add: contents_def)
qed

text \<open>\<open>fork_pair\<close>: the state after a private area has been forked.\<close>

lemma fork_pair:
  assumes ok: "hash_ok C s" and ow: "owned s" and sc: "shadow_chain s ob obs" and new: "mmobjs s p = None" "mmobjs s q = None" "p \<noteq> q"
    and m: "mmobjs s ob = Some m" "m' = m\<lparr>mmo_refcount := mmo_refcount m + 1\<rparr>" and mb: "mmobjs s (last obs) = Some mb" "mmo_un mb = Mmo_vmas vs"
    and w: "\<forall>w \<in> {wp, wq}. mmo_ops w = Shadow_mmobj_ops \<and> mmo_refcount w = 1 \<and> mmo_shadowed w = Some ob \<and> mmo_un w = Mmo_bottom_obj (Some (last obs))"
    and s': "mmobjs s' = (mmobjs s)(ob \<mapsto> m', p \<mapsto> wp, q \<mapsto> wq, last obs \<mapsto> mb\<lparr>mmo_un := Mmo_vmas us\<rparr>)"
      "pframes s' = pframes s" "pframe_hash s' = pframe_hash s"
  shows "hash_ok C s' \<and> shadow_chain s' p (ob # obs) \<and> shadow_chain s' q (ob # obs) \<and> p \<notin> set (q # ob # obs) \<and> q \<notin> set (p # ob # obs)
     \<and> contents C s' (p # ob # obs) n = contents C s (ob # obs) n \<and> contents C s' (q # ob # obs) n = contents C s (ob # obs) n"
proof -
  have ch: "chain s (ob # obs)" "obs \<noteq> []" "live_anon s (last obs)" using sc by (simp_all add: shadow_chain_def)
  have ne: "p \<noteq> ob" "q \<noteq> ob" "p \<noteq> last obs" "q \<noteq> last obs" using new m(1) mb(1) by auto
  have lob: "last obs \<noteq> ob" using chain_distinct [OF ch(1)] ch(2) by auto
  have "\<exists>m'. mmobjs s' x = Some m' \<and> mmo_shadowed m' = mmo_shadowed k" if "mmobjs s x = Some k" for x k
    using that new m mb lob unfolding s'(1) by (auto split: if_split_asm)
  then have ch': "chain s' (ob # obs)" using chain_mono [OF _ ch(1)] by blast
  have mem: "mmobjs s x \<noteq> None" if x: "x \<in> set (ob # obs)" for x
  proof -
    obtain xs ys where "ob # obs = xs @ x # ys" using x by (meson in_set_conv_decomp)
    then have "chain s (x # ys)" using ch(1) chain_suffix by metis
    then show ?thesis by (cases ys) auto
  qed
  have out: "p \<notin> set (ob # obs)" "q \<notin> set (ob # obs)" using mem new(1,2) by blast+
  have mo: "mmobjs s' p = Some wp" "mmobjs s' q = Some wq" "mmobjs s' (last obs) = Some (mb\<lparr>mmo_un := Mmo_vmas us\<rparr>)"
    using ne new(3) by (simp_all add: s'(1))
  have "live_anon s' (last obs)" using ch(3) mo(3) mb(1) by (auto simp: live_anon_def)
  then have "shadow_chain s' p (ob # obs)" "shadow_chain s' q (ob # obs)" using mo(1,2) w ch' ch(2) by (simp_all add: shadow_chain_def)
  moreover have "hash_ok C s'" using ok hash_ok_cong [OF s'(2,3)] by simp
  moreover have "contents C s' = contents C s" by (rule contents_cong [OF pdata_cong [OF s'(2,3)]])
  ultimately show ?thesis using out new unowned_contents [OF ok ow] by simp
qed

text \<open>The example with a copy of the private area for a child.\<close>

definition fork_copy :: vmarea where
  "fork_copy = \<lparr>vma_start = 8, vma_end = 16, vma_off = 0, vma_prot = 3, vma_flags = 2, vma_vmmap = Some 31, vma_obj = None\<rparr>"

definition forkdemo :: vm_st where
  "forkdemo = vmdemo\<lparr>vmareas := (vmareas vmdemo)(42 \<mapsto> fork_copy)\<rparr>"

lemma forkdemo_same:
  "hash_ok demo_mconf forkdemo" "room demo_vm forkdemo" "shadow_chain forkdemo 61 [60]" "contents demo_mconf forkdemo = contents demo_mconf vmdemo"
  using vmdemo_hash vmdemo_room vmdemo_chain hash_ok_cong [of forkdemo vmdemo demo_mconf] contents_cong [OF pdata_cong [of forkdemo vmdemo demo_mconf]]
  by (simp_all add: forkdemo_def room_def shadow_chain_def live_anon_def)

lemma forkdemo_owned: "owned forkdemo"
  by (simp add: owned_def forkdemo_def vmdemo_def)

lemma forkdemo_ext: "fork_ext demo_vm forkdemo"
proof -
  have "\<exists>ob. free_from (mmobjs s') 60 = Some ob \<and> mmobjs s' ob = None"
    if "\<forall>x. x \<noteq> a \<longrightarrow> (mmobjs s' x = None) = (mmobjs forkdemo x = None)" for s' :: vm_st and a
  proof -
    have "free_from (mmobjs s') 60 \<noteq> None"
    proof
      assume "free_from (mmobjs s') 60 = None"
      then have "mmobjs s' 63 \<noteq> None" "mmobjs s' 64 \<noteq> None" unfolding free_from_def find_None_iff by auto
      moreover have "mmobjs forkdemo 63 = None" "mmobjs forkdemo 64 = None" by (simp_all add: forkdemo_def vmdemo_def)
      ultimately show False using that [rule_format, of 63] that [rule_format, of 64] by (cases "a = 63") auto
    qed
    then show ?thesis using free_from_None by auto
  qed
  then show ?thesis by (auto simp: fork_ext_def demo_vm_def demo_obj_def demo_bottom_def)
qed

text \<open>
  C2: do_fork gives parent and child their own view of a private area. After the area has been forked both
  of its copies show what it showed before; and when one of the two processes then looks up a page for
  writing and stores into the frame, it reads back what it stored, and the area of the other process
  still shows, as every page, what it showed before the fork.
\<close>

theorem fork_isolates:
  assumes "hash_ok C s" "owned s" "fork_ext X s" "room X s" "vmareas s c = Some cv" "vma_flags cv AND MAP_PRIVATE C \<noteq> 0"
    and "vmmap_lookup mp (vma_start cv) s = Some (Some a)" "vmareas s a = Some v" "vma_obj v = Some ob" "a \<noteq> c"
    and "shadow_chain s ob obs" "mmobjs s (last obs) = Some mb" "mmo_un mb = Mmo_vmas vs"
  shows "\<exists>s' p q. fork_area C X (obj_ops_n E C X (Suc d)) mp c s = Some s' \<and>
     vmareas s' = (vmareas s)(a \<mapsto> v\<lparr>vma_obj := Some p\<rparr>, c \<mapsto> cv\<lparr>vma_obj := Some q\<rparr>) \<and>
     (\<forall>x \<in> {p, q}. chain s' (x # ob # obs) \<and> (\<forall>n. contents C s' (x # ob # obs) n = contents C s (ob # obs) n)) \<and>
     (\<forall>x y n. (x, y) = (p, q) \<or> (x, y) = (q, p) \<longrightarrow>
        (\<exists>pf f s''. olookuppage (obj_ops_n E C X (Suc (Suc (Suc (Suc e))))) x n True s' = Some ((0, Some pf), s'') \<and> pframes s'' pf = Some f \<and>
           (\<forall>bytes. contents C (s''\<lparr>pframes := (pframes s'')(pf \<mapsto> f\<lparr>pf_data := bytes\<rparr>)\<rparr>) (x # ob # obs) n = bytes \<and>
              (\<forall>k. contents C (s''\<lparr>pframes := (pframes s'')(pf \<mapsto> f\<lparr>pf_data := bytes\<rparr>)\<rparr>) (y # ob # obs) k = contents C s (ob # obs) k))))"
proof -
  from fork_private_run [OF assms(3,5-13), of E d] obtain s' p q wp wq m' where
    run: "fork_area C X (obj_ops_n E C X (Suc d)) mp c s = Some s'" and new: "mmobjs s p = None" "mmobjs s q = None" "p \<noteq> q"
    and va: "vmareas s' = (vmareas s)(a \<mapsto> v\<lparr>vma_obj := Some p\<rparr>, c \<mapsto> cv\<lparr>vma_obj := Some q\<rparr>)"
    and mo: "mmobjs s' = (mmobjs s)(ob \<mapsto> m', p \<mapsto> wp, q \<mapsto> wq, last obs \<mapsto> mb\<lparr>mmo_un := Mmo_vmas (vs @ [c])\<rparr>)"
    and m: "\<exists>m. mmobjs s ob = Some m \<and> m' = m\<lparr>mmo_refcount := mmo_refcount m + 1\<rparr>"
    and w: "\<forall>w \<in> {wp, wq}. mmo_ops w = Shadow_mmobj_ops \<and> mmo_refcount w = 1 \<and> mmo_shadowed w = Some ob \<and> mmo_un w = Mmo_bottom_obj (Some (last obs))"
    and pf: "pframes s' = pframes s" "pframe_hash s' = pframe_hash s" by metis
  from m obtain m where m: "mmobjs s ob = Some m" "m' = m\<lparr>mmo_refcount := mmo_refcount m + 1\<rparr>" by blast
  note pair = fork_pair [OF assms(1,2,11) new m assms(12,13) w mo pf]
  have room: "room X s'" using assms(4) by (simp add: room_def pf(1))
  have wr: "\<exists>pf f s''. olookuppage (obj_ops_n E C X (Suc (Suc (Suc (Suc e))))) x n True s' = Some ((0, Some pf), s'') \<and> pframes s'' pf = Some f \<and>
       (\<forall>bytes. contents C (s''\<lparr>pframes := (pframes s'')(pf \<mapsto> f\<lparr>pf_data := bytes\<rparr>)\<rparr>) (x # ob # obs) n = bytes \<and>
          (\<forall>k. contents C (s''\<lparr>pframes := (pframes s'')(pf \<mapsto> f\<lparr>pf_data := bytes\<rparr>)\<rparr>) (y # ob # obs) k = contents C s (ob # obs) k))"
    if "(x, y) = (p, q) \<or> (x, y) = (q, p)" for x y n
  proof -
    have x: "shadow_chain s' x (ob # obs)" "chain s' (y # ob # obs)" "x \<notin> set (y # ob # obs)" "hash_ok C s'"
      and y: "\<And>k. contents C s' (y # ob # obs) k = contents C s (ob # obs) k" using that pair by (auto simp: shadow_chain_def)
    from shadow_write [OF x(4,1) room, of E e n] obtain pf f s'' where
      g: "olookuppage (obj_ops_n E C X (Suc (Suc (Suc (Suc e))))) x n True s' = Some ((0, Some pf), s'')"
      and f: "pframes s'' pf = Some f" "identity f x n" and sh: "same_shown C s' s''" by blast
    have "contents C s'' (y # ob # obs) k = contents C s (ob # obs) k" for k using sh x(2) y by (simp add: same_shown_def)
    moreover have "hash_ok C s''" using sh by (simp add: same_shown_def)
    ultimately show ?thesis using g f(1) store_shown [OF _ f] x(3) by (intro exI conjI allI) (assumption | simp)+
  qed
  have "\<forall>x \<in> {p, q}. chain s' (x # ob # obs) \<and> (\<forall>n. contents C s' (x # ob # obs) n = contents C s (ob # obs) n)"
    using pair by (simp add: shadow_chain_def)
  with run va wr show ?thesis by blast
qed

theorem fork_isolates_witness:
  "\<exists>s' p q pf f s''. fork_area demo_mconf demo_vm (obj_ops_n errno_std demo_mconf demo_vm 1) 30 42 forkdemo = Some s' \<and>
     contents demo_mconf s' [p, 61, 60] 1 = [1, 2, 3, 4] \<and>
     olookuppage (obj_ops_n errno_std demo_mconf demo_vm 4) p 1 True s' = Some ((0, Some pf), s'') \<and> pframes s'' pf = Some f \<and>
     contents demo_mconf (s''\<lparr>pframes := (pframes s'')(pf \<mapsto> f\<lparr>pf_data := [9, 9, 9, 9]\<rparr>)\<rparr>) [q, 61, 60] 1 = [1, 2, 3, 4]"
proof -
  have c: "contents demo_mconf forkdemo [61, 60] 1 = [1, 2, 3, 4]" unfolding forkdemo_same(4) by code_simp
  have cv: "vmareas forkdemo 42 = Some fork_copy" by (simp add: forkdemo_def)
  have fl: "vma_flags fork_copy AND MAP_PRIVATE demo_mconf \<noteq> 0" by code_simp
  have lk: "vmmap_lookup 30 (vma_start fork_copy) forkdemo = Some (Some 40)" by code_simp
  obtain v where v: "vmareas forkdemo 40 = Some v" "vma_obj v = Some 61" by (simp add: forkdemo_def vmdemo_def)
  obtain mb where mb: "mmobjs forkdemo (last [60]) = Some mb" "mmo_un mb = Mmo_vmas [40]" by (simp add: forkdemo_def vmdemo_def)
  have ne: "(40 :: ptr) \<noteq> 42" by simp
  obtain s' p q where r: "fork_area demo_mconf demo_vm (obj_ops_n errno_std demo_mconf demo_vm (Suc 0)) 30 42 forkdemo = Some s'"
    and p: "\<forall>x \<in> {p, q}. chain s' (x # 61 # [60]) \<and> (\<forall>n. contents demo_mconf s' (x # 61 # [60]) n = contents demo_mconf forkdemo (61 # [60]) n)"
    and w: "\<forall>x y n. (x, y) = (p, q) \<or> (x, y) = (q, p) \<longrightarrow>
      (\<exists>pf f s''. olookuppage (obj_ops_n errno_std demo_mconf demo_vm (Suc (Suc (Suc (Suc 0))))) x n True s' = Some ((0, Some pf), s'') \<and> pframes s'' pf = Some f \<and>
       (\<forall>bytes. contents demo_mconf (s''\<lparr>pframes := (pframes s'')(pf \<mapsto> f\<lparr>pf_data := bytes\<rparr>)\<rparr>) (x # 61 # [60]) n = bytes \<and>
          (\<forall>k. contents demo_mconf (s''\<lparr>pframes := (pframes s'')(pf \<mapsto> f\<lparr>pf_data := bytes\<rparr>)\<rparr>) (y # 61 # [60]) k = contents demo_mconf forkdemo (61 # [60]) k)))"
    using fork_isolates [OF forkdemo_same(1) forkdemo_owned forkdemo_ext forkdemo_same(2) cv fl lk v ne forkdemo_same(3) mb, of errno_std 0 0]
    by (elim exE conjE) (rule that)
  have four: "Suc 0 = 1" "Suc (Suc (Suc (Suc 0))) = 4" by simp_all
  note r = r [unfolded four(1)] and w = w [unfolded four(2), rule_format, of p q 1]
  from w c obtain pf f s'' where "olookuppage (obj_ops_n errno_std demo_mconf demo_vm 4) p 1 True s' = Some ((0, Some pf), s'')" "pframes s'' pf = Some f"
    "contents demo_mconf (s''\<lparr>pframes := (pframes s'')(pf \<mapsto> f\<lparr>pf_data := [9, 9, 9, 9]\<rparr>)\<rparr>) [q, 61, 60] 1 = [1, 2, 3, 4]" by (metis (no_types))
  moreover have "contents demo_mconf s' [p, 61, 60] 1 = [1, 2, 3, 4]" using p c by (metis insertI1)
  ultimately show ?thesis using r by (intro exI conjI)
qed

end
