(* ===== verification/Vm_Inv.thy ===== *)
theory Vm_Inv
  imports Vm_Cache
begin

section \<open>The invariant of the page cache\<close>

text \<open>
  A frame is in the hash table under its identity, and on the list of allocated frames or, while it is
  pinned, on the list of pinned frames; the counters are the lengths of the lists (\<open>frames_ok\<close>). The list of
  resident pages of a memory object holds exactly the frames that belong to the object, once each, and its
  count, which for a vnode is a field of the vnode, is the length of the list (\<open>res_ok\<close>). All functions
  of the page cache and all operations of memory objects keep both (\<open>cache_ok\<close>), provided the code outside the
  repository does (\<open>cache_ext\<close>): the operations of vnodes and the threads that run while one sleeps, which use the
  same functions, and the page tables, which leave the page cache alone. The functions are followed with rules for
  \<open>okS\<close> and \<open>okP\<close>, for results that are a state and for results that are a value and a state.
\<close>

definition frames_ok :: "mconf \<Rightarrow> 'a vm_st_scheme \<Rightarrow> bool" where
  "frames_ok C s \<longleftrightarrow> hash_ok C s \<and> distinct (alloc_list s) \<and> distinct (pinned_list s)
     \<and> (\<forall>pf. pf \<in> set (alloc_list s) \<longleftrightarrow> (\<exists>p. pframes s pf = Some p \<and> pf_pincount p = 0))
     \<and> (\<forall>pf. pf \<in> set (pinned_list s) \<longleftrightarrow> (\<exists>p. pframes s pf = Some p \<and> pf_pincount p > 0))
     \<and> (\<forall>pf p. pframes s pf = Some p \<longrightarrow> pf_pincount p \<ge> 0 \<and> pf_addr p \<noteq> 0)
     \<and> nallocated s = int (length (alloc_list s)) \<and> npinned s = int (length (pinned_list s))"

definition resident :: "'a vm_st_scheme \<Rightarrow> ptr \<Rightarrow> ptr list option" where
  "resident s ob = map_option mmo_respages (mmobjs s ob)"

definition nres_of :: "(ptr \<Rightarrow> mmobj option) \<Rightarrow> (ptr \<Rightarrow> vnode option) \<Rightarrow> ptr \<Rightarrow> int option" where
  "nres_of M V ob = (case M ob of None \<Rightarrow> None
     | Some m \<Rightarrow> if mmo_ops m = Vnode_mmobj_ops then map_option vn_nrespages (V ob) else Some (mmo_nrespages m))"

definition nres :: "'a vm_st_scheme \<Rightarrow> ptr \<Rightarrow> int option" where
  "nres s ob = nres_of (mmobjs s) (vnodes s) ob"

lemma nres_of_upd [simp]:
  "nres_of (M(ob \<mapsto> m)) V x = (if x = ob then if mmo_ops m = Vnode_mmobj_ops then map_option vn_nrespages (V ob) else Some (mmo_nrespages m)
     else nres_of M V x)"
  "nres_of (M(ob := None)) V x = (if x = ob then None else nres_of M V x)"
  "nres_of M (V(v \<mapsto> vn)) x = (case M x of None \<Rightarrow> None | Some m \<Rightarrow>
     if mmo_ops m = Vnode_mmobj_ops \<and> x = v then Some (vn_nrespages vn) else nres_of M V x)"
  by (simp_all add: nres_of_def split: option.split)

lemma nres_of_Some: "M ob = Some m \<Longrightarrow> nres_of M V ob = (if mmo_ops m = Vnode_mmobj_ops then map_option vn_nrespages (V ob) else Some (mmo_nrespages m))"
  by (simp add: nres_of_def)

definition owner :: "'a vm_st_scheme \<Rightarrow> ptr \<Rightarrow> ptr option" where
  "owner s pf = Option.bind (pframes s pf) pf_obj"

definition res_ok :: "'a vm_st_scheme \<Rightarrow> bool" where
  "res_ok s \<longleftrightarrow> (\<forall>ob l. resident s ob = Some l \<longrightarrow> distinct l \<and> (\<forall>pf. pf \<in> set l \<longleftrightarrow> owner s pf = Some ob)
     \<and> (\<forall>n. nres s ob = Some n \<longrightarrow> n = int (length l)))"

definition cache_ok :: "mconf \<Rightarrow> 'a vm_st_scheme \<Rightarrow> bool" where
  "cache_ok C s \<longleftrightarrow> frames_ok C s \<and> res_ok s"

definition same_frames :: "'a vm_st_scheme \<Rightarrow> 'a vm_st_scheme \<Rightarrow> bool" where
  "same_frames s s' \<longleftrightarrow> pframes s' = pframes s \<and> pframe_hash s' = pframe_hash s \<and> alloc_list s' = alloc_list s
     \<and> pinned_list s' = pinned_list s \<and> nallocated s' = nallocated s \<and> npinned s' = npinned s"

definition same_cache :: "'a vm_st_scheme \<Rightarrow> 'a vm_st_scheme \<Rightarrow> bool" where
  "same_cache s s' \<longleftrightarrow> same_frames s s' \<and> resident s' = resident s \<and> nres s' = nres s"

lemma frames_ok_same: "same_frames s s' \<Longrightarrow> frames_ok C s' = frames_ok C s"
  by (simp add: frames_ok_def same_frames_def hash_ok_cong [of s' s])

lemma res_ok_same: "owner s' = owner s \<Longrightarrow> resident s' = resident s \<Longrightarrow> nres s' = nres s \<Longrightarrow> res_ok s' = res_ok s"
  by (simp add: res_ok_def)

lemma res_cong:
  assumes "mmobjs s' = mmobjs s" "vnodes s' = vnodes s"
  shows "resident s' = resident s \<and> nres s' = nres s"
  unfolding resident_def [abs_def] nres_def [abs_def] assms by simp

lemma owner_cong: "pframes s' = pframes s \<Longrightarrow> owner s' = owner s"
  by (simp add: owner_def fun_eq_iff)

lemma owner_upd: "pframes s pf = Some p \<Longrightarrow> pf_obj q = pf_obj p \<Longrightarrow> pframes s' = (pframes s)(pf \<mapsto> q) \<Longrightarrow> owner s' = owner s"
  by (simp add: owner_def fun_eq_iff)

lemma cache_ok_same: "same_cache s s' \<Longrightarrow> cache_ok C s' = cache_ok C s"
  using frames_ok_same [of s s' C] res_ok_same [of s' s] owner_cong [of s' s] by (simp add: cache_ok_def same_cache_def same_frames_def)

lemma same_cacheI: "same_frames s s' \<Longrightarrow> mmobjs s' = mmobjs s \<Longrightarrow> vnodes s' = vnodes s \<Longrightarrow> same_cache s s'"
  using res_cong [of s' s] by (simp add: same_cache_def)

lemma same_cache_trans [trans]: "same_cache a b \<Longrightarrow> same_cache b c \<Longrightarrow> same_cache a c"
  by (simp add: same_cache_def same_frames_def)

lemma same_frames_trans [trans]: "same_frames a b \<Longrightarrow> same_frames b c \<Longrightarrow> same_frames a c"
  by (simp add: same_frames_def)

lemma same_cache_refl [simp]: "same_cache s s"
  by (simp add: same_cache_def same_frames_def)

lemma frames_okD:
  assumes "frames_ok C s"
  shows "hash_ok C s" "distinct (alloc_list s)" "distinct (pinned_list s)"
    "pf \<in> set (alloc_list s) \<longleftrightarrow> (\<exists>p. pframes s pf = Some p \<and> pf_pincount p = 0)"
    "pf \<in> set (pinned_list s) \<longleftrightarrow> (\<exists>p. pframes s pf = Some p \<and> pf_pincount p > 0)"
    "pframes s pf = Some p \<Longrightarrow> pf_pincount p \<ge> 0" "pframes s pf = Some p \<Longrightarrow> pf_addr p \<noteq> 0"
    "nallocated s = int (length (alloc_list s))" "npinned s = int (length (pinned_list s))"
  using assms unfolding frames_ok_def by auto

lemma cache_okD: "cache_ok C s \<Longrightarrow> frames_ok C s" "cache_ok C s \<Longrightarrow> res_ok s" "cache_ok C s \<Longrightarrow> hash_ok C s"
  by (simp_all add: cache_ok_def frames_ok_def)

lemma cache_okI:
  assumes "cache_ok C s" "frames_ok C s'" "owner s' = owner s" "mmobjs s' = mmobjs s" "vnodes s' = vnodes s"
  shows "cache_ok C s'"
  using assms res_cong [OF assms(4,5)] res_ok_same [of s' s] by (simp add: cache_ok_def)

lemma res_okD:
  assumes "res_ok s" "mmobjs s ob = Some m"
  shows "distinct (mmo_respages m)" "pf \<in> set (mmo_respages m) \<longleftrightarrow> (\<exists>p. pframes s pf = Some p \<and> pf_obj p = Some ob)"
    "mmo_ops m = Vnode_mmobj_ops \<Longrightarrow> vnodes s ob = Some vn \<Longrightarrow> vn_nrespages vn = int (length (mmo_respages m))"
    "mmo_ops m \<noteq> Vnode_mmobj_ops \<Longrightarrow> mmo_nrespages m = int (length (mmo_respages m))"
proof -
  have "resident s ob = Some (mmo_respages m)" by (simp add: resident_def assms(2))
  then have r: "distinct (mmo_respages m)" "\<forall>pf. pf \<in> set (mmo_respages m) \<longleftrightarrow> owner s pf = Some ob"
    "\<forall>n. nres s ob = Some n \<longrightarrow> n = int (length (mmo_respages m))" using assms(1) unfolding res_ok_def by blast+
  then show "distinct (mmo_respages m)" "pf \<in> set (mmo_respages m) \<longleftrightarrow> (\<exists>p. pframes s pf = Some p \<and> pf_obj p = Some ob)"
    by (simp_all add: owner_def bind_eq_Some_conv)
  show "mmo_ops m = Vnode_mmobj_ops \<Longrightarrow> vnodes s ob = Some vn \<Longrightarrow> vn_nrespages vn = int (length (mmo_respages m))"
    "mmo_ops m \<noteq> Vnode_mmobj_ops \<Longrightarrow> mmo_nrespages m = int (length (mmo_respages m))"
    using r(3) by (simp_all add: nres_def nres_of_Some [of "mmobjs s", OF assms(2)])
qed

subsection \<open>Rules\<close>

definition okS :: "mconf \<Rightarrow> 'a vm_st_scheme option \<Rightarrow> bool" where
  "okS C r \<longleftrightarrow> (\<forall>s'. r = Some s' \<longrightarrow> cache_ok C s')"

definition okP :: "mconf \<Rightarrow> ('r \<times> 'a vm_st_scheme) option \<Rightarrow> bool" where
  "okP C r \<longleftrightarrow> (\<forall>x s'. r = Some (x, s') \<longrightarrow> cache_ok C s')"

lemma ok_state: "okS C m \<Longrightarrow> (\<And>s1. cache_ok C s1 \<Longrightarrow> okS C (f s1)) \<Longrightarrow> okS C (Option.bind m f)"
  "okS C m \<Longrightarrow> (\<And>s1. cache_ok C s1 \<Longrightarrow> okP C (g s1)) \<Longrightarrow> okP C (Option.bind m g)"
  by (auto simp: okS_def okP_def bind_eq_Some_conv)

lemma ok_pair: "okP C m \<Longrightarrow> (\<And>x s1. cache_ok C s1 \<Longrightarrow> okS C (f (x, s1))) \<Longrightarrow> okS C (Option.bind m f)"
  "okP C m \<Longrightarrow> (\<And>x s1. cache_ok C s1 \<Longrightarrow> okP C (g (x, s1))) \<Longrightarrow> okP C (Option.bind m g)"
  by (auto simp: okS_def okP_def bind_eq_Some_conv)

lemma ok_pure: "(\<And>x. okS C (f x)) \<Longrightarrow> okS C (Option.bind m f)" "(\<And>x. okP C (g x)) \<Longrightarrow> okP C (Option.bind m g)"
  by (auto simp: okS_def okP_def bind_eq_Some_conv)

lemma ok_flow:
  "okS C (f t) \<Longrightarrow> okS C (Let t f)" "okP C (g u) \<Longrightarrow> okP C (Let u g)"
  "okS C (f2 a b) \<Longrightarrow> okS C (case_prod f2 (a, b))" "okP C (g2 a b) \<Longrightarrow> okP C (case_prod g2 (a, b))"
  "(\<And>a b. okS C (h a b)) \<Longrightarrow> okS C (case_prod h p)" "(\<And>a b. okP C (k a b)) \<Longrightarrow> okP C (case_prod k p)"
  "(\<And>a b. okS C (h2 a b s)) \<Longrightarrow> okS C (case_prod h2 q s)" "(\<And>a b. okP C (k2 a b s)) \<Longrightarrow> okP C (case_prod k2 q s)"
  "(c \<Longrightarrow> okS C x) \<Longrightarrow> (\<not> c \<Longrightarrow> okS C y) \<Longrightarrow> okS C (if c then x else y)"
  "(c \<Longrightarrow> okP C x') \<Longrightarrow> (\<not> c \<Longrightarrow> okP C y') \<Longrightarrow> okP C (if c then x' else y')"
  "okS C n \<Longrightarrow> (\<And>v. okS C (l v)) \<Longrightarrow> okS C (case r of None \<Rightarrow> n | Some v \<Rightarrow> l v)"
  "okP C n' \<Longrightarrow> (\<And>v. okP C (l' v)) \<Longrightarrow> okP C (case r of None \<Rightarrow> n' | Some v \<Rightarrow> l' v)"
  "(\<And>v. okP C (i v)) \<Longrightarrow> (\<And>v. okP C (j v)) \<Longrightarrow> okP C (case z of Inl v \<Rightarrow> i v | Inr v \<Rightarrow> j v)"
  by (auto split: prod.split option.split sum.split)

lemma ok_ret: "okS C None" "cache_ok C s \<Longrightarrow> okS C (Some s)" "okP C None" "cache_ok C s \<Longrightarrow> okP C (Some (x, s))"
  by (simp_all add: okS_def okP_def)

lemma ok_ops:
  "okS C a \<Longrightarrow> okS C b \<Longrightarrow> okS C c \<Longrightarrow> okS C (case r of Anon_mmobj_ops \<Rightarrow> a | Shadow_mmobj_ops \<Rightarrow> b | Vnode_mmobj_ops \<Rightarrow> c)"
  "okP C x \<Longrightarrow> okP C y \<Longrightarrow> okP C z \<Longrightarrow> okP C (case r of Anon_mmobj_ops \<Rightarrow> x | Shadow_mmobj_ops \<Rightarrow> y | Vnode_mmobj_ops \<Rightarrow> z)"
  by (cases r; simp)+

text \<open>Changing a memory object other than its list of resident pages and their count.\<close>

lemma obj_upd_cache:
  assumes "obj_upd ob g s = Some s'" "\<And>m. mmo_ops (g m) = mmo_ops m" "\<And>m. mmo_respages (g m) = mmo_respages m"
    "\<And>m. mmo_nrespages (g m) = mmo_nrespages m"
  shows "same_cache s s'"
  using assms by (auto simp: obj_upd_def bind_eq_Some_conv same_cache_def same_frames_def resident_def nres_def fun_eq_iff nres_of_Some)

lemma ok_upd:
  assumes "cache_ok C s" "\<And>m. mmo_ops (g m) = mmo_ops m" "\<And>m. mmo_respages (g m) = mmo_respages m" "\<And>m. mmo_nrespages (g m) = mmo_nrespages m"
  shows "okS C (obj_upd ob g s)"
  using obj_upd_cache [of ob g s, OF _ assms(2-4)] cache_ok_same assms(1) by (auto simp: okS_def)

lemma drop_object:
  assumes "cache_ok C s"
  shows "cache_ok C (s\<lparr>mmobjs := (mmobjs s)(ob := None)\<rparr>)"
proof -
  let ?s = "s\<lparr>mmobjs := (mmobjs s)(ob := None)\<rparr>"
  have "same_frames s ?s" by (simp add: same_frames_def)
  moreover have "owner ?s = owner s" by (rule owner_cong) simp
  moreover have "resident ?s = (resident s)(ob := None)" "nres ?s = (nres s)(ob := None)"
    by (simp_all add: resident_def nres_def fun_eq_iff)
  ultimately show ?thesis using assms frames_ok_same [of s ?s C] by (auto simp: cache_ok_def res_ok_def)
qed

text \<open>Changing a frame other than its identity and its pin count.\<close>

lemma ok_pf_upd:
  assumes ok: "cache_ok C s" and f: "\<And>p. pf_obj (f p) = pf_obj p" "\<And>p. pf_pagenum (f p) = pf_pagenum p" "\<And>p. pf_pincount (f p) = pf_pincount p"
      "\<And>p. pf_addr (f p) = pf_addr p"
  shows "okS C (pf_upd pf f s)"
proof -
  have "cache_ok C (s\<lparr>pframes := (pframes s)(pf \<mapsto> f p)\<rparr>)" if p: "pframes s pf = Some p" for p
  proof (rule cache_okI [OF ok])
    have "hash_ok C (s\<lparr>pframes := (pframes s)(pf \<mapsto> f p)\<rparr>)" by (rule hash_ok_modify [OF cache_okD(3) [OF ok] p f(1,2)]) simp_all
    then show "frames_ok C (s\<lparr>pframes := (pframes s)(pf \<mapsto> f p)\<rparr>)" using cache_okD(1) [OF ok] p f(3,4) by (auto simp: frames_ok_def)
    show "owner (s\<lparr>pframes := (pframes s)(pf \<mapsto> f p)\<rparr>) = owner s" by (rule owner_upd [OF p, of "f p"]) (simp_all add: f(1))
  qed simp_all
  then show ?thesis by (auto simp: okS_def pf_upd_def bind_eq_Some_conv)
qed

lemma broadcast_cache: "sched_broadcast_on q s = Some s' \<Longrightarrow> same_cache s s'"
  by (drule sched_broadcast_on_frame, rule same_cacheI; cases s; cases s') (simp_all add: same_frames_def)

lemma ok_broadcast: "cache_ok C s \<Longrightarrow> okS C (sched_broadcast_on q s)"
  unfolding okS_def using broadcast_cache cache_ok_same by blast

lemmas ok_rules = ok_ret ok_broadcast ok_flow ok_state ok_pair ok_pure

subsection \<open>The page cache\<close>

lemma int_length_remove1: "x \<in> set xs \<Longrightarrow> int (length (remove1 x xs)) = int (length xs) - 1"
  using length_pos_if_in_set [of x xs] unfolding length_remove1 by (simp del: length_greater_0_conv)

lemma frames_touch: "frames_ok C s \<Longrightarrow> frames_ok C (touch r s)"
proof (cases "\<exists>pf p. r = Some pf \<and> pframes s pf = Some p \<and> \<not> pframe_is_pinned p")
  case True
  assume ok: "frames_ok C s"
  from True obtain pf p where p: "r = Some pf" "pframes s pf = Some p" "\<not> pframe_is_pinned p" by blast
  then have "pf_pincount p = 0" using frames_okD(6) [OF ok p(2)] by (simp add: pframe_is_pinned_def)
  then have "pf \<in> set (alloc_list s)" using frames_okD(4) [OF ok] p(2) by blast
  moreover have "hash_ok C (s\<lparr>alloc_list := l\<rparr>)" for l using frames_okD(1) [OF ok] hash_ok_cong [of "s\<lparr>alloc_list := l\<rparr>" s C] by simp
  ultimately show ?thesis using ok p unfolding frames_ok_def touch_def by (auto simp: int_length_remove1)
next
  case False
  then have "touch r s = s" by (auto simp: touch_def split: option.split)
  then show "frames_ok C s \<Longrightarrow> frames_ok C (touch r s)" by simp
qed

lemma touch_frame: "pframes (touch r s) = pframes s" "mmobjs (touch r s) = mmobjs s" "vnodes (touch r s) = vnodes s"
  by (simp_all add: touch_def split: option.split)

lemma cache_touch:
  assumes "cache_ok C s"
  shows "cache_ok C (touch r s)"
  by (rule cache_okI [OF assms frames_touch [OF cache_okD(1) [OF assms]] owner_cong]) (simp_all add: touch_frame)

lemma ok_get_resident: "cache_ok C s \<Longrightarrow> okP C (pframe_get_resident C ob n s)"
  by (simp add: pframe_get_resident_eq [OF cache_okD(3)] okP_def cache_touch)

lemma pin_owner:
  fixes s s' :: "'a vm_st_scheme"
  assumes "pframe_pin pf s = Some s' \<or> pframe_unpin pf s = Some s'"
  shows "owner s' = owner s \<and> mmobjs s' = mmobjs s \<and> vnodes s' = vnodes s"
proof -
  obtain p where p: "pframes s pf = Some p" using assms by (auto simp: pframe_pin_def pframe_unpin_def bind_eq_Some_conv)
  have "owner (t\<lparr>pframes := (pframes s)(pf \<mapsto> p\<lparr>pf_pincount := k\<rparr>)\<rparr>) = owner s" for t :: "'a vm_st_scheme" and k
    by (rule owner_upd [OF p, of "p\<lparr>pf_pincount := k\<rparr>"]) simp_all
  moreover have "owner (t\<lparr>pinned_list := a, alloc_list := b, nallocated := c, npinned := d\<rparr>) = owner t" for t :: "'a vm_st_scheme" and a b c d
    by (rule owner_cong) simp
  ultimately show ?thesis
    using assms p by (auto simp: pframe_pin_def pframe_unpin_def pf_upd_def bind_eq_Some_conv Let_def split: if_split_asm)
qed

lemma pin_owner_ok: "pframe_pin pf s = Some s' \<or> pframe_unpin pf s = Some s' \<Longrightarrow> cache_ok C s \<Longrightarrow> frames_ok C s' \<Longrightarrow> cache_ok C s'"
  using cache_okI pin_owner by blast

lemma frames_pin:
  assumes ok: "frames_ok C s" and run: "pframe_pin pf s = Some s'"
  shows "frames_ok C s'"
proof -
  obtain p where p: "pframes s pf = Some p" using run by (auto simp: pframe_pin_def bind_eq_Some_conv)
  let ?P = "(pframes s)(pf \<mapsto> p\<lparr>pf_pincount := pf_pincount p + 1\<rparr>)"
  have h: "hash_ok C s'" if "pframes s' = ?P" "pframe_hash s' = pframe_hash s"
    by (rule hash_ok_modify [OF frames_okD(1) [OF ok] p _ _ that]) simp_all
  show ?thesis
  proof (cases "pframe_is_pinned p")
    case True
    then have s': "s' = s\<lparr>pframes := ?P\<rparr>" using run p by (simp add: pframe_pin_def pf_upd_def Let_def split: if_split_asm)
    show ?thesis using ok p True h unfolding s' by (auto simp: frames_ok_def pframe_is_pinned_def)
  next
    case False
    then have s': "s' = s\<lparr>alloc_list := remove1 pf (alloc_list s), pinned_list := pinned_list s @ [pf],
        nallocated := nallocated s - 1, npinned := npinned s + 1, pframes := ?P\<rparr>"
      using run p by (simp add: pframe_pin_def pf_upd_def Let_def split: if_split_asm)
    have z: "pf_pincount p = 0" using frames_okD(6) [OF ok p] False by (simp add: pframe_is_pinned_def)
    then have mem: "pf \<in> set (alloc_list s)" "pf \<notin> set (pinned_list s)" using frames_okD(4,5) [OF ok, of pf] p by auto
    then show ?thesis using ok p h int_length_remove1 [OF mem(1)] z frames_okD(2) [OF ok] unfolding s' by (auto simp: frames_ok_def)
  qed
qed

lemma frames_unpin:
  assumes ok: "frames_ok C s" and run: "pframe_unpin pf s = Some s'"
  shows "frames_ok C s'"
proof -
  obtain p where p: "pframes s pf = Some p" "pf_pincount p > 0" using run by (auto simp: pframe_unpin_def bind_eq_Some_conv split: if_split_asm)
  let ?P = "(pframes s)(pf \<mapsto> p\<lparr>pf_pincount := pf_pincount p - 1\<rparr>)"
  have h: "hash_ok C s'" if "pframes s' = ?P" "pframe_hash s' = pframe_hash s"
    by (rule hash_ok_modify [OF frames_okD(1) [OF ok] p(1) _ _ that]) simp_all
  show ?thesis
  proof (cases "pf_pincount p = 1")
    case True
    then have s': "s' = s\<lparr>pframes := ?P, pinned_list := remove1 pf (pinned_list s), alloc_list := alloc_list s @ [pf],
        nallocated := nallocated s + 1, npinned := npinned s - 1\<rparr>"
      using run p by (simp add: pframe_unpin_def pf_upd_def split: if_split_asm)
    have mem: "pf \<in> set (pinned_list s)" "pf \<notin> set (alloc_list s)" using frames_okD(4,5) [OF ok, of pf] p by auto
    then show ?thesis using ok p True h int_length_remove1 [OF mem(1)] frames_okD(3) [OF ok] unfolding s' by (auto simp: frames_ok_def)
  next
    case False
    then have s': "s' = s\<lparr>pframes := ?P\<rparr>" using run p by (simp add: pframe_unpin_def pf_upd_def split: if_split_asm)
    show ?thesis using ok p False h unfolding s' by (auto simp: frames_ok_def)
  qed
qed

lemma ok_pin: "cache_ok C s \<Longrightarrow> okS C (pframe_pin pf s)"
  unfolding okS_def using pin_owner_ok frames_pin [OF cache_okD(1)] by blast

lemma ok_unpin: "cache_ok C s \<Longrightarrow> okS C (pframe_unpin pf s)"
  unfolding okS_def using pin_owner_ok frames_unpin [OF cache_okD(1)] by blast

text \<open>The state after \<^verbatim>\<open>pframe_free\<close> has taken a frame out of the cache.\<close>

lemma hash_ok_remove:
  assumes ok: "hash_ok C s" and p: "pframes s pf = Some p" "pf_obj p = Some ob"
    and s': "pframes s' = (pframes s)(pf := None)"
      "pframe_hash s' = (pframe_hash s)(hash_page C ob (pf_pagenum p) := remove1 pf (pframe_hash s (hash_page C ob (pf_pagenum p))))"
  shows "hash_ok C s'"
proof -
  have d: "distinct (pframe_hash s h)" for h using ok by (simp add: hash_ok_def)
  have own: "h = hash_page C ob (pf_pagenum p)" if "pf \<in> set (pframe_hash s h)" for h using ok that p unfolding hash_ok_def by fastforce
  have mem: "x \<in> set (pframe_hash s' h) \<longleftrightarrow> x \<in> set (pframe_hash s h) \<and> x \<noteq> pf" for x h
    using own d by (auto simp: s'(2))
  show ?thesis unfolding hash_ok_def mem
  proof (intro conjI allI ballI impI)
    fix h x assume "x \<in> set (pframe_hash s' h)"
    then show "\<exists>p ob. pframes s' x = Some p \<and> pf_obj p = Some ob \<and> h = hash_page C ob (pf_pagenum p)"
      using ok unfolding mem hash_ok_def s'(1) by simp
  next
    fix x q assume "pframes s' x = Some q"
    then show "\<exists>ob. pf_obj q = Some ob \<and> x \<in> set (pframe_hash s (hash_page C ob (pf_pagenum q))) \<and> x \<noteq> pf"
      using ok unfolding hash_ok_def s'(1) by (auto split: if_split_asm)
  next
    fix x q y r o' n assume "pframes s' x = Some q" "pframes s' y = Some r" "identity q o' n" "identity r o' n"
    then show "x = y" using ok unfolding hash_ok_def s'(1) by (auto split: if_split_asm)
  next
    fix h show "distinct (pframe_hash s' h)" using d by (simp add: s'(2))
  qed
qed

text \<open>A frame that enters or leaves the list of resident pages of its object.\<close>

lemma nrespages_effect:
  assumes run: "add_nrespages k ob s = Some s'"
  shows "same_frames s s' \<and> resident s' = resident s \<and> nres s' = (nres s)(ob := map_option (\<lambda>n. n + k) (nres s ob))"
proof -
  obtain m where m: "mmobjs s ob = Some m" using run by (auto simp: add_nrespages_def bind_eq_Some_conv)
  show ?thesis
  proof (cases "mmo_ops m = Vnode_mmobj_ops")
    case True
    then obtain vn where v: "vnodes s ob = Some vn" "s' = s\<lparr>vnodes := (vnodes s)(ob \<mapsto> vn\<lparr>vn_nrespages := vn_nrespages vn + k\<rparr>)\<rparr>"
      using run m by (auto simp: add_nrespages_def vn_upd_def bind_eq_Some_conv)
    have "nres s' = (nres s)(ob := map_option (\<lambda>n. n + k) (nres s ob))"
      using m True v(1) unfolding v(2) nres_def by (auto simp: fun_eq_iff nres_of_Some nres_of_def split: option.split)
    then show ?thesis unfolding v(2) by (simp add: same_frames_def resident_def fun_eq_iff)
  next
    case False
    then have v: "s' = s\<lparr>mmobjs := (mmobjs s)(ob \<mapsto> m\<lparr>mmo_nrespages := mmo_nrespages m + k\<rparr>)\<rparr>"
      using run m by (simp add: add_nrespages_def obj_upd_def)
    show ?thesis using m False unfolding v by (simp add: same_frames_def resident_def nres_def nres_of_Some fun_eq_iff)
  qed
qed

lemma respages_effect:
  "obj_upd ob (\<lambda>m. m\<lparr>mmo_respages := f (mmo_respages m)\<rparr>) s = Some s' \<Longrightarrow>
    same_frames s s' \<and> resident s' = (resident s)(ob := map_option f (resident s ob)) \<and> nres s' = nres s"
  by (auto simp: obj_upd_def bind_eq_Some_conv same_frames_def resident_def nres_def nres_of_Some fun_eq_iff)

lemma res_ok_enter:
  assumes "res_ok s" "owner s pf = None" "owner s' = (owner s)(pf \<mapsto> ob)" "resident s' = (resident s)(ob := map_option (Cons pf) (resident s ob))"
    "nres s' = (nres s)(ob := map_option (\<lambda>n. n + 1) (nres s ob))"
  shows "res_ok s'"
  unfolding res_ok_def
proof (intro allI impI)
  fix o' l assume l: "resident s' o' = Some l"
  show "distinct l \<and> (\<forall>x. x \<in> set l \<longleftrightarrow> owner s' x = Some o') \<and> (\<forall>n. nres s' o' = Some n \<longrightarrow> n = int (length l))"
  proof (cases "o' = ob")
    case True
    then obtain l0 where l0: "resident s ob = Some l0" "l = pf # l0" using l by (auto simp: assms(4))
    have r: "distinct l0" "\<forall>x. x \<in> set l0 \<longleftrightarrow> owner s x = Some ob" "\<forall>n. nres s ob = Some n \<longrightarrow> n = int (length l0)"
      using assms(1) l0(1) unfolding res_ok_def by blast+
    then have "pf \<notin> set l0" using assms(2) by simp
    with r True l0(2) show ?thesis by (auto simp: assms(3,5))
  next
    case False
    then have "resident s o' = Some l" using l by (simp add: assms(4))
    then have "distinct l \<and> (\<forall>x. x \<in> set l \<longleftrightarrow> owner s x = Some o') \<and> (\<forall>n. nres s o' = Some n \<longrightarrow> n = int (length l))"
      using assms(1) unfolding res_ok_def by blast
    with False assms(2) show ?thesis by (auto simp: assms(3,5))
  qed
qed

lemma res_ok_leave:
  assumes "res_ok s" "owner s pf = Some ob" "owner s' = (owner s)(pf := None)" "resident s' = (resident s)(ob := map_option (remove1 pf) (resident s ob))"
    "nres s' = (nres s)(ob := map_option (\<lambda>n. n + - 1) (nres s ob))"
  shows "res_ok s'"
  unfolding res_ok_def
proof (intro allI impI)
  fix o' l assume l: "resident s' o' = Some l"
  show "distinct l \<and> (\<forall>x. x \<in> set l \<longleftrightarrow> owner s' x = Some o') \<and> (\<forall>n. nres s' o' = Some n \<longrightarrow> n = int (length l))"
  proof (cases "o' = ob")
    case True
    then obtain l0 where l0: "resident s ob = Some l0" "l = remove1 pf l0" using l by (auto simp: assms(4))
    have r: "distinct l0" "\<forall>x. x \<in> set l0 \<longleftrightarrow> owner s x = Some ob" "\<forall>n. nres s ob = Some n \<longrightarrow> n = int (length l0)"
      using assms(1) l0(1) unfolding res_ok_def by blast+
    then have "pf \<in> set l0" using assms(2) by simp
    with r True l0(2) show ?thesis by (auto simp: assms(3,5) int_length_remove1)
  next
    case False
    then have "resident s o' = Some l" using l by (simp add: assms(4))
    then have "distinct l \<and> (\<forall>x. x \<in> set l \<longleftrightarrow> owner s x = Some o') \<and> (\<forall>n. nres s o' = Some n \<longrightarrow> n = int (length l))"
      using assms(1) unfolding res_ok_def by blast
    with False assms(2) show ?thesis by (auto simp: assms(3,5))
  qed
qed

subsection \<open>The interface of memory objects\<close>

definition table_ok :: "mconf \<Rightarrow> 'a vm_st_scheme obj_ops \<Rightarrow> bool" where
  "table_ok C T \<longleftrightarrow> (\<forall>ob s s'. oref T ob s = Some s' \<longrightarrow> same_cache s s')
     \<and> (\<forall>s. cache_ok C s \<longrightarrow> (\<forall>ob. okS C (oput T ob s))
     \<and> (\<forall>ob n w. okP C (olookuppage T ob n w s)) \<and> (\<forall>ob pf. okP C (ofillpage T ob pf s))
     \<and> (\<forall>ob pf. okP C (odirtypage T ob pf s)) \<and> (\<forall>ob pf. okP C (ocleanpage T ob pf s)))"

definition cache_ext :: "mconf \<Rightarrow> 'a vm_st_scheme vm_ext \<Rightarrow> bool" where
  "cache_ext C X \<longleftrightarrow> (\<forall>ob s s'. vo_vref X ob s = Some s' \<longrightarrow> same_cache s s')
   \<and> (\<forall>s. cache_ok C s \<longrightarrow> (\<forall>ob. okS C (vo_vput X ob s))
     \<and> (\<forall>ob n w. okP C (vlookuppage X ob n w s)) \<and> (\<forall>ob pf. okP C (vreadpage X ob pf s))
     \<and> (\<forall>ob pf. okP C (vdirtypage X ob pf s)) \<and> (\<forall>ob pf. okP C (vcleanpage X ob pf s)) \<and> (\<forall>q. okS C (vm_sleep X q s)))
   \<and> (\<forall>pd va s. same_cache s (pt_unmap X pd va s)) \<and> (\<forall>s pf. slab_pframe X s = Some pf \<longrightarrow> pframes s pf = None)
   \<and> (\<forall>s. page_alloc X s \<noteq> Some 0)
   \<and> (\<forall>ops. mmo_ops (mmobj_init X ops) = ops \<and> mmo_respages (mmobj_init X ops) = [] \<and> mmo_nrespages (mmobj_init X ops) = 0)"

lemma okS_same: "\<forall>s'. r = Some s' \<longrightarrow> same_cache s s' \<Longrightarrow> cache_ok C s \<Longrightarrow> okS C r"
  using cache_ok_same unfolding okS_def by blast

lemma table_okD:
  assumes "table_ok C T" "cache_ok C s"
  shows "okS C (oref T ob s)" "okS C (oput T ob s)" "okP C (olookuppage T ob n w s)" "okP C (ofillpage T ob pf s)"
    "okP C (odirtypage T ob pf s)" "okP C (ocleanpage T ob pf s)"
  using assms unfolding table_ok_def by (blast intro: okS_same)+

lemma cache_extD:
  assumes "cache_ext C X" "cache_ok C s"
  shows "okS C (vo_vref X ob s)" "okS C (vo_vput X ob s)" "okP C (vlookuppage X ob n w s)" "okP C (vreadpage X ob pf s)"
    "okP C (vdirtypage X ob pf s)" "okP C (vcleanpage X ob pf s)" "okS C (vm_sleep X q s)"
proof -
  have "(\<forall>ob s s'. vo_vref X ob s = Some s' \<longrightarrow> same_cache s s') \<and> (\<forall>ob. okS C (vo_vput X ob s))
     \<and> (\<forall>ob n w. okP C (vlookuppage X ob n w s)) \<and> (\<forall>ob pf. okP C (vreadpage X ob pf s))
     \<and> (\<forall>ob pf. okP C (vdirtypage X ob pf s)) \<and> (\<forall>ob pf. okP C (vcleanpage X ob pf s)) \<and> (\<forall>q. okS C (vm_sleep X q s))"
    using assms unfolding cache_ext_def by (elim conjE) (intro conjI; simp)
  then show "okS C (vo_vref X ob s)" "okS C (vo_vput X ob s)" "okP C (vlookuppage X ob n w s)" "okP C (vreadpage X ob pf s)"
    "okP C (vdirtypage X ob pf s)" "okP C (vcleanpage X ob pf s)" "okS C (vm_sleep X q s)"
    using okS_same [OF _ assms(2)] by simp_all
qed

lemma unmap_cache:
  assumes "cache_ext C X"
  shows "unmap_from_vmas C X n as s = Some s' \<Longrightarrow> same_cache s s'"
proof (induction as arbitrary: s)
  case Nil
  then show ?case by simp
next
  case (Cons a as)
  from Cons.prems have "\<exists>s1. unmap_from_vmas C X n as s1 = Some s' \<and> (s1 = s \<or> (\<exists>pd va. s1 = pt_unmap X pd va s))"
    by (auto simp: bind_eq_Some_conv Let_def split: if_split_asm option.split_asm) blast
  then obtain s1 where s1: "unmap_from_vmas C X n as s1 = Some s'" and "s1 = s \<or> (\<exists>pd va. s1 = pt_unmap X pd va s)" by blast
  then have "same_cache s s1" using assms by (auto simp: cache_ext_def)
  with Cons.IH [OF s1] show ?case by (rule same_cache_trans [rotated])
qed

lemma remove_from_pts_cache: "cache_ext C X \<Longrightarrow> pframe_remove_from_pts C X pf s = Some s' \<Longrightarrow> same_cache s s'"
  unfolding pframe_remove_from_pts_def by (auto simp: bind_eq_Some_conv dest!: unmap_cache)

lemma ok_remove_from_pts: "cache_ext C X \<Longrightarrow> cache_ok C s \<Longrightarrow> okS C (pframe_remove_from_pts C X pf s)"
  unfolding okS_def using remove_from_pts_cache cache_ok_same by blast

lemma ok_fill: "table_ok C T \<Longrightarrow> cache_ok C s \<Longrightarrow> okP C (pframe_fill T pf s)"
  unfolding pframe_fill_def by (rule ok_rules ok_pf_upd table_okD | assumption | simp)+

lemma ok_dirty: "table_ok C T \<Longrightarrow> cache_ok C s \<Longrightarrow> okP C (pframe_dirty T pf s)"
  unfolding pframe_dirty_def by (rule ok_rules ok_pf_upd table_okD | assumption | simp)+

lemma ok_clean: "cache_ext C X \<Longrightarrow> table_ok C T \<Longrightarrow> cache_ok C s \<Longrightarrow> okP C (pframe_clean C X T pf s)"
  unfolding pframe_clean_def by (rule ok_rules ok_pf_upd table_okD ok_remove_from_pts | assumption | simp)+

text \<open>A frame has been taken out of the cache and its object has been told.\<close>

lemma leave_ok:
  assumes ok: "cache_ok C s" and p: "pframes s pf = Some p" "pf_obj p = Some ob" and fr: "frames_ok C s2"
    and s2: "pframes s2 = (pframes s)(pf := None)" "mmobjs s2 = mmobjs s" "vnodes s2 = vnodes s"
  shows "okS C (do { s \<leftarrow> add_nrespages (- 1) ob s2; obj_upd ob (\<lambda>m. m\<lparr>mmo_respages := remove1 pf (mmo_respages m)\<rparr>) s })"
proof -
  have "cache_ok C s4" if "add_nrespages (- 1) ob s2 = Some s3"
    "obj_upd ob (\<lambda>m. m\<lparr>mmo_respages := remove1 pf (mmo_respages m)\<rparr>) s3 = Some s4" for s3 s4
  proof -
    note e = nrespages_effect [OF that(1)] respages_effect [OF that(2)] res_cong [OF s2(2,3)]
    have "same_frames s2 s4" using e by (blast intro: same_frames_trans)
    then have "frames_ok C s4" "owner s4 = owner s2" using fr frames_ok_same [of s2 s4] owner_cong [of s4 s2] by (simp_all add: same_frames_def)
    moreover have "owner s2 = (owner s)(pf := None)" "owner s pf = Some ob" using s2(1) p by (simp_all add: owner_def fun_eq_iff)
    ultimately show ?thesis using res_ok_leave [OF cache_okD(2) [OF ok], of pf ob s4] e by (simp add: cache_ok_def)
  qed
  then show ?thesis by (auto simp: okS_def bind_eq_Some_conv)
qed

lemma ok_free:
  assumes X: "cache_ext C X" and T: "table_ok C T" and ok: "cache_ok C s"
  shows "okS C (pframe_free C X T pf s)"
proof (cases "\<exists>p ob s1. pframes s pf = Some p \<and> \<not> pframe_is_pinned p \<and> pf_obj p = Some ob \<and> pframe_remove_from_pts C X pf s = Some s1")
  case True
  then obtain p ob s1 where p: "pframes s pf = Some p" "\<not> pframe_is_pinned p" "pf_obj p = Some ob"
    and s1: "pframe_remove_from_pts C X pf s = Some s1" by blast
  let ?h = "hash_page C ob (pf_pagenum p)"
  let ?s2 = "s1\<lparr>pframe_hash := (pframe_hash s1)(?h := remove1 pf (pframe_hash s1 ?h)), nallocated := nallocated s1 - 1,
     alloc_list := remove1 pf (alloc_list s1), pframes := (pframes s1)(pf := None)\<rparr>"
  from remove_from_pts_cache [OF X s1] have sc: "same_cache s s1" and ok1: "cache_ok C s1" using ok cache_ok_same by auto
  then have p1: "pframes s1 pf = Some p" using p(1) by (simp add: same_cache_def same_frames_def)
  note fr1 = cache_okD(1) [OF ok1]
  have "pf_pincount p = 0" using frames_okD(6) [OF fr1 p1] p(2) by (simp add: pframe_is_pinned_def)
  then have mem: "pf \<in> set (alloc_list s1)" "pf \<notin> set (pinned_list s1)" using frames_okD(4,5) [OF fr1, of pf] p1 by auto
  have "hash_ok C ?s2" by (rule hash_ok_remove [OF cache_okD(3) [OF ok1] p1 p(3)]) simp_all
  then have fr2: "frames_ok C ?s2" using fr1 mem int_length_remove1 [OF mem(1)] by (auto simp: frames_ok_def)
  have lv: "okS C (do { s \<leftarrow> add_nrespages (- 1) ob ?s2; obj_upd ob (\<lambda>m. m\<lparr>mmo_respages := remove1 pf (mmo_respages m)\<rparr>) s })"
    by (rule leave_ok [OF ok1 p1 p(3) fr2]) simp_all
  have "pframe_free C X T pf s = do {
      _ \<leftarrow> kassert (\<not> pframe_is_free p); _ \<leftarrow> kassert (\<not> pf_busy p);
      s \<leftarrow> (do { s \<leftarrow> add_nrespages (- 1) ob ?s2; obj_upd ob (\<lambda>m. m\<lparr>mmo_respages := remove1 pf (mmo_respages m)\<rparr>) s });
      oput T ob s }" using p s1 by (simp add: pframe_free_def Let_def)
  also have "okS C \<dots>" by (rule lv ok_rules table_okD T | assumption)+
  finally show ?thesis .
next
  case False
  then show ?thesis by (auto simp: okS_def pframe_free_def bind_eq_Some_conv)
qed

lemma ok_alloc:
  assumes X: "cache_ext C X" and T: "table_ok C T" and ok: "cache_ok C s" and new: "frame_of C s ob n = None"
  shows "okP C (pframe_alloc C X T ob n s)"
proof (cases "\<exists>pf addr. slab_pframe X s = Some pf \<and> page_alloc X s = Some addr")
  case True
  then obtain pf addr where a: "slab_pframe X s = Some pf" "page_alloc X s = Some addr" by blast
  then have fresh: "pframes s pf = None" "addr \<noteq> 0" using X unfolding cache_ext_def by metis+
  let ?p = "\<lparr>pf_obj = Some ob, pf_pagenum = n, pf_busy = False, pf_dirty = False, pf_pincount = 0, pf_addr = addr, pf_data = []\<rparr>"
  let ?s1 = "sched_queue_init (Pf_waitq pf) (s\<lparr>nallocated := nallocated s + 1, alloc_list := alloc_list s @ [pf], pframes := (pframes s)(pf \<mapsto> ?p)\<rparr>)"
  let ?s2 = "?s1\<lparr>pframe_hash := (pframe_hash ?s1)(hash_page C ob n := pf # pframe_hash ?s1 (hash_page C ob n))\<rparr>"
  note fr = cache_okD(1) [OF ok]
  have "hash_ok C ?s2" by (rule hash_ok_enter [OF cache_okD(3) [OF ok] fresh(1) new, of ?p]) (simp_all add: enter_def identity_def sched_queue_init_def)
  moreover have "pf \<notin> set (alloc_list s)" "pf \<notin> set (pinned_list s)" using frames_okD(4,5) [OF fr, of pf] fresh by simp_all
  ultimately have fr2: "frames_ok C ?s2" using fr fresh by (auto simp: frames_ok_def sched_queue_init_def)
  have ow: "owner ?s2 = (owner s)(pf \<mapsto> ob)" "owner s pf = None" using fresh by (simp_all add: owner_def fun_eq_iff sched_queue_init_def)
  have rs: "resident ?s2 = resident s \<and> nres ?s2 = nres s" by (rule res_cong) (simp_all add: sched_queue_init_def)
  have "cache_ok C s5" if "oref T ob ?s2 = Some s3" "add_nrespages 1 ob s3 = Some s4"
    "obj_upd ob (\<lambda>m. m\<lparr>mmo_respages := pf # mmo_respages m\<rparr>) s4 = Some s5" for s3 s4 s5
  proof -
    have sc: "same_cache ?s2 s3" using T that(1) by (simp add: table_ok_def)
    note e = nrespages_effect [OF that(2)] respages_effect [of ob "Cons pf", OF that(3)] sc [unfolded same_cache_def]
    have "same_frames ?s2 s5" using e by (blast intro: same_frames_trans)
    then have "frames_ok C s5" "owner s5 = owner ?s2" using fr2 frames_ok_same [of ?s2 s5] owner_cong [of s5 ?s2] by (simp_all add: same_frames_def)
    then show ?thesis using res_ok_enter [OF cache_okD(2) [OF ok] ow(2), of s5 ob] e rs ow(1) by (simp add: cache_ok_def)
  qed
  then show ?thesis using a by (auto simp: okP_def pframe_alloc_def Let_def bind_eq_Some_conv)
next
  case False
  then show ?thesis using ok by (auto simp: okP_def pframe_alloc_def split: option.split_asm)
qed

lemma ok_get:
  assumes X: "cache_ext C X" and T: "table_ok C T" and ok: "cache_ok C s"
  shows "okP C (pframe_get E C X T ob n s)"
proof (cases "frame_of C s ob n")
  case None
  have al: "okP C (pframe_alloc C X T ob n s)" by (rule ok_alloc [OF X T ok None])
  show ?thesis unfolding pframe_get_def pframe_get_resident_eq [OF cache_okD(3) [OF ok]] None bind.bind_lunit touch_None prod.case option.case
    by (rule al ok_rules ok_fill ok_free X T | assumption)+
next
  case (Some pf)
  have "cache_ok C (touch (Some pf) s)" by (rule cache_touch [OF ok])
  then show ?thesis unfolding pframe_get_def pframe_get_resident_eq [OF cache_okD(3) [OF ok]] Some bind.bind_lunit prod.case option.case
    by - (rule ok_rules cache_extD(7) X | assumption)+
qed

subsection \<open>Anonymous and shadow objects\<close>

lemmas ok_cache = ok_get_resident ok_pin ok_unpin ok_fill ok_dirty ok_clean ok_free ok_get

lemma ref_cache: "anon_ref ob s = Some s' \<Longrightarrow> same_cache s s'" "shadow_ref ob s = Some s' \<Longrightarrow> same_cache s s'"
  unfolding anon_ref_def shadow_ref_def by (auto simp: bind_eq_Some_conv split: if_split_asm intro: obj_upd_cache)

lemma ok_free_pages:
  assumes "cache_ext C X" "table_ok C T"
  shows "cache_ok C s \<Longrightarrow> okS C (anon_free_pages C X T pfs s)" "cache_ok C s \<Longrightarrow> okS C (shadow_free_pages C X T pfs s)"
proof (induction pfs arbitrary: s)
  case (Cons pf pfs)
  {
    case 1
    show ?case unfolding anon_free_pages.simps by (rule ok_rules ok_cache assms Cons.IH 1 | assumption)+
  next
    case 2
    show ?case unfolding shadow_free_pages.simps by (rule ok_rules ok_cache assms Cons.IH 2 | assumption)+
  }
qed (simp_all add: ok_ret)

lemma ok_put:
  assumes "cache_ext C X" "table_ok C T" "cache_ok C s"
  shows "okS C (anon_put C X T ob s)" "okS C (shadow_put C X T ob s)"
  unfolding anon_put_def shadow_put_def by (rule ok_rules ok_upd drop_object ok_free_pages table_okD assms | assumption | simp)+

lemma get_resident_cache: "pframe_get_resident C ob n s = Some (r, s') \<Longrightarrow> cache_ok C s \<Longrightarrow> cache_ok C s'"
  using ok_get_resident by (simp add: okP_def) blast

lemma ok_find: "cache_ok C s \<Longrightarrow> okP C (shadow_find C n ob s)"
proof -
  have "case y of (r, s') \<Rightarrow> cache_ok C s \<longrightarrow> cache_ok C s'" if "shadow_find C n ob s = Some y" for y
    by (rule shadow_find.raw_induct [OF _ that])
      (auto simp: bind_eq_Some_conv split: option.splits if_splits dest: get_resident_cache)
  then show "cache_ok C s \<Longrightarrow> okP C (shadow_find C n ob s)" by (fastforce simp: okP_def)
qed

lemma ok_source: "cache_ok C s \<Longrightarrow> okP C (shadow_source C n ob s)"
proof -
  have "case y of (r, s') \<Rightarrow> cache_ok C s \<longrightarrow> cache_ok C s'" if "shadow_source C n ob s = Some y" for y
    by (rule shadow_source.raw_induct [OF _ that])
      (auto simp: bind_eq_Some_conv split: option.splits if_splits; metis get_resident_cache)
  then show "cache_ok C s \<Longrightarrow> okP C (shadow_source C n ob s)" by (fastforce simp: okP_def)
qed

lemma ok_copy: "cache_ok C s \<Longrightarrow> okS C (copy_page t f s)"
  unfolding copy_page_def by (rule ok_rules ok_pf_upd | assumption | simp)+

lemma ok_dirtypage: "cache_ok C s \<Longrightarrow> okP C (anon_dirtypage ob pf s)" "cache_ok C s \<Longrightarrow> okP C (shadow_dirtypage ob pf s)"
  unfolding anon_dirtypage_def shadow_dirtypage_def by (rule ok_rules ok_pf_upd | assumption | simp)+

lemma ok_lookup:
  assumes "cache_ext C X" "table_ok C T" "cache_ok C s"
  shows "okP C (anon_lookuppage E C X T ob n w s)" "okP C (shadow_lookuppage E C X T ob n w s)"
  unfolding anon_lookuppage_def shadow_lookuppage_def pframe_lookup_def
  by (rule ok_rules ok_find ok_cache ok_dirtypage table_okD assms | assumption)+

lemma ok_fillpage:
  assumes "table_ok C T" "cache_ok C s"
  shows "okP C (anon_fillpage C ob pf s)" "okP C (shadow_fillpage C T ob pf s)"
  unfolding anon_fillpage_def shadow_fillpage_def pframe_lookup_def
  by (rule ok_rules ok_source ok_copy ok_cache ok_pf_upd table_okD assms | assumption | simp)+

lemma ok_cleanpage:
  assumes "table_ok C T" "cache_ok C s"
  shows "okP C (anon_cleanpage ob pf s)" "okP C (shadow_cleanpage T ob pf s)"
  unfolding anon_cleanpage_def shadow_cleanpage_def by (rule ok_rules ok_copy ok_pf_upd table_okD assms | assumption | simp)+

lemma table_ok_step:
  assumes "cache_ext C X" "table_ok C T"
  shows "table_ok C (obj_table E C X T)"
  unfolding table_ok_def obj_table_def obj_ops.simps
proof (rule conjI)
  have "same_cache s s'" if "vo_vref X ob s = Some s'" for ob and s s' :: "'a vm_st_scheme" using assms(1) that by (simp add: cache_ext_def)
  then show "\<forall>ob s s'. (do { m \<leftarrow> mmobjs s ob; case mmo_ops m of Anon_mmobj_ops \<Rightarrow> anon_ref ob s | Shadow_mmobj_ops \<Rightarrow> shadow_ref ob s
      | Vnode_mmobj_ops \<Rightarrow> vo_vref X ob s }) = Some s' \<longrightarrow> same_cache s s'"
    by (auto simp: bind_eq_Some_conv ref_cache split: mmobj_ops.split_asm)
qed (rule conjI allI impI ok_rules ok_ops ok_put ok_lookup ok_fillpage ok_dirtypage ok_cleanpage cache_extD assms | assumption)+

lemma table_ok_n: "cache_ext C X \<Longrightarrow> table_ok C (obj_ops_n E C X n)"
  by (induction n) (simp_all add: table_ok_step, simp add: table_ok_def ok_ret)

subsection \<open>The page-out daemon\<close>

lemma ok_clean_all:
  assumes X: "cache_ext C X" and T: "table_ok C T"
  shows "cache_ok C s \<Longrightarrow> okS C (pframe_clean_all C X T rest s)"
proof -
  have "cache_ok C s \<Longrightarrow> cache_ok C s'" if "pframe_clean_all C X T rest s = Some s'" for s'
  proof (rule pframe_clean_all.raw_induct [OF _ that, of "\<lambda>C' X' T' rest s s'. C' = C \<longrightarrow> X' = X \<longrightarrow> T' = T \<longrightarrow> cache_ok C s \<longrightarrow> cache_ok C s'", rule_format])
    fix f C' X' T' rest s y
    assume IH: "\<And>C' X' T' rest s y. f C' X' T' rest s = Some y \<Longrightarrow> C' = C \<Longrightarrow> X' = X \<Longrightarrow> T' = T \<Longrightarrow> cache_ok C s \<Longrightarrow> cache_ok C y"
      and run: "(case rest of [] \<Rightarrow> Some s
      | pf # pfs \<Rightarrow> do {
          p \<leftarrow> pframes s pf;
          _ \<leftarrow> kassert (\<not> pframe_is_pinned p);
          _ \<leftarrow> kassert (\<not> pframe_is_free p);
          if pf_busy p then do {
            s \<leftarrow> vm_sleep X' (Pf_waitq pf) s;
            f C' X' T' (alloc_list s) s
          } else if pf_dirty p then do {
            (_, s) \<leftarrow> pframe_clean C' X' T' pf s;
            f C' X' T' (alloc_list s) s
          } else f C' X' T' pfs s
        }) = Some y" and eq: "C' = C" "X' = X" "T' = T" and ok: "cache_ok C s"
    have f: "okS C (f C X T rest s)" if "cache_ok C s" for rest s using IH that by (auto simp: okS_def)
    have "okS C (Some y)" unfolding run [symmetric] eq
      by (cases rest) (simp_all only: list.case, (rule ok_rules ok_cache cache_extD X T f ok | assumption)+)
    then show "cache_ok C y" by (simp add: okS_def)
  qed simp_all
  then show "cache_ok C s \<Longrightarrow> okS C (pframe_clean_all C X T rest s)" by (simp add: okS_def)
qed

lemma ok_reclaim:
  assumes X: "cache_ext C X" and T: "table_ok C T"
  shows "cache_ok C s \<Longrightarrow> okS C (pageoutd_reclaim C X T s)"
proof -
  have "cache_ok C s \<Longrightarrow> cache_ok C s'" if "pageoutd_reclaim C X T s = Some s'" for s'
  proof (rule pageoutd_reclaim.raw_induct [OF _ that, of "\<lambda>C' X' T' s s'. C' = C \<longrightarrow> X' = X \<longrightarrow> T' = T \<longrightarrow> cache_ok C s \<longrightarrow> cache_ok C s'", rule_format])
    fix f C' X' T' s y
    assume IH: "\<And>C' X' T' s y. f C' X' T' s = Some y \<Longrightarrow> C' = C \<Longrightarrow> X' = X \<Longrightarrow> T' = T \<Longrightarrow> cache_ok C s \<Longrightarrow> cache_ok C y"
      and run: "(if \<not> page_free_count X' s \<ge> nfreepages_target s \<and> alloc_list s \<noteq> [] then do {
        let pf = hd (alloc_list s);
        p \<leftarrow> pframes s pf;
        s \<leftarrow> (if pf_busy p then vm_sleep X' (Pf_waitq pf) s
              else if pf_dirty p then do { (_, s) \<leftarrow> pframe_clean C' X' T' pf s; Some s }
              else pframe_free C' X' T' pf s);
        f C' X' T' s
      } else Some s) = Some y" and eq: "C' = C" "X' = X" "T' = T" and ok: "cache_ok C s"
    have f: "okS C (f C X T s)" if "cache_ok C s" for s using IH that by (auto simp: okS_def)
    have "okS C (Some y)" unfolding run [symmetric] eq by (rule ok_rules ok_cache cache_extD X T f ok | assumption)+
    then show "cache_ok C y" by (simp add: okS_def)
  qed simp_all
  then show "cache_ok C s \<Longrightarrow> okS C (pageoutd_reclaim C X T s)" by (simp add: okS_def)
qed

lemma ok_round: "cache_ext C X \<Longrightarrow> table_ok C T \<Longrightarrow> cache_ok C s \<Longrightarrow> okS C (pageoutd_round C X T s)"
  unfolding pageoutd_round_def by (rule ok_rules ok_reclaim | assumption)+

subsection \<open>New objects\<close>

lemma new_object:
  assumes ok: "cache_ok C s" and m: "mmo_respages m = []" "mmo_ops m = Vnode_mmobj_ops \<Longrightarrow> \<exists>vn. vnodes s ob = Some vn \<and> vn_nrespages vn = 0"
      "mmo_ops m \<noteq> Vnode_mmobj_ops \<Longrightarrow> mmo_nrespages m = 0" and new: "\<forall>pf. owner s pf \<noteq> Some ob"
  shows "cache_ok C (s\<lparr>mmobjs := (mmobjs s)(ob \<mapsto> m)\<rparr>)"
proof -
  let ?s = "s\<lparr>mmobjs := (mmobjs s)(ob \<mapsto> m)\<rparr>"
  have "frames_ok C ?s" using cache_okD(1) [OF ok] frames_ok_same [of s ?s C] by (simp add: same_frames_def)
  moreover have "owner ?s = owner s" by (rule owner_cong) simp
  moreover have "resident ?s = (resident s)(ob \<mapsto> [])" "nres ?s = (nres s)(ob \<mapsto> 0)"
    using m by (auto simp: resident_def nres_def fun_eq_iff)
  ultimately show ?thesis using cache_okD(2) [OF ok] new by (auto simp: cache_ok_def res_ok_def)
qed

lemma ok_create:
  assumes X: "cache_ext C X" and ok: "cache_ok C s"
  shows "anon_create X s = Some (ob, s') \<Longrightarrow> \<forall>pf. owner s pf \<noteq> Some ob \<Longrightarrow> cache_ok C s'"
    "shadow_create X s = Some (ob, s') \<Longrightarrow> \<forall>pf. owner s pf \<noteq> Some ob \<Longrightarrow> cache_ok C s'"
    "vnodes s ob = Some vn \<Longrightarrow> vn_nrespages vn = 0 \<Longrightarrow> \<forall>pf. owner s pf \<noteq> Some ob \<Longrightarrow>
      cache_ok C (s\<lparr>mmobjs := (mmobjs s)(ob \<mapsto> mmobj_init X Vnode_mmobj_ops)\<rparr>)"
proof -
  have i: "mmo_ops (mmobj_init X ops) = ops" "mmo_respages (mmobj_init X ops) = []" "mmo_nrespages (mmobj_init X ops) = 0" for ops
    using X by (simp_all add: cache_ext_def)
  show "anon_create X s = Some (ob, s') \<Longrightarrow> \<forall>pf. owner s pf \<noteq> Some ob \<Longrightarrow> cache_ok C s'"
    "shadow_create X s = Some (ob, s') \<Longrightarrow> \<forall>pf. owner s pf \<noteq> Some ob \<Longrightarrow> cache_ok C s'"
    "vnodes s ob = Some vn \<Longrightarrow> vn_nrespages vn = 0 \<Longrightarrow> \<forall>pf. owner s pf \<noteq> Some ob \<Longrightarrow>
      cache_ok C (s\<lparr>mmobjs := (mmobjs s)(ob \<mapsto> mmobj_init X Vnode_mmobj_ops)\<rparr>)"
    by (auto simp: anon_create_def shadow_create_def bind_eq_Some_conv i intro!: new_object [OF ok])
qed

subsection \<open>Runs\<close>

text \<open>
  The steps are the calls that other components make, with the operations of memory objects nested to any
  depth \<open>d\<close>, and the creation of memory objects; \<open>vget_obj\<close> is what vget does when it initializes the memory object of
  a vnode it enters. The memory of a new object is not that of an object some frame belongs to. \<^verbatim>\<open>pframe_migrate\<close> is left out; nothing in the repository calls it, and while it moves a frame the frame
  is in no hash chain.
\<close>

inductive cache_step :: "(errno \<Rightarrow> int) \<Rightarrow> mconf \<Rightarrow> 'a vm_st_scheme vm_ext \<Rightarrow> nat \<Rightarrow> 'a vm_st_scheme \<Rightarrow> 'a vm_st_scheme \<Rightarrow> bool"
  for E C X d where
  get: "pframe_get E C X (obj_ops_n E C X d) ob n s = Some (r, s') \<Longrightarrow> cache_step E C X d s s'"
| get_resident: "pframe_get_resident C ob n s = Some (r, s') \<Longrightarrow> cache_step E C X d s s'"
| lookup: "pframe_lookup (obj_ops_n E C X d) ob n w s = Some (r, s') \<Longrightarrow> cache_step E C X d s s'"
| pin: "pframe_pin pf s = Some s' \<Longrightarrow> cache_step E C X d s s'"
| unpin: "pframe_unpin pf s = Some s' \<Longrightarrow> cache_step E C X d s s'"
| dirty: "pframe_dirty (obj_ops_n E C X d) pf s = Some (r, s') \<Longrightarrow> cache_step E C X d s s'"
| clean: "pframe_clean C X (obj_ops_n E C X d) pf s = Some (r, s') \<Longrightarrow> cache_step E C X d s s'"
| free: "pframe_free C X (obj_ops_n E C X d) pf s = Some s' \<Longrightarrow> cache_step E C X d s s'"
| ref: "oref (obj_ops_n E C X d) ob s = Some s' \<Longrightarrow> cache_step E C X d s s'"
| put: "oput (obj_ops_n E C X d) ob s = Some s' \<Longrightarrow> cache_step E C X d s s'"
| anon: "anon_create X s = Some (ob, s') \<Longrightarrow> \<forall>pf. owner s pf \<noteq> Some ob \<Longrightarrow> cache_step E C X d s s'"
| shadow: "shadow_create X s = Some (ob, s') \<Longrightarrow> \<forall>pf. owner s pf \<noteq> Some ob \<Longrightarrow> cache_step E C X d s s'"
| vget_obj: "vnodes s v = Some vn \<Longrightarrow> vn_nrespages vn = 0 \<Longrightarrow> \<forall>pf. owner s pf \<noteq> Some v \<Longrightarrow>
    cache_step E C X d s (s\<lparr>mmobjs := (mmobjs s)(v \<mapsto> mmobj_init X Vnode_mmobj_ops)\<rparr>)"
| clean_all: "pframe_clean_all C X (obj_ops_n E C X d) (alloc_list s) s = Some s' \<Longrightarrow> cache_step E C X d s s'"
| round: "pageoutd_round C X (obj_ops_n E C X d) s = Some s' \<Longrightarrow> cache_step E C X d s s'"

lemma cache_step_ok:
  assumes X: "cache_ext C X" and ok: "cache_ok C s" and st: "cache_step E C X d s s'"
  shows "cache_ok C s'"
proof -
  have T: "table_ok C (obj_ops_n E C X d)" by (rule table_ok_n [OF X])
  note keep = ok_get [OF X T ok] ok_get_resident [OF ok] table_okD [OF T ok] ok_pin [OF ok] ok_unpin [OF ok] ok_dirty [OF T ok]
    ok_clean [OF X T ok] ok_free [OF X T ok] ok_clean_all [OF X T ok] ok_round [OF X T ok]
  from st show ?thesis by cases (unfold pframe_lookup_def, (erule (1) ok_create [OF X ok] | erule keep [unfolded okS_def okP_def, rule_format]
    | (simp only:, erule (2) ok_create [OF X ok]))+)
qed

interpretation pcache: step_system "cache_step E C X d" "\<lambda>s. cache_ext C X \<and> cache_ok C s" for E C X d
  by unfold_locales (auto intro: cache_step_ok)

lemma init_frames:
  assumes "pframe_init X al s = Some s'" "pframes s = Map.empty"
  shows "frames_ok C s' \<and> pframes s' = Map.empty \<and> mmobjs s' = mmobjs s \<and> vnodes s' = vnodes s"
  using assms by (auto simp: pframe_init_def Let_def bind_eq_Some_conv frames_ok_def hash_ok_def sched_queue_init_def split: if_split_asm)

lemma init_cache:
  assumes "pframe_init X al s = Some s'" "pframes s = Map.empty" "mmobjs s = Map.empty"
  shows "cache_ok C s'"
  using init_frames [OF assms(1,2), of C] assms(3) by (simp add: cache_ok_def res_ok_def resident_def)

text \<open>
  C7: The page cache stays well-formed. Whatever calls are made after pframe_init, every frame is in its hash
  chain, no object has two frames for one page, the lists of allocated and pinned frames hold the frames
  without and with pins, once each, and the counters are their lengths (\<open>cache_ok\<close>). The list of resident pages of
  a memory object holds the frames of that object and no others, once each, and its count (the vnode's own field for a vnode) is the
  length of the list. So pframe_get_resident returns the frame of an object and a page number when there is
  one, and null only when there is none.
\<close>

theorem cache_run_ok:
  assumes "cache_ext C X" "pframes s0 = Map.empty" "mmobjs s0 = Map.empty" "pframe_init X al s0 = Some s1" "(cache_step E C X d)\<^sup>*\<^sup>* s1 s"
  shows "cache_ok C s
     \<and> (\<forall>ob m. mmobjs s ob = Some m \<longrightarrow> distinct (mmo_respages m)
         \<and> (\<forall>pf. pf \<in> set (mmo_respages m) \<longleftrightarrow> (\<exists>p. pframes s pf = Some p \<and> pf_obj p = Some ob))
         \<and> (if mmo_ops m = Vnode_mmobj_ops then (\<forall>vn. vnodes s ob = Some vn \<longrightarrow> vn_nrespages vn = int (length (mmo_respages m)))
            else mmo_nrespages m = int (length (mmo_respages m))))
     \<and> (\<forall>ob n. \<exists>r s'. pframe_get_resident C ob n s = Some (r, s') \<and>
         (\<forall>pf. r = Some pf \<longleftrightarrow> (\<exists>p. pframes s pf = Some p \<and> pf_obj p = Some ob \<and> pf_pagenum p = n)))"
proof -
  from pcache.run_inv [OF assms(5)] assms(1) init_cache [OF assms(4,2,3)] have ok: "cache_ok C s" by blast
  note h = cache_okD(3) [OF ok]
  show ?thesis using ok pframe_get_resident_eq [OF h] frame_of_iff [OF h] res_okD [OF cache_okD(2) [OF ok]] by (simp add: identity_def)
qed

lemma demo_cache_ext: "cache_ext demo_mconf demo_vm"
  by (auto simp: cache_ext_def demo_vm_def demo_obj_def ok_ret dest: free_from_None)

theorem cache_run_ok_witness:
  "\<exists>s1 s pf s'. pframe_init demo_vm (Some 5) (vmdemo\<lparr>pframes := Map.empty, mmobjs := Map.empty\<rparr>) = Some s1 \<and>
     (cache_step errno_std demo_mconf demo_vm 2)\<^sup>*\<^sup>* s1 s \<and> cache_ok demo_mconf s \<and>
     pframe_get_resident demo_mconf 60 3 s = Some (Some pf, s') \<and> (\<forall>m. mmobjs s 60 = Some m \<longrightarrow> set (mmo_respages m) = {pf})"
proof -
  let ?init = "vmdemo\<lparr>pframes := Map.empty, mmobjs := Map.empty\<rparr>" and ?T = "obj_ops_n errno_std demo_mconf demo_vm 1"
  obtain s0 where s0: "pframe_init demo_vm (Some 5) ?init = Some s0" by (simp add: pframe_init_def Let_def)
  have fields: "pframes s0 = Map.empty" "mmobjs s0 = Map.empty" using init_frames [OF s0] by simp_all
  define s1 where "s1 = s0\<lparr>mmobjs := [60 \<mapsto> (demo_obj Anon_mmobj_ops)\<lparr>mmo_refcount := 1\<rparr>]\<rparr>"
  have c: "anon_create demo_vm s0 = Some (60, s1)" using fields by (simp add: anon_create_def demo_vm_def free_from_def s1_def)
  have st1: "cache_step errno_std demo_mconf demo_vm 2 s0 s1" by (rule cache_step.anon [OF c]) (simp add: owner_def fields)
  have ok: "hash_ok demo_mconf s1" using cache_step_ok [OF demo_cache_ext init_cache [OF s0] st1] by (simp add: cache_okD)
  have f1: "pframes s1 = Map.empty" using fields by (simp add: s1_def)
  then have "frame_of demo_mconf s1 60 3 = None" using frame_of_iff [OF ok, of 60 3] by (cases "frame_of demo_mconf s1 60 3") auto
  moreover have "live_anon s1 60" unfolding live_anon_def by (simp add: s1_def demo_obj_def)
  moreover have "can_alloc demo_vm s1" unfolding can_alloc_def using f1 by (simp add: demo_vm_def free_from_def)
  ultimately obtain pf p s where g: "pframe_get errno_std demo_mconf demo_vm (obj_table errno_std demo_mconf demo_vm ?T) 60 3 s1 = Some ((0, Some pf), s)"
    and p: "pframes s = (pframes s1)(pf \<mapsto> p)" "identity p 60 3" using anon_get_new [OF ok, of 60 3 demo_vm errno_std ?T] by blast
  have "obj_ops_n errno_std demo_mconf demo_vm 2 = obj_table errno_std demo_mconf demo_vm ?T" by (simp add: numeral_2_eq_2)
  from cache_step.get [of errno_std demo_mconf demo_vm 2, unfolded this, OF g] st1
  have run: "(cache_step errno_std demo_mconf demo_vm 2)\<^sup>*\<^sup>* s0 s" by (simp add: converse_rtranclp_into_rtranclp)
  note c7 = cache_run_ok [OF demo_cache_ext _ _ s0 run, simplified]
  have pf: "pframes s pf = Some p \<and> pf_obj p = Some 60 \<and> pf_pagenum p = 3" using p by (simp add: identity_def)
  obtain r s' where r: "pframe_get_resident demo_mconf 60 3 s = Some (r, s')"
    "\<forall>pf. r = Some pf \<longleftrightarrow> (\<exists>p. pframes s pf = Some p \<and> pf_obj p = Some 60 \<and> pf_pagenum p = 3)" using c7 by blast
  from r(2) pf have "r = Some pf" by blast
  with r(1) have "pframe_get_resident demo_mconf 60 3 s = Some (Some pf, s')" by simp
  moreover have "set (mmo_respages m) = {pf}" if m: "mmobjs s 60 = Some m" for m
  proof -
    have "x \<in> set (mmo_respages m) \<longleftrightarrow> (\<exists>p. pframes s x = Some p \<and> pf_obj p = Some 60)" for x using c7 m by blast
    moreover have "(\<exists>p. pframes s x = Some p \<and> pf_obj p = Some 60) \<longleftrightarrow> x = pf" for x using pf by (auto simp: p(1) f1)
    ultimately show ?thesis by auto
  qed
  ultimately show ?thesis using s0 run c7 by blast
qed

end
