(* ===== verification/Vm_User.thy ===== *)
theory Vm_User
  imports Vm_Shadow Vm_Inv
begin

section \<open>User memory\<close>

text \<open>
  What \<^verbatim>\<open>vmmap_read\<close>, \<^verbatim>\<open>vmmap_write\<close> and \<^verbatim>\<open>handle_pagefault\<close> need of the memory object behind an area is the
  locale \<open>page_source\<close>: a lookup for writing gives a frame of the object, with the data the object shows as the
  page; a lookup for reading gives a frame with that data; writing to a frame of the object changes what it
  shows for that page. The copying of user memory and the handling of page faults are verified against this
  contract, which anonymous objects and chains of shadow objects meet.
\<close>

subsection \<open>The contract of a memory object\<close>

definition own :: "'a vm_st_scheme \<Rightarrow> ptr \<Rightarrow> u32 \<Rightarrow> ptr \<Rightarrow> pframe \<Rightarrow> bool" where
  "own s ob n pf p \<longleftrightarrow> pframes s pf = Some p \<and> identity p ob n \<and> \<not> pf_busy p \<and> unwatched s pf \<and> 0 \<le> pf_pincount p \<and> pf_addr p \<noteq> 0"

lemma ownD:
  assumes "own s ob n pf p"
  shows "pframes s pf = Some p" "identity p ob n" "pf_obj p = Some ob" "\<not> pf_busy p" "tq_list (queues s (Pf_waitq pf)) = []"
    "0 \<le> pf_pincount p" "pf_addr p \<noteq> 0"
  using assms by (simp_all add: own_def identity_def unwatched_def)

definition area_at :: "'a vm_st_scheme \<Rightarrow> ptr \<Rightarrow> u32 \<Rightarrow> ptr \<Rightarrow> vmarea \<Rightarrow> bool" where
  "area_at s mp pn ob v \<longleftrightarrow> (\<exists>a. vmmap_lookup mp pn s = Some (Some a) \<and> vmareas s a = Some v \<and> vma_obj v = Some ob)"

definition obj_page :: "vmarea \<Rightarrow> u32 \<Rightarrow> u32" where
  "obj_page v pn = pn - vma_start v + vma_off v"

definition overwrite :: "nat \<Rightarrow> 8 word list \<Rightarrow> 8 word list \<Rightarrow> 8 word list" where
  "overwrite off bs d = take off d @ bs @ drop (off + length bs) d"

lemma overwrite_simps [simp]:
  "off + length bs \<le> length d \<Longrightarrow> length (overwrite off bs d) = length d"
  "off + length bs \<le> length d \<Longrightarrow> take (length bs) (drop off (overwrite off bs d)) = bs"
  by (simp_all add: overwrite_def)

lemma area_at_space: "same_space s s' \<Longrightarrow> area_at s' = area_at s"
  by (intro ext) (simp add: area_at_def vmmap_lookup_def same_space_def)

lemma cur_proc_space: "same_space s s' \<Longrightarrow> cur_proc s' = cur_proc s"
  by (simp add: cur_proc_def same_space_def)

locale page_source =
  fixes T :: "'a vm_st_scheme obj_ops" and ob :: ptr
    and wf pre :: "'a vm_st_scheme \<Rightarrow> bool" and view :: "'a vm_st_scheme \<Rightarrow> u32 \<Rightarrow> 8 word list"
  assumes lookup_write: "pre s \<Longrightarrow> \<exists>pf p s'. olookuppage T ob n True s = Some ((0, Some pf), s') \<and> own s' ob n pf p \<and> wf s' \<and>
      view s' = view s \<and> same_space s s'"
    and lookup_own: "wf s \<Longrightarrow> own s ob n pf p \<Longrightarrow> \<exists>s'. olookuppage T ob n True s = Some ((0, Some pf), s') \<and> own s' ob n pf p \<and> wf s' \<and>
      view s' = view s \<and> same_space s s'"
    and lookup_read: "pre s \<Longrightarrow> \<exists>pf p s'. olookuppage T ob n False s = Some ((0, Some pf), s') \<and> pframes s' pf = Some p \<and> pf_addr p \<noteq> 0 \<and>
      pf_data p = view s n \<and> view s' = view s \<and> same_space s s'"
    and modify: "wf s \<Longrightarrow> pframes s pf = Some p \<Longrightarrow> identity p ob n \<Longrightarrow> identity p' ob n \<Longrightarrow> pframes s' = (pframes s)(pf \<mapsto> p') \<Longrightarrow>
      pframe_hash s' = pframe_hash s \<Longrightarrow> mmobjs s' = mmobjs s \<Longrightarrow> wf s' \<and> view s' = (view s)(n := pf_data p')"
    and dirtypage: "wf s \<Longrightarrow> \<exists>r. odirtypage T ob pf s = do { s \<leftarrow> pf_upd pf (\<lambda>p. p\<lparr>pf_dirty := True\<rparr>) s; Some (r, s) }"
begin

lemma own_view: "wf s \<Longrightarrow> own s ob n pf p \<Longrightarrow> view s n = pf_data p"
  using modify [of s pf p n p s] by (auto simp: own_def fun_upd_idem fun_eq_iff split: if_split_asm)

lemma own_update:
  assumes "wf s" "own s ob n pf p" "own s' ob n pf p'" "pframes s' = (pframes s)(pf \<mapsto> p')" "pframe_hash s' = pframe_hash s" "mmobjs s' = mmobjs s"
  shows "wf s' \<and> view s' = (view s)(n := pf_data p')"
  by (rule modify [OF assms(1) ownD(1,2) [OF assms(2)] ownD(2) [OF assms(3)] assms(4-6)])

lemma same_data: "wf s \<Longrightarrow> own s ob n pf p \<Longrightarrow> (view s)(n := pf_data p) = view s"
  by (simp add: own_view [symmetric])

lemma pin:
  assumes "wf s" "own s ob n pf p"
  shows "\<exists>s'. pframe_pin pf s = Some s' \<and> own s' ob n pf (p\<lparr>pf_pincount := pf_pincount p + 1\<rparr>) \<and> wf s' \<and> view s' = view s \<and> same_space s s'"
proof -
  note o = ownD [OF assms(2)]
  obtain s' where s': "pframe_pin pf s = Some s'" "pframes s' = (pframes s)(pf \<mapsto> p\<lparr>pf_pincount := pf_pincount p + 1\<rparr>)"
    "pframe_hash s' = pframe_hash s" "mmobjs s' = mmobjs s" "queues s' = queues s"
    using o by (cases "pframe_is_pinned p") (simp_all add: pframe_pin_def pframe_is_free_def pf_upd_def)
  have own: "own s' ob n pf (p\<lparr>pf_pincount := pf_pincount p + 1\<rparr>)" using o s' by (simp add: own_def unwatched_def identity_def)
  from own_update [OF assms this s'(2-4)] same_data [OF assms] keepSD [OF keep_pin [OF same_space_refl] s'(1)] own s'(1) show ?thesis by simp
qed

lemma unpin:
  assumes "wf s" "own s ob n pf p" "0 < pf_pincount p"
  shows "\<exists>s'. pframe_unpin pf s = Some s' \<and> own s' ob n pf (p\<lparr>pf_pincount := pf_pincount p - 1\<rparr>) \<and> wf s' \<and> view s' = view s \<and> same_space s s'"
proof -
  note o = ownD [OF assms(2)]
  obtain s' where s': "pframe_unpin pf s = Some s'" "pframes s' = (pframes s)(pf \<mapsto> p\<lparr>pf_pincount := pf_pincount p - 1\<rparr>)"
    "pframe_hash s' = pframe_hash s" "mmobjs s' = mmobjs s" "queues s' = queues s"
    using o assms(3) by (cases "pf_pincount p = 1") (simp_all add: pframe_unpin_def pframe_is_free_def pf_upd_def)
  have own: "own s' ob n pf (p\<lparr>pf_pincount := pf_pincount p - 1\<rparr>)" using o s' assms(3) by (simp add: own_def unwatched_def identity_def)
  from own_update [OF assms(1,2) this s'(2-4)] same_data [OF assms(1,2)] keepSD [OF keep_unpin [OF same_space_refl] s'(1)] own s'(1) show ?thesis by simp
qed

lemma dirty:
  assumes "wf s" "own s ob n pf p"
  shows "\<exists>r s'. pframe_dirty T pf s = Some (r, s') \<and> own s' ob n pf (p\<lparr>pf_dirty := True\<rparr>) \<and> wf s' \<and> view s' = view s \<and> same_space s s'"
proof -
  note o = ownD [OF assms(2)]
  let ?s1 = "s\<lparr>pframes := (pframes s)(pf \<mapsto> p\<lparr>pf_busy := True\<rparr>)\<rparr>" and ?p2 = "p\<lparr>pf_dirty := True, pf_busy := False\<rparr>"
  let ?s2 = "s\<lparr>pframes := (pframes s)(pf \<mapsto> ?p2)\<rparr>"
  have p2: "p\<lparr>pf_dirty := True\<rparr> = ?p2" using o(4) by (cases p) simp
  have "wf ?s1" using modify [OF assms(1) o(1,2), of "p\<lparr>pf_busy := True\<rparr>" ?s1] o(2) by (simp add: identity_def)
  then obtain r where "odirtypage T ob pf ?s1 = do { s \<leftarrow> pf_upd pf (\<lambda>p. p\<lparr>pf_dirty := True\<rparr>) ?s1; Some (r, s) }" using dirtypage by blast
  moreover have "sched_broadcast_on (Pf_waitq pf) ?s2 = Some ?s2" using o(5) by (intro broadcast_empty) simp
  ultimately have run: "pframe_dirty T pf s = Some (r, ?s2)" using o by (simp add: pframe_dirty_def pf_upd_def)
  have own: "own ?s2 ob n pf ?p2" using o by (simp add: own_def unwatched_def identity_def)
  have "wf ?s2 \<and> view ?s2 = view s" using own_update [OF assms own] same_data [OF assms] by simp
  with own run have "pframe_dirty T pf s = Some (r, ?s2) \<and> own ?s2 ob n pf ?p2 \<and> wf ?s2 \<and> view ?s2 = view s \<and> same_space s ?s2" by simp
  then show ?thesis unfolding p2 [symmetric] by blast
qed

lemma write_page_view:
  assumes "pre s" "area_at s mp pn ob v" "off + length bs \<le> length (view s (obj_page v pn))"
  shows "\<exists>pf p s'. write_page T mp pn off bs s = Some s' \<and> own s' ob (obj_page v pn) pf p \<and> wf s' \<and> same_space s s' \<and>
     view s' = (view s)(obj_page v pn := overwrite off bs (view s (obj_page v pn)))"
proof -
  let ?n = "obj_page v pn"
  let ?d = "overwrite off bs (view s ?n)"
  obtain a where a: "vmmap_lookup mp pn s = Some (Some a)" "vmareas s a = Some v" "vma_obj v = Some ob" using assms(2) by (auto simp: area_at_def)
  obtain pf p s1 where g: "olookuppage T ob ?n True s = Some ((0, Some pf), s1)" and o: "own s1 ob ?n pf p" and w: "wf s1" "view s1 = view s"
    and sp: "same_space s s1" using lookup_write [OF assms(1)] by blast
  have d: "pf_data p = view s ?n" using own_view [OF w(1) o] w(2) by simp
  let ?s2 = "s1\<lparr>pframes := (pframes s1)(pf \<mapsto> p\<lparr>pf_data := ?d\<rparr>)\<rparr>"
  have o2: "own ?s2 ob ?n pf (p\<lparr>pf_data := ?d\<rparr>)" using o by (simp add: own_def unwatched_def identity_def)
  have w2: "wf ?s2" "view ?s2 = (view s)(?n := ?d)" using own_update [OF w(1) o o2] w(2) by simp_all
  from dirty [OF w2(1) o2] obtain r s' where s': "pframe_dirty T pf ?s2 = Some (r, s')" "own s' ob ?n pf (p\<lparr>pf_data := ?d, pf_dirty := True\<rparr>)"
    "wf s'" "view s' = view ?s2" "same_space ?s2 s'" by blast
  have "write_page T mp pn off bs s = Some s'" using a g s'(1) ownD(1) [OF o] d assms(3)
    by (simp add: write_page_def user_frame_def pframe_lookup_def obj_page_def mem_write_def overwrite_def pf_upd_def)
  moreover have "same_space s s'" using sp s'(5) by (simp add: same_space_def)
  ultimately show ?thesis using s' w2(2) by (intro exI [of _ pf] exI [of _ s'] exI conjI) (assumption | simp)+
qed

lemma read_page_own:
  assumes "wf s" "own s ob (obj_page v pn) pf p" "area_at s mp pn ob v" "off + n \<le> length (view s (obj_page v pn))"
  shows "\<exists>s'. read_page T mp pn off n s = Some (take n (drop off (view s (obj_page v pn))), s') \<and> view s' = view s \<and> same_space s s'"
proof -
  obtain a where a: "vmmap_lookup mp pn s = Some (Some a)" "vmareas s a = Some v" "vma_obj v = Some ob" using assms(3) by (auto simp: area_at_def)
  obtain s' where s': "olookuppage T ob (obj_page v pn) True s = Some ((0, Some pf), s')" "own s' ob (obj_page v pn) pf p" "view s' = view s"
    "same_space s s'" using lookup_own [OF assms(1,2)] by blast
  with own_view [OF assms(1,2)] a assms(4) show ?thesis
    by (simp add: read_page_def user_frame_def pframe_lookup_def obj_page_def mem_read_def ownD(1))
qed

end

subsection \<open>Pages and addresses\<close>

definition in_page :: "mconf \<Rightarrow> u32 \<Rightarrow> u32 \<Rightarrow> bool" where
  "in_page C va n \<longleftrightarrow> PAGE_SHIFT C < 32 \<and> 0 < n \<and> PAGE_OFFSET C va + unat n < PAGE_SIZE C \<and> unat va + PAGE_SIZE C < 2 ^ 32"

lemma pn_unat: "unat (ADDR_TO_PN C va) = unat va div PAGE_SIZE C" "PAGE_OFFSET C va = unat va mod PAGE_SIZE C"
  unfolding ADDR_TO_PN_def PAGE_OFFSET_def unat_drop_bit_eq unsigned_take_bit_eq by (simp_all add: PAGE_SIZE_def drop_bit_eq_div take_bit_eq_mod)

lemma same_pn:
  assumes "PAGE_OFFSET C va + unat n < PAGE_SIZE C" "unat va + unat n < 2 ^ 32"
  shows "ADDR_TO_PN C (va + n) = ADDR_TO_PN C va"
proof -
  have "unat (va + n) = unat va + unat n" using assms(2) by (simp add: unat_word_ariths)
  moreover have "(unat va + unat n) div PAGE_SIZE C = unat va div PAGE_SIZE C"
    using assms(1) div_add1_eq [of "unat va" "unat n" "PAGE_SIZE C"] unfolding pn_unat(2) by simp
  ultimately show ?thesis by (simp add: word_unat_eq_iff pn_unat)
qed

lemma in_page_pn:
  assumes "in_page C va n"
  shows "ADDR_TO_PN C (va + n) = ADDR_TO_PN C va" "ADDR_TO_PN C (va - 1 + n) = ADDR_TO_PN C va"
    "va < va + n" "\<not> va + of_nat (PAGE_SIZE C) < va + n"
proof -
  from assms have n: "0 < unat n" "PAGE_OFFSET C va + unat n < PAGE_SIZE C" "unat va + PAGE_SIZE C < 2 ^ 32"
    by (simp_all add: in_page_def unat_gt_0 word_neq_0_conv)
  then have sum: "unat (va + n) = unat va + unat n" "unat (va + of_nat (PAGE_SIZE C)) = unat va + PAGE_SIZE C"
    by (simp_all add: unat_word_ariths unat_of_nat)
  have n1: "unat (n - 1) = unat n - 1" using n(1) by (simp add: unat_sub word_le_nat_alt)
  show "ADDR_TO_PN C (va + n) = ADDR_TO_PN C va" using n by (intro same_pn) simp_all
  have "ADDR_TO_PN C (va + (n - 1)) = ADDR_TO_PN C va" using n n1 by (intro same_pn) simp_all
  then show "ADDR_TO_PN C (va - 1 + n) = ADDR_TO_PN C va" by (simp add: algebra_simps)
  show "va < va + n" "\<not> va + of_nat (PAGE_SIZE C) < va + n" using n sum by (simp_all add: word_less_nat_alt)
qed

lemma addr_perm_area:
  assumes "area_at s mp (ADDR_TO_PN C va) ob v" "p_vmmap pr = Some mp"
  shows "vma_prot v AND PROT_READ C \<noteq> 0 \<Longrightarrow> addr_perm C pr va (PROT_READ C) s = Some 1"
    "vma_prot v AND PROT_WRITE C \<noteq> 0 \<Longrightarrow> addr_perm C pr va (PROT_WRITE C) s = Some 1"
  using assms by (auto simp: area_at_def addr_perm_def)

text \<open>A range that ends where its page ends.\<close>

definition to_page_end :: "mconf \<Rightarrow> u32 \<Rightarrow> u32 \<Rightarrow> bool" where
  "to_page_end C va n \<longleftrightarrow> 0 < n \<and> PAGE_OFFSET C va + unat n = PAGE_SIZE C \<and> unat va + PAGE_SIZE C < 2 ^ 32"

lemma to_page_end_pn:
  assumes "to_page_end C va n"
  shows "ADDR_TO_PN C (va + n) = ADDR_TO_PN C va + 1" "ADDR_TO_PN C va < ADDR_TO_PN C va + 1" "ADDR_TO_PN C (va - 1 + n) = ADDR_TO_PN C va"
    "va < va + n" "\<not> va + of_nat (PAGE_SIZE C) < va + n"
proof -
  from assms have n: "0 < unat n" "unat va mod PAGE_SIZE C + unat n = PAGE_SIZE C" "unat va + PAGE_SIZE C < 2 ^ 32"
    by (simp_all add: to_page_end_def pn_unat unat_gt_0 word_neq_0_conv)
  then have sum: "unat (va + n) = unat va + unat n" "unat (va + of_nat (PAGE_SIZE C)) = unat va + PAGE_SIZE C"
    by (simp_all add: unat_word_ariths unat_of_nat)
  have ps: "0 < PAGE_SIZE C" by (simp add: PAGE_SIZE_def)
  have "unat va + unat n = unat va div PAGE_SIZE C * PAGE_SIZE C + PAGE_SIZE C" using n(2) div_mult_mod_eq [of "unat va" "PAGE_SIZE C"] by linarith
  then have d: "(unat va + unat n) div PAGE_SIZE C = unat va div PAGE_SIZE C + 1" using ps by simp
  have "unat va div PAGE_SIZE C + 1 < 2 ^ 32" using d n div_le_dividend [of "unat va + unat n" "PAGE_SIZE C"] by linarith
  then have suc: "unat (ADDR_TO_PN C va + 1) = unat va div PAGE_SIZE C + 1" by (simp add: unat_word_ariths pn_unat)
  show "ADDR_TO_PN C (va + n) = ADDR_TO_PN C va + 1" by (simp add: word_unat_eq_iff suc) (simp add: pn_unat sum d)
  show "ADDR_TO_PN C va < ADDR_TO_PN C va + 1" by (simp add: word_less_nat_alt suc) (simp add: pn_unat)
  have n1: "unat (n - 1) = unat n - 1" using n(1) by (simp add: unat_sub word_le_nat_alt)
  have "ADDR_TO_PN C (va + (n - 1)) = ADDR_TO_PN C va" using n n1 by (intro same_pn) (simp_all add: pn_unat)
  then show "ADDR_TO_PN C (va - 1 + n) = ADDR_TO_PN C va" by (simp add: algebra_simps)
  show "va < va + n" "\<not> va + of_nat (PAGE_SIZE C) < va + n" using n sum by (simp_all add: word_less_nat_alt)
qed

definition one_page :: "mconf \<Rightarrow> u32 \<Rightarrow> u32 \<Rightarrow> bool" where
  "one_page C va n \<longleftrightarrow> ADDR_TO_PN C (va - 1 + n) = ADDR_TO_PN C va \<and> va < va + n \<and> \<not> va + of_nat (PAGE_SIZE C) < va + n
     \<and> PAGE_OFFSET C va + unat n \<le> PAGE_SIZE C"

lemma one_page: "in_page C va n \<Longrightarrow> one_page C va n" "to_page_end C va n \<Longrightarrow> one_page C va n"
  using in_page_pn(2-4) [of C va n] to_page_end_pn(3-5) [of C va n] by (auto simp: one_page_def in_page_def to_page_end_def)

lemma range_perm_page:
  assumes "one_page C va n" "addr_perm C pr va perm s = Some 1"
  shows "range_perm C pr va n perm s = Some 1"
  unfolding range_perm_def using assms
  by (subst range_perm_from.simps, simp add: one_page_def, subst range_perm_from.simps, simp)

lemma keep_user_frame: "table_frame T \<Longrightarrow> keepP s (read_page T mp pn off n s)"
  unfolding read_page_def user_frame_def pframe_lookup_def by (rule keep_rules table_frameD | assumption | simp)+

subsection \<open>Copying and faulting, for any memory object\<close>

text \<open>
  \<open>permitted\<close>: the area gives the permission to do what caused the fault. \<open>fetch\<close>: an instruction was fetched.
\<close>

definition permitted :: "mconf \<Rightarrow> vmarea \<Rightarrow> u32 \<Rightarrow> bool" where
  "permitted C v cause \<longleftrightarrow> vma_prot v AND (if cause AND FAULT_WRITE C \<noteq> 0 then PROT_WRITE C
     else if cause AND FAULT_EXEC C \<noteq> 0 then PROT_EXEC C else PROT_READ C) \<noteq> 0"

definition fetch :: "mconf \<Rightarrow> u32 \<Rightarrow> bool" where
  "fetch C cause \<longleftrightarrow> cause AND FAULT_WRITE C = 0 \<and> cause AND FAULT_EXEC C \<noteq> 0"

lemma fault_checks:
  "permitted C v cause \<or> fetch C cause \<longleftrightarrow> \<not> (vma_prot v AND PROT_WRITE C = 0 \<and> cause AND FAULT_WRITE C \<noteq> 0)
     \<and> \<not> (vma_prot v AND PROT_READ C = 0 \<and> cause AND FAULT_EXEC C = 0 \<and> cause AND FAULT_WRITE C = 0)"
  by (auto simp: permitted_def fetch_def)

definition pd_flags :: "mconf \<Rightarrow> bool \<Rightarrow> u32" where
  "pd_flags C w = (if w then PD_PRESENT C OR PD_USER C OR PD_WRITE C else PD_PRESENT C OR PD_USER C)"

definition pt_flags :: "mconf \<Rightarrow> bool \<Rightarrow> u32" where
  "pt_flags C w = (if w then PT_PRESENT C OR PT_USER C OR PT_WRITE C else PT_PRESENT C OR PT_USER C)"

context page_source
begin

lemma copy_out:
  assumes "pre s" "one_page C va n" "length bs = unat n" "cur_proc s = Some (q, pr)" "p_vmmap pr = Some mp"
    and v: "area_at s mp (ADDR_TO_PN C va) ob v" "vma_prot v AND PROT_WRITE C \<noteq> 0"
    and len: "length (view s (obj_page v (ADDR_TO_PN C va))) = PAGE_SIZE C"
  shows "\<exists>pf p s'. copy_to_user E C T va bs n s = Some (0, s') \<and> own s' ob (obj_page v (ADDR_TO_PN C va)) pf p \<and> wf s' \<and> same_space s s' \<and>
     view s' = (view s)(obj_page v (ADDR_TO_PN C va) := overwrite (PAGE_OFFSET C va) bs (view s (obj_page v (ADDR_TO_PN C va))))"
proof -
  have "PAGE_OFFSET C va + length bs \<le> length (view s (obj_page v (ADDR_TO_PN C va)))" using assms(2,3) len by (simp add: one_page_def)
  from write_page_view [OF assms(1) v(1) this] show ?thesis
    using assms(2-5) range_perm_page [OF assms(2) addr_perm_area(2) [OF v(1) assms(5) v(2)]]
    by (simp add: copy_to_user_def vmmap_write_def Let_def one_page_def bind_eq_Some_conv)
qed

lemma copy_roundtrip:
  assumes "pre s" "in_page C va n" "length bs = unat n" "cur_proc s = Some (q, pr)" "p_vmmap pr = Some mp"
    and v: "area_at s mp (ADDR_TO_PN C va) ob v" "vma_prot v AND PROT_READ C \<noteq> 0" "vma_prot v AND PROT_WRITE C \<noteq> 0"
    and len: "length (view s (obj_page v (ADDR_TO_PN C va))) = PAGE_SIZE C"
  shows "\<exists>s' s''. copy_to_user E C T va bs n s = Some (0, s') \<and> copy_from_user E C T va n s' = Some ((0, bs), s'') \<and> same_space s s'' \<and>
     view s'' = (view s)(obj_page v (ADDR_TO_PN C va) := overwrite (PAGE_OFFSET C va) bs (view s (obj_page v (ADDR_TO_PN C va))))"
proof -
  let ?pn = "ADDR_TO_PN C va" and ?off = "PAGE_OFFSET C va"
  let ?k = "obj_page v ?pn"
  note one = one_page(1) [OF assms(2)]
  have fit: "?off + length bs \<le> length (view s ?k)" using assms(3) one len by (simp add: one_page_def)
  obtain pf p s' where s': "copy_to_user E C T va bs n s = Some (0, s')" "own s' ob ?k pf p" "wf s'" "same_space s s'"
    "view s' = (view s)(?k := overwrite ?off bs (view s ?k))" using copy_out [OF assms(1) one assms(3-5) v(1,3) len] by blast
  have v': "area_at s' mp ?pn ob v" "cur_proc s' = Some (q, pr)" using v(1) assms(4) area_at_space [OF s'(4)] cur_proc_space [OF s'(4)] by simp_all
  have "?off + unat n \<le> length (view s' ?k)" using fit assms(3) s'(5) by simp
  from read_page_own [OF s'(3,2) v'(1) this] obtain s'' where
    s'': "read_page T mp ?pn ?off (unat n) s' = Some (take (unat n) (drop ?off (view s' ?k)), s'')" "view s'' = view s'" "same_space s' s''" by blast
  have "take (unat n) (drop ?off (view s' ?k)) = bs" using fit s'(5) by (simp flip: assms(3))
  then have "copy_from_user E C T va n s' = Some ((0, bs), s'')"
    using v'(2) assms(5) s''(1) in_page_pn(1) [OF assms(2)] range_perm_page [OF one addr_perm_area(1) [OF v'(1) assms(5) v(2)]]
    by (simp add: copy_from_user_def vmmap_read_def Let_def)
  with s'(1) show ?thesis using same_space_trans [OF s'(4) s''(3)] s''(2) s'(5) by (intro exI conjI) (assumption | simp)+
qed

lemma page_end_faults:
  assumes "table_frame T" "to_page_end C va n" "cur_proc s = Some (q, pr)" "p_vmmap pr = Some mp"
    and v: "area_at s mp (ADDR_TO_PN C va) ob v" "vma_prot v AND PROT_READ C \<noteq> 0"
    and next_page: "vmmap_lookup mp (ADDR_TO_PN C va + 1) s = Some None"
  shows "copy_from_user E C T va n s = None"
proof -
  note pn = to_page_end_pn [OF assms(2)]
  have "read_pages T mp (ADDR_TO_PN C va + 1) (ADDR_TO_PN C va + 1) k s1 = None" if "same_space s s1" for k s1
  proof -
    have "vmmap_lookup mp (ADDR_TO_PN C va + 1) s1 = Some None" using next_page that by (simp add: vmmap_lookup_def same_space_def)
    then show ?thesis by (subst read_pages.simps) (simp add: read_page_def user_frame_def)
  qed
  then have "vmmap_read C T mp va n s = None" using pn(1,2) keepPD [OF keep_user_frame [OF assms(1)]]
    by (auto simp: vmmap_read_def Let_def split: option.split bind_split)
  with assms(3,4) range_perm_page [OF one_page(2) [OF assms(2)] addr_perm_area(1) [OF v(1) assms(4) v(2)]] show ?thesis
    by (simp add: copy_from_user_def)
qed

lemma pin_dirty_unpin:
  assumes "wf s" "own s ob n pf p"
  shows "\<exists>s1 r s2 p' s'. pframe_pin pf s = Some s1 \<and> pframe_dirty T pf s1 = Some (r, s2) \<and> pframe_unpin pf s2 = Some s' \<and> own s' ob n pf p' \<and> pf_dirty p' \<and>
     pf_addr p' = pf_addr p \<and> pf_data p' = pf_data p \<and> view s' = view s \<and> same_space s s'"
proof -
  obtain s1 where 1: "pframe_pin pf s = Some s1" "own s1 ob n pf (p\<lparr>pf_pincount := pf_pincount p + 1\<rparr>)" "wf s1" "view s1 = view s" "same_space s s1"
    using pin [OF assms] by blast
  obtain r s2 where 2: "pframe_dirty T pf s1 = Some (r, s2)" "own s2 ob n pf (p\<lparr>pf_pincount := pf_pincount p + 1, pf_dirty := True\<rparr>)" "wf s2"
    "view s2 = view s1" "same_space s1 s2" using dirty [OF 1(3,2)] by blast
  have "0 < pf_pincount (p\<lparr>pf_pincount := pf_pincount p + 1, pf_dirty := True\<rparr>)" using ownD(6) [OF assms(2)] by simp
  from unpin [OF 2(3,2) this] obtain s3 where 3: "pframe_unpin pf s2 = Some s3"
    "own s3 ob n pf (p\<lparr>pf_pincount := pf_pincount p + 1, pf_dirty := True, pf_pincount := pf_pincount p + 1 - 1\<rparr>)" "view s3 = view s2" "same_space s2 s3"
    by auto
  have "view s3 = view s" "same_space s s3" using 1(4,5) 2(4,5) 3(3,4) by (simp_all add: same_space_def)
  with 1(1) 2(1) 3(1,2) show ?thesis by (intro exI conjI) (assumption | simp)+
qed

lemma fault_maps:
  assumes "pre s" "cur_proc s = Some (q, pr)" "p_vmmap pr = Some mp" "area_at s mp (ADDR_TO_PN C va) ob v" "permitted C v cause \<or> fetch C cause"
  defines "k \<equiv> obj_page v (ADDR_TO_PN C va)" and "w \<equiv> cause AND FAULT_WRITE C \<noteq> 0"
  shows "\<exists>pf p s'. handle_pagefault E C X T irqs va cause s =
       Some (snd (pt_map X (p_pagedir pr) (PAGE_ALIGN_DOWN C va) (pt_virt_to_phys X (pf_addr p)) (pd_flags C w) (pt_flags C w) s')) \<and>
     pframes s' pf = Some p \<and> pf_data p = view s k \<and> (w \<longrightarrow> identity p ob k \<and> pf_dirty p) \<and> view s' = view s \<and> same_space s s'"
proof -
  obtain a where a: "vmmap_lookup mp (ADDR_TO_PN C va) s = Some (Some a)" "vmareas s a = Some v" "vma_obj v = Some ob"
    using assms(4) by (auto simp: area_at_def)
  note run = handle_pagefault_def assms(2,3) a pframe_lookup_def k_def [unfolded obj_page_def, symmetric] pd_flags_def pt_flags_def
  from assms(5) have den: "\<not> (vma_prot v AND PROT_WRITE C = 0 \<and> w)" "\<not> (vma_prot v AND PROT_READ C = 0 \<and> cause AND FAULT_EXEC C = 0 \<and> \<not> w)"
    by (simp_all add: fault_checks w_def)
  show ?thesis
  proof (cases w)
    case True
    obtain pf p s1 where g: "olookuppage T ob k True s = Some ((0, Some pf), s1)" and o: "own s1 ob k pf p" and w: "wf s1" "view s1 = view s"
      and sp: "same_space s s1" using lookup_write [OF assms(1)] by blast
    obtain sp sd r p' s2 where pdu: "pframe_pin pf s1 = Some sp" "pframe_dirty T pf sp = Some (r, sd)" "pframe_unpin pf sd = Some s2"
      and s2: "own s2 ob k pf p'" "pf_dirty p'" "pf_data p' = pf_data p" "view s2 = view s1" "same_space s1 s2"
      using pin_dirty_unpin [OF w(1) o] by blast
    have w0: "cause AND FAULT_WRITE C \<noteq> 0" using True by (simp add: w_def)
    have sp2: "same_space s s2" using sp s2(5) by (rule same_space_trans)
    have "handle_pagefault E C X T irqs va cause s = Some (snd (pt_map X (p_pagedir pr) (PAGE_ALIGN_DOWN C va) (pt_virt_to_phys X (pf_addr p')) (pd_flags C w) (pt_flags C w) s2))"
      using True w0 den g pdu ownD(1,7) [OF o] ownD(1) [OF s2(1)] cur_proc_space [OF sp2] by (simp add: run)
    then show ?thesis using s2 sp2 ownD(1,2) [OF s2(1)] own_view [OF w(1) o] w(2) by (intro exI conjI) (assumption | simp)+
  next
    case False
    obtain pf p s1 where g: "olookuppage T ob k False s = Some ((0, Some pf), s1)" "pframes s1 pf = Some p" "pf_addr p \<noteq> 0" "pf_data p = view s k" "view s1 = view s"
      and sp: "same_space s s1" using lookup_read [OF assms(1)] by blast
    have "handle_pagefault E C X T irqs va cause s = Some (snd (pt_map X (p_pagedir pr) (PAGE_ALIGN_DOWN C va) (pt_virt_to_phys X (pf_addr p)) (pd_flags C w) (pt_flags C w) s1))"
      using False den g(1-3) cur_proc_space [OF sp] by (auto simp: run w_def)
    then show ?thesis using g sp False by (intro exI conjI) (assumption | simp)+
  qed
qed

end

subsection \<open>Shadow objects and anonymous objects meet the contract\<close>

definition memory_ready :: "mconf \<Rightarrow> 'a vm_st_scheme vm_ext \<Rightarrow> 'a vm_st_scheme \<Rightarrow> bool" where
  "memory_ready C X s \<longleftrightarrow> cache_ext C X \<and> ext_frame X \<and> cache_ok C s \<and> idle s \<and> (\<forall>pf. unwatched s pf)"

definition obj_wf :: "mconf \<Rightarrow> mmobj_ops \<Rightarrow> ptr \<Rightarrow> 'a vm_st_scheme \<Rightarrow> bool" where
  "obj_wf C ops ob s \<longleftrightarrow> hash_ok C s \<and> (\<exists>m. mmobjs s ob = Some m \<and> mmo_ops m = ops)"

lemma ready_lookup:
  assumes "memory_ready C X s" "olookuppage (obj_ops_n E C X d) ob n w s = Some (r, s')"
  shows "same_space s s'" "pframes s' pf = Some p \<Longrightarrow> 0 \<le> pf_pincount p" "pframes s' pf = Some p \<Longrightarrow> pf_addr p \<noteq> 0"
proof -
  from assms(1) have r: "cache_ext C X" "ext_frame X" "cache_ok C s" by (simp_all add: memory_ready_def)
  show "same_space s s'" using table_frameD(3) [OF table_frame_n [OF r(2)] same_space_refl] assms(2) by (rule keepPD)
  from table_okD(3) [OF table_ok_n [OF r(1)] r(3)] assms(2) have ok: "cache_ok C s'" unfolding okP_def by blast
  show "pframes s' pf = Some p \<Longrightarrow> 0 \<le> pf_pincount p" "pframes s' pf = Some p \<Longrightarrow> pf_addr p \<noteq> 0" using frames_okD(6,7) [OF cache_okD(1) [OF ok]] by blast+
qed

lemma obj_modify:
  assumes "obj_wf C ops ob s" "pframes s pf = Some p" "identity p ob n" "identity p' ob n" "pframes s' = (pframes s)(pf \<mapsto> p')"
    "pframe_hash s' = pframe_hash s" "mmobjs s' = mmobjs s"
  shows "obj_wf C ops ob s' \<and> contents C s' (ob # obs) = (contents C s (ob # obs))(n := pf_data p')"
proof -
  have ok: "hash_ok C s" "hash_ok C s'" using assms hash_ok_modify [of C s pf p p' s'] by (simp_all add: obj_wf_def identity_def)
  from pdata_upd [OF ok assms(5,4)] assms(2,3) have "pdata C s' = put (pdata C s) ob n (pf_data p')" by (simp add: put_def)
  then have "contents C s' (ob # obs) k = ((contents C s (ob # obs))(n := pf_data p')) k" for k
    by (cases "k = n") (simp add: contents_def, simp add: contents_def del: shown.simps)
  then show ?thesis using assms(1,7) ok(2) unfolding fun_eq_iff [of "contents C s' _"] obj_wf_def by simp
qed

lemma touch_space: "same_space s (touch r s)"
  by (simp add: touch_def split: option.split)

lemma own_touch:
  assumes "obj_wf C ops ob s" "own s ob n pf p"
  shows "own (touch r s) ob n pf p" "obj_wf C ops ob (touch r s)" "contents C (touch r s) = contents C s" "same_space s (touch r s)"
    "frame_of C s ob n = Some pf"
proof -
  have ok: "hash_ok C s" using assms(1) by (simp add: obj_wf_def)
  show "own (touch r s) ob n pf p" "contents C (touch r s) = contents C s" "same_space s (touch r s)"
    using assms(2) contents_cong [OF pdata_cong [of "touch r s" s C]] by (simp_all add: own_def touch_space)
  show "obj_wf C ops ob (touch r s)" using assms(1) hash_ok_cong [of "touch r s" s C] by (simp add: obj_wf_def)
  show "frame_of C s ob n = Some pf" using ownD(1,2) [OF assms(2)] frame_of_iff [OF ok] by blast
qed

lemma links_wf: "same_shown C s s' \<Longrightarrow> mmobjs s ob = Some m \<Longrightarrow> obj_wf C (mmo_ops m) ob s'"
  by (auto simp: same_shown_def obj_wf_def links_def fun_eq_iff map_option_eq_Some dest!: spec [of _ ob])

definition shadow_pre :: "mconf \<Rightarrow> 'a vm_st_scheme vm_ext \<Rightarrow> ptr \<Rightarrow> ptr list \<Rightarrow> 'a vm_st_scheme \<Rightarrow> bool" where
  "shadow_pre C X ob obs s \<longleftrightarrow> memory_ready C X s \<and> room X s \<and> shadow_chain s ob obs"

lemma shadow_preD:
  assumes "shadow_pre C X ob obs s"
  shows "memory_ready C X s" "hash_ok C s" "idle s" "\<forall>pf. unwatched s pf" "room X s" "can_alloc X s" "shadow_chain s ob obs" "chain s (ob # obs)"
  using assms by (auto simp: shadow_pre_def memory_ready_def cache_okD(3) room_def shadow_chain_def)

lemma shadow_dirty: "obj_wf C Shadow_mmobj_ops ob s \<Longrightarrow> odirtypage (obj_ops_n E C X (Suc d)) ob pf s
    = do { s \<leftarrow> pf_upd pf (\<lambda>p. p\<lparr>pf_dirty := True\<rparr>) s; Some (0, s) }"
  by (auto simp: obj_wf_def obj_table_def shadow_dirtypage_def)

lemma shadow_lookup_own:
  assumes "obj_wf C Shadow_mmobj_ops ob s" "own s ob n pf p"
  shows "olookuppage (obj_ops_n E C X (Suc d)) ob n True s = Some ((0, Some pf), touch (Some pf) s)"
  using assms(1) own_touch(5) [OF assms] by (auto simp: obj_wf_def obj_table_def shadow_lookuppage_def pframe_get_resident_eq)

interpretation shadow: page_source "obj_ops_n E C X (Suc (Suc (Suc (Suc d))))" ob "obj_wf C Shadow_mmobj_ops ob" "shadow_pre C X ob obs"
  "\<lambda>s. contents C s (ob # obs)" for E C X d ob obs
proof (unfold_locales, goal_cases)
  case (1 s n)
  note pre = shadow_preD [OF 1]
  let ?T = "obj_ops_n E C X (Suc (Suc (Suc (Suc d))))"
  obtain m where m: "mmobjs s ob = Some m" "mmo_ops m = Shadow_mmobj_ops" using pre(7) by (auto simp: shadow_chain_def)
  obtain pf p s' where g: "olookuppage ?T ob n True s = Some ((0, Some pf), s')" and p: "pframes s' pf = Some p" "identity p ob n"
    "\<not> pf_busy p" "unwatched s' pf" and sh: "same_shown C s s'" using shadow_write [OF pre(2,7,5), of E d n] pre(3,4) by blast
  have "own s' ob n pf p" using p ready_lookup(2,3) [OF pre(1) g p(1)] by (simp add: own_def)
  moreover have "contents C s' (ob # obs) = contents C s (ob # obs)" using sh pre(8) by (intro ext) (simp add: same_shown_def)
  ultimately show ?case using g links_wf [OF sh m(1)] m(2) ready_lookup(1) [OF pre(1) g] by (intro exI conjI) (assumption | simp)+
next
  case (2 s n pf p)
  then show ?case using own_touch [OF 2] shadow_lookup_own [OF 2] by (intro exI conjI) (assumption | simp)+
next
  case (3 s n)
  note pre = shadow_preD [OF 3]
  let ?T = "obj_ops_n E C X (Suc (Suc (Suc (Suc d))))"
  obtain pf p s' where g: "olookuppage ?T ob n False s = Some ((0, Some pf), s')" and p: "pframes s' pf = Some p"
    "pf_data p = contents C s (ob # obs) n" and sh: "same_shown C s s'" using shadow_read [OF pre(2,3,7,6), of E "Suc d" n] by blast
  moreover have "contents C s' (ob # obs) = contents C s (ob # obs)" using sh pre(8) by (intro ext) (simp add: same_shown_def)
  ultimately show ?case using ready_lookup(1,3) [OF pre(1) g] by (intro exI conjI) (assumption | simp)+
next
  case (4 s pf p n p' s')
  then show ?case by (rule obj_modify)
next
  case (5 s pf)
  then show ?case by (intro exI) (rule shadow_dirty)
qed

definition anon_pre :: "mconf \<Rightarrow> 'a vm_st_scheme vm_ext \<Rightarrow> ptr \<Rightarrow> 'a vm_st_scheme \<Rightarrow> bool" where
  "anon_pre C X ob s \<longleftrightarrow> memory_ready C X s \<and> can_alloc X s \<and> live_anon s ob \<and> chain s [ob]"

lemma anon_preD:
  assumes "anon_pre C X ob s"
  shows "memory_ready C X s" "hash_ok C s" "idle s" "\<forall>pf. unwatched s pf" "can_alloc X s" "live_anon s ob" "chain s [ob]"
  using assms by (auto simp: anon_pre_def memory_ready_def cache_okD(3))

lemma anon_lookup:
  "obj_wf C Anon_mmobj_ops ob s \<Longrightarrow> olookuppage (obj_ops_n E C X (Suc d)) ob n w s = pframe_get E C X (obj_ops_n E C X d) ob n s"
  by (auto simp: obj_wf_def obj_table_def anon_lookuppage_def)

interpretation anon: page_source "obj_ops_n E C X (Suc (Suc d))" ob "obj_wf C Anon_mmobj_ops ob" "anon_pre C X ob" "\<lambda>s. contents C s [ob]" for E C X d ob
proof (unfold_locales, goal_cases)
  let ?T = "obj_ops_n E C X (Suc (Suc d))"
  have get: "\<exists>pf p s'. olookuppage ?T ob n w s = Some ((0, Some pf), s') \<and> own s' ob n pf p \<and> obj_wf C Anon_mmobj_ops ob s' \<and>
      pf_data p = contents C s [ob] n \<and> contents C s' [ob] = contents C s [ob] \<and> same_space s s'" if "anon_pre C X ob s" for s n w
  proof -
    note pre = anon_preD [OF that]
    obtain m where m: "mmobjs s ob = Some m" "mmo_ops m = Anon_mmobj_ops" using pre(6) by (auto simp: live_anon_def)
    then have wf: "obj_wf C Anon_mmobj_ops ob s" using pre(2) by (simp add: obj_wf_def)
    obtain pf p s' where g: "olookuppage ?T ob n w s = Some ((0, Some pf), s')" and p: "pframes s' pf = Some p" "identity p ob n" "\<not> pf_busy p"
      "unwatched s' pf" "pf_data p = contents C s [ob] n" and sh: "same_shown C s s'"
      unfolding anon_lookup [OF wf] using anon_get [OF pre(2,3,6,7,5), of E "obj_ops_n E C X d" n] pre(4) by auto
    have "own s' ob n pf p" using p ready_lookup(2,3) [OF pre(1) g p(1)] by (simp add: own_def)
    moreover have "contents C s' [ob] = contents C s [ob]" using sh pre(7) by (intro ext) (simp add: same_shown_def)
    ultimately show ?thesis using g p(5) links_wf [OF sh m(1)] m(2) ready_lookup(1) [OF pre(1) g] by (intro exI conjI) (assumption | simp)+
  qed
  {
    case (1 s n)
    with get show ?case by blast
  next
    case (2 s n pf p)
    have "pframe_get E C X (obj_ops_n E C X (Suc d)) ob n s = Some ((0, Some pf), touch (Some pf) s)"
      using 2(1) own_touch(5) [OF 2] ownD(1,4) [OF 2(2)] by (simp add: obj_wf_def pframe_get_def pframe_get_resident_eq)
    then show ?case unfolding anon_lookup [OF 2(1)] using own_touch [OF 2] by (intro exI conjI) (assumption | simp)+
  next
    case (3 s n)
    show ?case using get [OF 3, of n False] by (elim exE conjE) (frule ownD(1), drule ownD(7), blast)
  next
    case (4 s pf p n p' s')
    then show ?case by (rule obj_modify)
  next
    case (5 s pf)
    then show ?case by (auto simp: obj_wf_def obj_table_def anon_dirtypage_def)
  }
qed

text \<open>
  \<open>mapped_obj\<close>: the chain of objects behind an area is one anonymous object, or shadow objects over one, and the
  page cache can serve it.
\<close>

definition mapped_obj :: "mconf \<Rightarrow> 'a vm_st_scheme vm_ext \<Rightarrow> ptr \<Rightarrow> ptr list \<Rightarrow> 'a vm_st_scheme \<Rightarrow> bool" where
  "mapped_obj C X ob obs s = (if obs = [] then anon_pre C X ob s else shadow_pre C X ob obs s)"

subsection \<open>The properties\<close>

lemma vmdemo_pre: "mapped_obj demo_mconf demo_vm 61 [60] vmdemo"
proof -
  have "frames_ok demo_mconf vmdemo" using vmdemo_hash by (simp add: frames_ok_def) (simp add: vmdemo_def)
  moreover have "res_ok vmdemo"
    by (auto simp: res_ok_def resident_def nres_def nres_of_def owner_def vmdemo_def demo_obj_def split: if_split_asm)
  ultimately have "cache_ok demo_mconf vmdemo" by (simp add: cache_ok_def)
  moreover have "unwatched vmdemo pf" for pf by (simp add: unwatched_def vmdemo_def)
  ultimately show ?thesis using demo_cache_ext demo_ext_frame vmdemo_idle vmdemo_room vmdemo_chain(1)
    by (simp add: mapped_obj_def shadow_pre_def memory_ready_def)
qed

definition demo_user_proc :: proc where
  "demo_user_proc = demo_proc\<lparr>p_pagedir := Some 100, p_vmmap := Some 30\<rparr>"

definition demo_user_area :: vmarea where
  "demo_user_area = \<lparr>vma_start = 8, vma_end = 16, vma_off = 0, vma_prot = 3, vma_flags = 2, vma_vmmap = Some 30, vma_obj = Some 61\<rparr>"

lemma vmdemo_user:
  "cur_proc vmdemo = Some (10, demo_user_proc)" "p_vmmap demo_user_proc = Some 30" "p_pagedir demo_user_proc = Some 100"
  "n \<in> {9, 15} \<Longrightarrow> area_at vmdemo 30 n 61 demo_user_area"
  by (auto simp: cur_proc_def vmdemo_def demo_user_proc_def demo_user_area_def area_at_def vmmap_lookup_def)

text \<open>
  C11: What the kernel copies to user memory is what it reads back. A copy of bytes within one page of a readable
  and writable area, up to but not including the last byte of the page, returns 0, changes these bytes of the page
  that the process sees and no other byte of the object, and copying from the same place then gives the bytes
  back. The area may be private, a chain of shadow objects, or shared, an anonymous object. A copy that
  reaches the end of the page is left to C40, since \<^verbatim>\<open>vmmap_read\<close> then also looks at the next page.
\<close>

theorem user_copy_roundtrip:
  assumes "mapped_obj C X ob obs s" "in_page C va n" "length bs = unat n" "cur_proc s = Some (q, pr)" "p_vmmap pr = Some mp"
    and "area_at s mp (ADDR_TO_PN C va) ob v" "vma_prot v AND PROT_READ C \<noteq> 0" "vma_prot v AND PROT_WRITE C \<noteq> 0"
    and "length (contents C s (ob # obs) (obj_page v (ADDR_TO_PN C va))) = PAGE_SIZE C"
  shows "\<exists>s' s''. copy_to_user E C (obj_ops_n E C X (Suc (Suc (Suc (Suc d))))) va bs n s = Some (0, s') \<and>
     copy_from_user E C (obj_ops_n E C X (Suc (Suc (Suc (Suc d))))) va n s' = Some ((0, bs), s'') \<and> same_space s s'' \<and>
     contents C s'' (ob # obs) = (contents C s (ob # obs))(obj_page v (ADDR_TO_PN C va) :=
       overwrite (PAGE_OFFSET C va) bs (contents C s (ob # obs) (obj_page v (ADDR_TO_PN C va))))"
proof (cases "obs = []")
  case True
  have "anon_pre C X ob s" using assms(1) True by (simp add: mapped_obj_def)
  from anon.copy_roundtrip [OF this assms(2-8) assms(9) [unfolded True]] show ?thesis unfolding True .
next
  case False
  then have "shadow_pre C X ob obs s" using assms(1) by (simp add: mapped_obj_def)
  from shadow.copy_roundtrip [OF this assms(2-9)] show ?thesis .
qed

theorem user_copy_roundtrip_witness:
  "\<exists>s' s''. copy_to_user errno_std demo_mconf (obj_ops_n errno_std demo_mconf demo_vm 4) 36 [7, 8] 2 vmdemo = Some (0, s') \<and>
     copy_from_user errno_std demo_mconf (obj_ops_n errno_std demo_mconf demo_vm 4) 36 2 s' = Some ((0, [7, 8]), s'') \<and>
     contents demo_mconf s'' [61, 60] 1 = [7, 8, 3, 4]"
proof -
  have pn: "ADDR_TO_PN demo_mconf 36 = 9" "obj_page demo_user_area 9 = 1" "PAGE_OFFSET demo_mconf 36 = 0" by code_simp+
  have "in_page demo_mconf 36 2" "length [7, 8 :: 8 word] = unat (2 :: u32)" using pn(3) by (simp_all add: in_page_def PAGE_SIZE_def demo_mconf_def)
  moreover have "vma_prot demo_user_area AND PROT_READ demo_mconf \<noteq> 0" "vma_prot demo_user_area AND PROT_WRITE demo_mconf \<noteq> 0" by code_simp+
  moreover have c: "contents demo_mconf vmdemo [61, 60] 1 = [1, 2, 3, 4]" "PAGE_SIZE demo_mconf = 4" by code_simp+
  ultimately show ?thesis
    using user_copy_roundtrip [OF vmdemo_pre, of 36 2 "[7, 8]" 10 demo_user_proc 30 demo_user_area errno_std 0, unfolded pn] vmdemo_user(1,2) vmdemo_user(4) [of 9]
    by (fastforce simp: eval_nat_numeral overwrite_def simp del: obj_ops_n.simps)
qed

text \<open>
  C12: The handling of a page fault, on every branch. A fault at an address outside all areas ends the process
  with EFAULT, and so do a write without write permission, a read without read permission, and a permitted
  access to a page that the memory object cannot provide. Otherwise the process gets a page that holds what it
  is to see there: for a write a frame of the area's own object, marked dirty and mapped writable, and otherwise
  a frame mapped read-only. What the object shows does not change. The permission to execute is never looked at:
  the fetch of an instruction gets its page whatever the permissions of the area are.
\<close>

theorem handle_pagefault_maps:
  assumes "cur_proc s = Some (q, pr)" "p_vmmap pr = Some mp"
  shows "(vmmap_lookup mp (ADDR_TO_PN C va) s = Some None \<longrightarrow> handle_pagefault E C X T irqs va cause s = do_exit irqs (E EFAULT) s) \<and>
    (\<forall>ob v. area_at s mp (ADDR_TO_PN C va) ob v \<longrightarrow> \<not> permitted C v cause \<longrightarrow> \<not> fetch C cause \<longrightarrow>
       handle_pagefault E C X T irqs va cause s = do_exit irqs (E EFAULT) s) \<and>
    (\<forall>ob v r f s1. area_at s mp (ADDR_TO_PN C va) ob v \<longrightarrow> permitted C v cause \<or> fetch C cause \<longrightarrow>
       pframe_lookup T ob (obj_page v (ADDR_TO_PN C va)) (cause AND FAULT_WRITE C \<noteq> 0) s = Some ((r, f), s1) \<longrightarrow> r < 0 \<longrightarrow>
       handle_pagefault E C X T irqs va cause s = do_exit irqs (E EFAULT) s1) \<and>
    (\<forall>ob obs v d. area_at s mp (ADDR_TO_PN C va) ob v \<longrightarrow> permitted C v cause \<or> fetch C cause \<longrightarrow> mapped_obj C X ob obs s \<longrightarrow>
       (\<exists>pf p s'. handle_pagefault E C X (obj_ops_n E C X (Suc (Suc (Suc (Suc d))))) irqs va cause s =
           Some (snd (pt_map X (p_pagedir pr) (PAGE_ALIGN_DOWN C va) (pt_virt_to_phys X (pf_addr p))
             (pd_flags C (cause AND FAULT_WRITE C \<noteq> 0)) (pt_flags C (cause AND FAULT_WRITE C \<noteq> 0)) s')) \<and>
         pframes s' pf = Some p \<and> pf_data p = contents C s (ob # obs) (obj_page v (ADDR_TO_PN C va)) \<and>
         (cause AND FAULT_WRITE C \<noteq> 0 \<longrightarrow> identity p ob (obj_page v (ADDR_TO_PN C va)) \<and> pf_dirty p) \<and>
         contents C s' (ob # obs) = contents C s (ob # obs) \<and> same_space s s'))"
proof (intro conjI allI impI, goal_cases)
  case 1
  with assms show ?case by (simp add: handle_pagefault_def)
next
  case (2 ob v)
  with assms show ?case using fault_checks [of C v cause] by (auto simp: handle_pagefault_def area_at_def)
next
  case (3 ob v r f s1)
  obtain a where a: "vmmap_lookup mp (ADDR_TO_PN C va) s = Some (Some a)" "vmareas s a = Some v" "vma_obj v = Some ob" using 3(1) by (auto simp: area_at_def)
  note c = 3(2) [unfolded fault_checks]
  show ?case using c [THEN conjunct1] c [THEN conjunct2] 3(3,4) unfolding obj_page_def
    by (auto simp: handle_pagefault_def assms a Let_def)
next
  case (4 ob obs v d)
  show ?case
  proof (cases "obs = []")
    case True
    then have "anon_pre C X ob s" using 4(3) by (simp add: mapped_obj_def)
    from anon.fault_maps [OF this assms 4(1,2)] show ?thesis unfolding True .
  next
    case False
    then have "shadow_pre C X ob obs s" using 4(3) by (simp add: mapped_obj_def)
    from shadow.fault_maps [OF this assms 4(1,2)] show ?thesis .
  qed
qed

text \<open>
  The witness: a write outside all areas, a write to an area that is only readable, a write to a page whose
  object reports an error, and a write that the object can serve.
\<close>

theorem handle_pagefault_maps_witness:
  "handle_pagefault errno_std demo_mconf demo_vm demo_ops [] 4 2 vmdemo = do_exit [] (errno_std EFAULT) vmdemo \<and>
   handle_pagefault errno_std demo_mconf demo_vm demo_ops [] 80 2 vmdemo = do_exit [] (errno_std EFAULT) vmdemo \<and>
   handle_pagefault errno_std demo_mconf demo_vm (demo_ops\<lparr>olookuppage := \<lambda>_ _ _ s. Some ((- 12, None), s)\<rparr>) [] 37 2 vmdemo
     = do_exit [] (errno_std EFAULT) vmdemo \<and>
   (\<exists>pf p s'. handle_pagefault errno_std demo_mconf demo_vm (obj_ops_n errno_std demo_mconf demo_vm 4) [] 37 2 vmdemo = Some s' \<and>
      pframes s' pf = Some p \<and> identity p 61 1 \<and> pf_dirty p \<and> pf_data p = [1, 2, 3, 4])"
proof -
  have pn: "ADDR_TO_PN demo_mconf 37 = 9" "obj_page demo_user_area 9 = 1" "ADDR_TO_PN demo_mconf 4 = 1" "ADDR_TO_PN demo_mconf 80 = 20" by code_simp+
  let ?ro = "\<lparr>vma_start = 20, vma_end = 24, vma_off = 0, vma_prot = 1, vma_flags = 1, vma_vmmap = Some 30, vma_obj = Some 62\<rparr>"
  have perm: "permitted demo_mconf demo_user_area 2 \<or> fetch demo_mconf 2" "\<not> permitted demo_mconf ?ro 2" "\<not> fetch demo_mconf 2"
    and w: "2 AND FAULT_WRITE demo_mconf \<noteq> (0 :: u32)" by code_simp+
  have c: "contents demo_mconf vmdemo [61, 60] 1 = [1, 2, 3, 4]" and out: "vmmap_lookup 30 1 vmdemo = Some None" by code_simp+
  have pt: "snd (pt_map demo_vm a b c e f s) = s" for a b c e f and s :: vm_st by (simp add: demo_vm_def)
  have at: "area_at vmdemo 30 9 61 demo_user_area" by (rule vmdemo_user(4)) simp
  have ro: "area_at vmdemo 30 20 62 ?ro" by (simp add: area_at_def vmmap_lookup_def vmdemo_def)
  have four: "Suc (Suc (Suc (Suc 0))) = 4" by simp
  note fault = handle_pagefault_maps [OF vmdemo_user(1,2), of demo_mconf _ errno_std demo_vm _ "[]" 2]
  note denied = fault [of 80, THEN conjunct2, THEN conjunct1, rule_format, unfolded pn, OF ro perm(2,3)]
  note failed = fault [of 37, THEN conjunct2, THEN conjunct2, THEN conjunct1, rule_format, unfolded pn, OF at perm(1)]
  note maps = fault [of 37, THEN conjunct2, THEN conjunct2, THEN conjunct2, rule_format, unfolded pn, OF at perm(1) vmdemo_pre, of 0, unfolded four pt pn c]
  have "handle_pagefault errno_std demo_mconf demo_vm demo_ops [] 4 2 vmdemo = do_exit [] (errno_std EFAULT) vmdemo"
    using fault [of 4] out by (simp add: pn(3) del: obj_ops_n.simps)
  moreover have "handle_pagefault errno_std demo_mconf demo_vm (demo_ops\<lparr>olookuppage := \<lambda>_ _ _ s. Some ((- 12, None), s)\<rparr>) [] 37 2 vmdemo
     = do_exit [] (errno_std EFAULT) vmdemo" by (rule failed [of _ "- 12" None]) (simp_all add: pframe_lookup_def)
  moreover from maps w
  have "\<exists>pf p s'. handle_pagefault errno_std demo_mconf demo_vm (obj_ops_n errno_std demo_mconf demo_vm 4) [] 37 2 vmdemo = Some s' \<and>
      pframes s' pf = Some p \<and> identity p 61 1 \<and> pf_dirty p \<and> pf_data p = [1, 2, 3, 4]" by blast
  ultimately show ?thesis using denied by blast
qed

text \<open>
  C40: Reading up to the end of a page crashes the kernel. When a readable page is the last one of its area and
  the next page is not mapped, copying from user memory up to the end of that page passes the permission
  check, and then looks at the page after the range, dereferencing a null pointer. Copying to the same range
  succeeds.
\<close>

theorem read_to_page_end_faults:
  assumes "mapped_obj C X ob obs s" "to_page_end C va n" "length bs = unat n" "cur_proc s = Some (q, pr)" "p_vmmap pr = Some mp"
    and v: "area_at s mp (ADDR_TO_PN C va) ob v" "vma_prot v AND PROT_READ C \<noteq> 0" "vma_prot v AND PROT_WRITE C \<noteq> 0"
    and "length (contents C s (ob # obs) (obj_page v (ADDR_TO_PN C va))) = PAGE_SIZE C"
    and next_page: "vmmap_lookup mp (ADDR_TO_PN C va + 1) s = Some None"
  shows "range_perm C pr va n (PROT_READ C) s = Some 1 \<and> copy_from_user E C (obj_ops_n E C X (Suc (Suc (Suc (Suc d))))) va n s = None \<and>
    (\<exists>s'. copy_to_user E C (obj_ops_n E C X (Suc (Suc (Suc (Suc d))))) va bs n s = Some (0, s'))"
proof -
  note one = one_page(2) [OF assms(2)]
  have "ext_frame X" using assms(1) by (auto simp: mapped_obj_def anon_pre_def shadow_pre_def memory_ready_def split: if_split_asm)
  then have T: "table_frame (obj_ops_n E C X (Suc (Suc (Suc (Suc d)))))" by (rule table_frame_n)
  have "\<exists>s'. copy_to_user E C (obj_ops_n E C X (Suc (Suc (Suc (Suc d))))) va bs n s = Some (0, s')"
  proof (cases "obs = []")
    case True
    then have "anon_pre C X ob s" using assms(1) by (simp add: mapped_obj_def)
    from anon.copy_out [OF this one assms(3-5) v(1,3) assms(9) [unfolded True]] show ?thesis by blast
  next
    case False
    then have "shadow_pre C X ob obs s" using assms(1) by (simp add: mapped_obj_def)
    from shadow.copy_out [OF this one assms(3-5) v(1,3) assms(9)] show ?thesis by blast
  qed
  with shadow.page_end_faults [OF T assms(2,4,5) v(1,2) next_page] range_perm_page [OF one addr_perm_area(1) [OF v(1) assms(5) v(2)]]
  show ?thesis by blast
qed

theorem read_to_page_end_faults_witness:
  "copy_from_user errno_std demo_mconf (obj_ops_n errno_std demo_mconf demo_vm 4) 60 4 vmdemo = None \<and>
   (\<exists>s'. copy_to_user errno_std demo_mconf (obj_ops_n errno_std demo_mconf demo_vm 4) 60 [1, 2, 3, 4] 4 vmdemo = Some (0, s'))"
proof -
  have pn: "ADDR_TO_PN demo_mconf 60 = 15" "obj_page demo_user_area 15 = 7" "PAGE_OFFSET demo_mconf 60 = 0" by code_simp+
  have "to_page_end demo_mconf 60 4" "length [1, 2, 3, 4 :: 8 word] = unat (4 :: u32)" using pn(3) by (simp_all add: to_page_end_def PAGE_SIZE_def demo_mconf_def)
  moreover have "vma_prot demo_user_area AND PROT_READ demo_mconf \<noteq> 0" "vma_prot demo_user_area AND PROT_WRITE demo_mconf \<noteq> 0" by code_simp+
  moreover have "length (contents demo_mconf vmdemo [61, 60] 7) = PAGE_SIZE demo_mconf" "vmmap_lookup 30 (15 + 1) vmdemo = Some None" by code_simp+
  ultimately show ?thesis
    using read_to_page_end_faults [OF vmdemo_pre, of 60 4 "[1, 2, 3, 4]" 10 demo_user_proc 30 demo_user_area errno_std 0, unfolded pn] vmdemo_user(1,2) vmdemo_user(4) [of 15]
    by (simp add: eval_nat_numeral del: obj_ops_n.simps)
qed

end
