(* ===== verification/Vm_Vnode.thy ===== *)
theory Vm_Vnode
  imports Vm_Inv
begin

section \<open>Vnodes and the page cache\<close>

text \<open>
  The parts of \<^verbatim>\<open>K3/vnode.c\<close> that run in the page cache: the initialisation of the memory object inside a vnode in
  \<^verbatim>\<open>vget\<close>, and the loop of \<^verbatim>\<open>vput\<close> that frees the resident pages of a vnode that is no longer linked. \<open>vnode_fs\<close> puts them
  into the table that \<^verbatim>\<open>vget\<close> and \<^verbatim>\<open>vput\<close> of the theory \<open>Vfs\<close> use. A vnode and the memory object inside it are at the same
  address. The lemmas show that the loop terminates and keeps its promise to \<^verbatim>\<open>vput\<close>: there are no resident pages left,
  and one reference.
\<close>

subsection \<open>Definitions\<close>

text \<open>\<open>wait_not_busy\<close> is the inner loop of \<^verbatim>\<open>vput\<close>; it need not end.\<close>

partial_function (option) wait_not_busy :: "'a vm_st_scheme vm_ext \<Rightarrow> ptr \<Rightarrow> 'a vm_st_scheme \<Rightarrow> 'a vm_st_scheme option" where
  "wait_not_busy X vp s = do {
     p \<leftarrow> pframes s vp;
     if pf_busy p then do {
       s \<leftarrow> vm_sleep X (Pf_waitq vp) s;
       wait_not_busy X vp s
     } else Some s
   }"

fun vput_pages :: "mconf \<Rightarrow> 'a vm_st_scheme vm_ext \<Rightarrow> 'a vm_st_scheme obj_ops \<Rightarrow> ptr list \<Rightarrow> 'a vm_st_scheme \<Rightarrow> 'a vm_st_scheme option" where
  "vput_pages C X T [] s = Some s"
| "vput_pages C X T (vp # vps) s = do {
     s \<leftarrow> wait_not_busy X vp s;
     s \<leftarrow> pframe_free C X T vp s;
     vput_pages C X T vps s
   }"

definition vput_respages :: "mconf \<Rightarrow> 'a vm_st_scheme vm_ext \<Rightarrow> 'a vm_st_scheme obj_ops \<Rightarrow> ptr \<Rightarrow> 'a vm_st_scheme \<Rightarrow> 'a vm_st_scheme option" where
  "vput_respages C X T v s = do {
     m \<leftarrow> mmobjs s v;
     vput_pages C X T (mmo_respages m) s
   }"

definition vnode_mmobj_init :: "'a vm_st_scheme vm_ext \<Rightarrow> ptr \<Rightarrow> 'a vm_st_scheme \<Rightarrow> 'a vm_st_scheme" where
  "vnode_mmobj_init X v s = s\<lparr>mmobjs := (mmobjs s)(v \<mapsto> mmobj_init X Vnode_mmobj_ops)\<rparr>"

definition vnode_fs :: "mconf \<Rightarrow> 'a vm_st_scheme vm_ext \<Rightarrow> 'a vm_st_scheme obj_ops \<Rightarrow> 'a vm_st_scheme fs_ext \<Rightarrow> 'a vm_st_scheme fs_ext" where
  "vnode_fs C X T F = F\<lparr>free_respages := vput_respages C X T, vn_mmobj_init := vnode_mmobj_init X\<rparr>"

subsection \<open>Freeing the pages of a vnode\<close>

text \<open>
  The state in which the loop runs: the vnode \<open>v\<close> has one active reference, so no area maps it, and its frames are
  in nobody else's hands. The operation \<^verbatim>\<open>put\<close> of the memory object is \<^verbatim>\<open>vput\<close>; it does not come back to this loop, because there the
  pages have been subtracted before the reference.
\<close>

definition unmapped :: "'a vm_st_scheme vm_ext \<Rightarrow> ptr \<Rightarrow> mmobj \<Rightarrow> bool" where
  "unmapped X v m \<longleftrightarrow> mmo_ops m = Vnode_mmobj_ops \<and> mmo_un m = Mmo_vmas []
     \<and> (\<forall>s m'. mmobjs s v = Some m' \<longrightarrow> mmo_ops m' = Vnode_mmobj_ops \<longrightarrow> mmobj_bottom_obj X v s = Some v)"

definition held :: "'a vm_st_scheme \<Rightarrow> ptr \<Rightarrow> ptr \<Rightarrow> bool" where
  "held s v pf \<longleftrightarrow> (\<exists>p. pframes s pf = Some p \<and> pf_obj p = Some v \<and> \<not> pf_busy p \<and> \<not> pframe_is_pinned p)"

lemma wait_done: "held s v pf \<Longrightarrow> wait_not_busy X pf s = Some s"
  by (subst wait_not_busy.simps) (auto simp: held_def)

lemma free_page:
  assumes "held s v pf" and m: "mmobjs s v = Some m" "unmapped X v m" and vp: "\<And>s. vo_vput X v s = vput F v s"
    and vn: "vnodes s v = Some vn" "\<not> vn_busy vn" "0 < vn_nrespages vn" "vn_refcount vn = vn_nrespages vn + 1"
  shows "\<exists>s'. pframe_free C X (obj_table E C X T) pf s = Some s' \<and> pframes s' = (pframes s)(pf := None) \<and>
     mmobjs s' = (mmobjs s)(v \<mapsto> m\<lparr>mmo_respages := remove1 pf (mmo_respages m)\<rparr>) \<and>
     vnodes s' = (vnodes s)(v \<mapsto> vn\<lparr>vn_nrespages := vn_nrespages vn - 1, vn_refcount := vn_refcount vn - 1\<rparr>) \<and>
     vnode_inuse_list s' = vnode_inuse_list s \<and> queues s' = queues s"
proof -
  obtain p where p: "pframes s pf = Some p" "pf_obj p = Some v" "\<not> pf_busy p" "\<not> pframe_is_pinned p" using assms(1) by (auto simp: held_def)
  have o: "mmo_ops m = Vnode_mmobj_ops" "mmo_un m = Mmo_vmas []" "mmobj_bottom_obj X v s = Some v" using m by (auto simp: unmapped_def)
  have pts: "pframe_remove_from_pts C X pf s = Some s"
    using p m(1) o by (simp add: pframe_remove_from_pts_def mmobj_bottom_vmas_def)
  show ?thesis
    using p pts m(1) o vn(1) vp vn
    by (simp add: pframe_free_def pframe_is_free_def Let_def add_nrespages_def vn_upd_def obj_upd_def obj_table_def vput_def)
qed

lemma vput_pages_free:
  assumes "\<And>s. vo_vput X v s = vput F v s"
  shows "distinct l \<Longrightarrow> \<forall>pf \<in> set l. held s v pf \<Longrightarrow> mmobjs s v = Some m \<Longrightarrow> unmapped X v m \<Longrightarrow> mmo_respages m = l \<Longrightarrow>
    vnodes s v = Some vn \<Longrightarrow> \<not> vn_busy vn \<Longrightarrow> vn_nrespages vn = int (length l) \<Longrightarrow> vn_refcount vn = int (length l) + 1 \<Longrightarrow>
    \<exists>s'. vput_pages C X (obj_table E C X T) l s = Some s' \<and> pframes s' = pframes s |` (- set l) \<and>
      mmobjs s' = (mmobjs s)(v \<mapsto> m\<lparr>mmo_respages := []\<rparr>) \<and> vnodes s' = (vnodes s)(v \<mapsto> vn\<lparr>vn_nrespages := 0, vn_refcount := 1\<rparr>) \<and>
      vnode_inuse_list s' = vnode_inuse_list s \<and> queues s' = queues s"
proof (induction l arbitrary: s m vn)
  case Nil
  then have "m\<lparr>mmo_respages := []\<rparr> = m" "vn\<lparr>vn_nrespages := 0, vn_refcount := 1\<rparr> = vn" by (cases m, simp, cases vn, simp)
  with Nil show ?case by (simp add: fun_upd_idem)
next
  case (Cons pf l)
  let ?T = "obj_table E C X T"
  let ?m = "m\<lparr>mmo_respages := l\<rparr>" and ?vn = "vn\<lparr>vn_nrespages := int (length l), vn_refcount := int (length l) + 1\<rparr>"
  have h: "held s v pf" using Cons.prems(2) by simp
  have "0 < vn_nrespages vn" "vn_refcount vn = vn_nrespages vn + 1" using Cons.prems(8,9) by simp_all
  from free_page [OF h Cons.prems(3,4) assms Cons.prems(6,7) this, of C E T] obtain s1 where
    s1: "pframe_free C X ?T pf s = Some s1" "pframes s1 = (pframes s)(pf := None)" "mmobjs s1 = (mmobjs s)(v \<mapsto> ?m)"
      "vnodes s1 = (vnodes s)(v \<mapsto> ?vn)" "vnode_inuse_list s1 = vnode_inuse_list s" "queues s1 = queues s"
    using Cons.prems(5,8,9) by (auto simp: add.commute)
  have held1: "\<forall>x \<in> set l. held s1 v x" using Cons.prems(1,2) s1(2) by (auto simp: held_def)
  have un: "unmapped X v ?m" using Cons.prems(4) by (simp add: unmapped_def)
  have pre: "distinct l" "mmobjs s1 v = Some ?m" "mmo_respages ?m = l" "vnodes s1 v = Some ?vn" "\<not> vn_busy ?vn"
    "vn_nrespages ?vn = int (length l)" "vn_refcount ?vn = int (length l) + 1" using Cons.prems(1,7) s1(3,4) by simp_all
  obtain s2 where s2: "vput_pages C X ?T l s1 = Some s2" "pframes s2 = pframes s1 |` (- set l)" "mmobjs s2 = (mmobjs s1)(v \<mapsto> ?m\<lparr>mmo_respages := []\<rparr>)"
    "vnodes s2 = (vnodes s1)(v \<mapsto> ?vn\<lparr>vn_nrespages := 0, vn_refcount := 1\<rparr>)" "vnode_inuse_list s2 = vnode_inuse_list s1" "queues s2 = queues s1"
    using Cons.IH [OF pre(1) held1 pre(2) un pre(3-7)] by (elim exE conjE) (rule that)
  have "pframes s2 = pframes s |` (- set (pf # l))" unfolding s2(2) s1(2) by (auto simp: restrict_map_def fun_eq_iff)
  moreover have "mmobjs s2 = (mmobjs s)(v \<mapsto> m\<lparr>mmo_respages := []\<rparr>)" "vnodes s2 = (vnodes s)(v \<mapsto> vn\<lparr>vn_nrespages := 0, vn_refcount := 1\<rparr>)"
    "vput_pages C X ?T (pf # l) s = Some s2" "vnode_inuse_list s2 = vnode_inuse_list s" "queues s2 = queues s"
    using s1 s2 wait_done [OF h] by simp_all
  ultimately show ?case by blast
qed

text \<open>
  Dropping the last active reference to a vnode that the file system no longer links: under the invariant of the page
  cache, with no page of the vnode busy, pinned or mapped, \<^verbatim>\<open>vput\<close> frees all its pages, finds its assertions true and goes
  on to free the vnode.
\<close>

lemma vput_unlinked:
  assumes ok: "cache_ok C s" and X: "\<And>s. vo_vput X v s = vput F v s" and m: "mmobjs s v = Some m" "unmapped X v m"
    and free: "\<forall>pf p. pframes s pf = Some p \<longrightarrow> pf_obj p = Some v \<longrightarrow> \<not> pf_busy p \<and> \<not> pframe_is_pinned p"
    and vn: "vnodes s v = Some vn" "\<not> vn_busy vn" "vn_refcount vn = vn_nrespages vn + 1" and gone: "\<not> query_vnode F v s"
  shows "\<exists>s1. vput_respages C X (obj_table E C X T) v s = Some s1 \<and> (\<forall>pf p. pframes s1 pf = Some p \<longrightarrow> pf_obj p \<noteq> Some v) \<and>
     vnodes s1 = (vnodes s)(v \<mapsto> vn\<lparr>vn_nrespages := 0, vn_refcount := 1\<rparr>) \<and>
     vput (vnode_fs C X (obj_table E C X T) F) v s =
       vput_free (vnode_fs C X (obj_table E C X T) F) v (s1\<lparr>vnodes := (vnodes s)(v \<mapsto> vn\<lparr>vn_nrespages := 0, vn_refcount := 0\<rparr>)\<rparr>)"
proof -
  note res = res_okD [OF cache_okD(2) [OF ok] m(1)]
  have ops: "mmo_ops m = Vnode_mmobj_ops" using m(2) by (simp add: unmapped_def)
  have n: "vn_nrespages vn = int (length (mmo_respages m))" using res(3) [OF ops vn(1)] .
  have "\<forall>pf \<in> set (mmo_respages m). held s v pf" using res(2) free by (auto simp: held_def)
  from vput_pages_free [OF X res(1) this m refl vn(1,2) n, of C E T] n vn(3) obtain s1 where
    s1: "vput_pages C X (obj_table E C X T) (mmo_respages m) s = Some s1" "pframes s1 = pframes s |` (- set (mmo_respages m))"
      "vnodes s1 = (vnodes s)(v \<mapsto> vn\<lparr>vn_nrespages := 0, vn_refcount := 1\<rparr>)" by auto
  then have r: "vput_respages C X (obj_table E C X T) v s = Some s1" using m(1) by (simp add: vput_respages_def)
  have "pf_obj p \<noteq> Some v" if "pframes s1 pf = Some p" for pf p
    using that res(2) [of pf] unfolding s1(2) by (auto simp: restrict_map_def split: if_split_asm)
  moreover have "vput (vnode_fs C X (obj_table E C X T) F) v s =
       vput_free (vnode_fs C X (obj_table E C X T) F) v (s1\<lparr>vnodes := (vnodes s)(v \<mapsto> vn\<lparr>vn_nrespages := 0, vn_refcount := 0\<rparr>)\<rparr>)"
    using r s1(3) vn gone n by (simp add: vput_def vnode_fs_def vn_upd_def)
  ultimately show ?thesis using r s1(3) by blast
qed

end
