(* ===== verification/Info.thy ===== *)
theory Info
  imports Vm_Demo
begin

section \<open>Debugging information\<close>

text \<open>
  The functions that print the state of the kernel into a buffer: \<^verbatim>\<open>proc_info\<close> and \<^verbatim>\<open>proc_list_info\<close> of \<^verbatim>\<open>K1/proc.c\<close>, and
  \<^verbatim>\<open>vmmap_mapping_info\<close> of \<^verbatim>\<open>K3/vmmap.c\<close>. Formatting is a parameter: \<open>sfmt\<close> gives the text of a format string and its
  arguments. \<^verbatim>\<open>iprintf\<close> is not in the repository; it is a parameter too, which changes the text printed so far
  and the space left. \<^verbatim>\<open>snprintf\<close> is as in the C standard: it stores as much of the text as fits before
  a final zero, and returns the length of the whole text.
\<close>

subsection \<open>Processes\<close>

datatype farg = Fint int | Fstr string | Fptr "ptr option" | Fhex u32 | Fchr char

record info_ext =
  sfmt :: "string \<Rightarrow> farg list \<Rightarrow> string"
  iprintf :: "string \<Rightarrow> string \<times> nat \<Rightarrow> string \<times> nat"
  state_no :: "proc_state \<Rightarrow> int"
  with_mtp :: bool
  with_vm :: bool
  with_getcwd :: bool
  dirpath :: "ptr \<Rightarrow> string"

fun children_info :: "info_ext \<Rightarrow> (ptr \<Rightarrow> proc option) \<Rightarrow> ptr list \<Rightarrow> string \<times> nat \<Rightarrow> (string \<times> nat) option" where
  "children_info I P [] b = Some b"
| "children_info I P (c # cs) b = do {
     cr \<leftarrow> P c;
     children_info I P cs (iprintf I (sfmt I ''     %i (%s)\<newline>'' [Fint (p_pid cr), Fstr (p_comm cr)]) b)
   }"

definition proc_info :: "info_ext \<Rightarrow> ptr option \<Rightarrow> string \<times> nat \<Rightarrow> 'a proc_st_scheme \<Rightarrow> (string \<times> nat) option" where
  "proc_info I arg b s = do {
     p \<leftarrow> arg;
     pr \<leftarrow> procs s p;
     let b = iprintf I (sfmt I ''pid:          %i\<newline>'' [Fint (p_pid pr)]) b;
     let b = iprintf I (sfmt I ''name:         %s\<newline>'' [Fstr (p_comm pr)]) b;
     b \<leftarrow> (case p_pproc pr of
         Some pp \<Rightarrow> do {
           ppr \<leftarrow> procs s pp;
           Some (iprintf I (sfmt I ''parent:       %i (%s)\<newline>'' [Fint (p_pid ppr), Fstr (p_comm ppr)]) b)
         }
       | None \<Rightarrow> Some (iprintf I (sfmt I ''parent:       -\<newline>'' []) b));
     let b = (if with_mtp I then iprintf I (sfmt I ''thread count: %i\<newline>'' [Fint (int (length (p_threads pr)))]) b else b);
     let b = (if p_children pr = [] then iprintf I (sfmt I ''children:     -\<newline>'' []) b else iprintf I (sfmt I ''children:\<newline>'' []) b);
     b \<leftarrow> children_info I (procs s) (p_children pr) b;
     let b = iprintf I (sfmt I ''status:       %i\<newline>'' [Fint (p_status pr)]) b;
     let b = iprintf I (sfmt I ''state:        %i\<newline>'' [Fint (state_no I (p_state pr))]) b;
     let b = (if with_getcwd I then
                (case p_cwd pr of
                   Some v \<Rightarrow> iprintf I (sfmt I ''cwd:          %-s\<newline>'' [Fstr (dirpath I v)]) b
                 | None \<Rightarrow> iprintf I (sfmt I ''cwd:          -\<newline>'' []) b)
              else b);
     let b = (if with_vm I then
                iprintf I (sfmt I ''brk:          0x%p\<newline>'' [Fhex (p_brk pr)])
                  (iprintf I (sfmt I ''start brk:    0x%p\<newline>'' [Fhex (p_start_brk pr)]) b)
              else b);
     Some b
   }"

definition proc_line :: "info_ext \<Rightarrow> (ptr \<Rightarrow> proc option) \<Rightarrow> proc \<Rightarrow> string option" where
  "proc_line I P pr = do {
     parent \<leftarrow> (case p_pproc pr of
         Some pp \<Rightarrow> do { ppr \<leftarrow> P pp; Some (take 63 (sfmt I ''%3i (%s)'' [Fint (p_pid ppr), Fstr (p_comm ppr)])) }
       | None \<Rightarrow> Some (take 63 (sfmt I ''  -'' [])));
     Some (if with_getcwd I then
             (case p_cwd pr of
                Some v \<Rightarrow> sfmt I '' %3i  %-13s %-18s %-s\<newline>'' [Fint (p_pid pr), Fstr (p_comm pr), Fstr parent, Fstr (dirpath I v)]
              | None \<Rightarrow> sfmt I '' %3i  %-13s %-18s -\<newline>'' [Fint (p_pid pr), Fstr (p_comm pr), Fstr parent])
           else sfmt I '' %3i  %-13s %-s\<newline>'' [Fint (p_pid pr), Fstr (p_comm pr), Fstr parent])
   }"

fun procs_info :: "info_ext \<Rightarrow> (ptr \<Rightarrow> proc option) \<Rightarrow> ptr list \<Rightarrow> string \<times> nat \<Rightarrow> (string \<times> nat) option" where
  "procs_info I P [] b = Some b"
| "procs_info I P (p # ps) b = do {
     pr \<leftarrow> P p;
     line \<leftarrow> proc_line I P pr;
     procs_info I P ps (iprintf I line b)
   }"

definition proc_list_info :: "info_ext \<Rightarrow> ptr option \<Rightarrow> string \<times> nat \<Rightarrow> 'a proc_st_scheme \<Rightarrow> (string \<times> nat) option" where
  "proc_list_info I arg b s = do {
     _ \<leftarrow> kassert (arg = None);
     let b = (if with_getcwd I
              then iprintf I (sfmt I ''%5s %-13s %-18s %-s\<newline>'' [Fstr ''PID'', Fstr ''NAME'', Fstr ''PARENT'', Fstr ''CWD'']) b
              else iprintf I (sfmt I ''%5s %-13s %-s\<newline>'' [Fstr ''PID'', Fstr ''NAME'', Fstr ''PARENT'']) b);
     procs_info I (procs s) (proc_list s) b
   }"

subsection \<open>Address spaces\<close>






subsection \<open>What is printed\<close>









subsection \<open>Printing processes\<close>

text \<open>
  In a well-formed process table \<^verbatim>\<open>proc_list_info\<close>, and \<^verbatim>\<open>proc_info\<close> of a running process, follow only valid pointers. (The list
  of children of a dead process is stale.)
\<close>

lemma children_info_total: "\<forall>c \<in> set cs. P c \<noteq> None \<Longrightarrow> \<exists>b'. children_info I P cs b = Some b'"
proof (induction cs arbitrary: b)
  case (Cons c cs)
  then obtain cr where cr: "P c = Some cr" by auto
  have "\<exists>b'. children_info I P cs b1 = Some b'" for b1 using Cons by simp
  with cr show ?case by (simp del: split_paired_Ex)
qed simp

lemma parent_valid:
  assumes "tree_ok P L" "P p = Some pr" "p_pproc pr = Some pp"
  shows "P pp \<noteq> None"
  using tree_okD(3) [OF assms(1,2)] assms(3) by (auto simp: node_ok_def is_running_def)

lemma children_valid:
  assumes "tree_ok P L" "P p = Some pr" "p_state pr = PROC_RUNNING" "c \<in> set (p_children pr)"
  shows "P c \<noteq> None"
  using tree_okD(3) [OF assms(1,2)] assms(3,4) by (cases "P c") (auto simp: node_ok_def)

lemma proc_info_total:
  assumes "proc_ok C s" "procs s p = Some pr" "p_state pr = PROC_RUNNING"
  shows "\<exists>b'. proc_info I (Some p) b s = Some b'"
proof -
  note tr = proc_okD(2) [OF assms(1)]
  have "\<exists>b'. children_info I (procs s) (p_children pr) b = Some b'" for b using children_valid [OF tr assms(2,3)] by (intro children_info_total) blast
  then obtain f where f: "\<And>b. children_info I (procs s) (p_children pr) b = Some (f b)" by metis
  show ?thesis
  proof (cases "p_pproc pr")
    case (Some pp)
    then obtain ppr where "procs s pp = Some ppr" using parent_valid [OF tr assms(2)] by auto
    with Some assms(2) show ?thesis by (simp add: proc_info_def Let_def f)
  qed (use assms(2) in \<open>simp add: proc_info_def Let_def f\<close>)
qed

lemma proc_list_info_total:
  assumes "proc_ok C s"
  shows "\<exists>b'. proc_list_info I None b s = Some b'"
proof -
  note tr = proc_okD(2) [OF assms]
  have line: "\<exists>l. proc_line I (procs s) pr = Some l" if "procs s p = Some pr" for p pr
    using parent_valid [OF tr that] by (cases "p_pproc pr") (auto simp: proc_line_def)
  have "set ps \<subseteq> dom (procs s) \<Longrightarrow> \<exists>b'. procs_info I (procs s) ps b = Some b'" for ps b
  proof (induction ps arbitrary: b)
    case (Cons p ps)
    then obtain pr where pr: "procs s p = Some pr" by auto
    from line [OF pr] obtain l where l: "proc_line I (procs s) pr = Some l" by blast
    have "\<exists>b'. procs_info I (procs s) ps (iprintf I l b) = Some b'" using Cons by simp
    then show ?case by (simp add: pr l del: split_paired_Ex)
  qed simp
  from this [of "proc_list s"] tree_okD(2) [OF tr] show ?thesis by (simp add: proc_list_info_def Let_def)
qed

end
