(* ===== verification/Syscall.thy ===== *)
theory Syscall
  imports Vm_Syscall
begin

section \<open>System calls\<close>

text \<open>
  The model of \<^verbatim>\<open>K3/syscall.c\<close>, and of \<^verbatim>\<open>user_vecdup\<close> in \<^verbatim>\<open>K3/access.c\<close>.

  The record \<open>sys_env\<close> holds what the system calls use: the arguments of the functions modelled in the
  other theories, and the code outside the repository. The layout of the structures in user memory is
  declared in headers outside the repository; a \<open>layout\<close> is the size of a structure and the function that
  reads it from bytes. \<open>ld_user\<close> is a load from user memory by the processor in kernel mode. \<open>dirent_out\<close> and
  \<open>stat_out\<close> are the bytes that the file system stores in a directory entry and a \<^verbatim>\<open>struct stat\<close>.

  A system call ends in \<open>None\<close> also when it uses a local variable nobody has set, or memory outside of a
  buffer. Its outcome is \<open>Blocked\<close> when another thread runs in the resulting state.
\<close>

subsection \<open>Arguments\<close>

record 'x layout =
  lsize :: u32
  ldec :: "8 word list \<Rightarrow> 'x"

record read_args =
  read_fd :: int
  read_buf :: u32
  read_nbytes :: u32

record write_args =
  write_fd :: int
  write_buf :: u32
  write_nbytes :: u32

record getdents_args =
  gd_fd :: int
  gd_dirp :: u32
  gd_count :: u32

record mount_args =
  mnt_spec :: argstr
  mnt_dir :: argstr
  mnt_fstype :: argstr

record dup2_args =
  d2_ofd :: int
  d2_nfd :: int

record mkdir_args =
  mkdir_path :: argstr

record link_args =
  link_to :: argstr
  link_from :: argstr

record rename_args =
  rn_oldname :: argstr
  rn_newname :: argstr

record lseek_args =
  ls_fd :: int
  ls_offset :: int
  ls_whence :: int

record open_args =
  open_filename :: argstr
  open_flags :: u32

record munmap_args =
  mu_addr :: u32
  mu_len :: u32

record mmap_args =
  mma_addr :: u32
  mma_len :: u32
  mma_prot :: u32
  mma_flags :: u32
  mma_fd :: int
  mma_off :: u32

record waitpid_args =
  wpa_pid :: int
  wpa_status :: u32

record stat_args =
  st_path :: argstr
  st_buf :: u32

record argvec =
  av_vec :: u32
  av_len :: u32

record execve_args =
  ex_filename :: argstr
  ex_argv :: argvec
  ex_envp :: argvec

datatype sysnum = SYS_waitpid | SYS_exit | SYS_thr_exit | SYS_thr_yield | SYS_fork | SYS_getpid | SYS_sync | SYS_mount
  | SYS_umount | SYS_mmap | SYS_munmap | SYS_open | SYS_close | SYS_read | SYS_write | SYS_dup | SYS_dup2 | SYS_mkdir
  | SYS_rmdir | SYS_unlink | SYS_link | SYS_rename | SYS_chdir | SYS_getdents | SYS_brk | SYS_lseek | SYS_halt
  | SYS_set_errno | SYS_errno | SYS_execve | SYS_stat | SYS_pipe | SYS_uname | SYS_debug | SYS_kshell

record layouts =
  read_l :: "read_args layout"
  write_l :: "write_args layout"
  getdents_l :: "getdents_args layout"
  mount_l :: "mount_args layout"
  dup2_l :: "dup2_args layout"
  argstr_l :: "argstr layout"
  mkdir_l :: "mkdir_args layout"
  link_l :: "link_args layout"
  rename_l :: "rename_args layout"
  lseek_l :: "lseek_args layout"
  open_l :: "open_args layout"
  munmap_l :: "munmap_args layout"
  mmap_l :: "mmap_args layout"
  waitpid_l :: "waitpid_args layout"
  stat_l :: "stat_args layout"
  execve_l :: "execve_args layout"

datatype utsname_field = Uts_sysname | Uts_release | Uts_version | Uts_nodename | Uts_machine

text \<open>
  \<open>sysno\<close> gives the call of a number, none for an unknown number; \<open>mounting\<close> is whether \<^verbatim>\<open>__MOUNTING__\<close> is
  defined; \<open>read_buf_off\<close> and \<open>uts_off\<close> are the offsets of fields.
\<close>

record abi =
  sysno :: "u32 \<Rightarrow> sysnum option"
  mounting :: bool
  lay :: layouts
  read_buf_off :: u32
  uts_off :: "utsname_field \<Rightarrow> u32"
  int_bytes :: "int \<Rightarrow> 8 word list"
  stat_size :: u32
  ptr_size :: u32
  build_version :: string

record 's sys_ext =
  ld_user :: "u32 \<Rightarrow> 's \<Rightarrow> (u32 \<times> 's) option"
  kmalloc_ok :: "u32 \<Rightarrow> 's \<Rightarrow> bool"
  dirent_out :: "int \<Rightarrow> 's \<Rightarrow> 8 word list"
  stat_out :: "string \<Rightarrow> 's \<Rightarrow> 8 word list"
  do_mount :: "string option \<Rightarrow> string \<Rightarrow> string \<Rightarrow> 's \<Rightarrow> (int \<times> 's) option"
  do_umount :: "string \<Rightarrow> 's \<Rightarrow> (int \<times> 's) option"
  do_pipe :: "'s \<Rightarrow> ((int \<times> int \<times> int) \<times> 's) option"
  do_execve :: "8 word list \<Rightarrow> 8 word list list option \<Rightarrow> 8 word list list option \<Rightarrow> regs \<Rightarrow> 's \<Rightarrow> ((int \<times> regs) \<times> 's) option"
  kshell_create :: "int \<Rightarrow> 's \<Rightarrow> (ptr option \<times> 's) option"
  kshell_execute_next :: "ptr \<Rightarrow> 's \<Rightarrow> (int \<times> 's) option"
  kshell_destroy :: "ptr \<Rightarrow> 's \<Rightarrow> 's option"
  fork_alloc :: "'s \<Rightarrow> (ptr \<times> proc) option \<times> ptr option \<times> (tid \<times> kthread) option \<times> ptr option"

record 's sys_env =
  errnos :: "errno \<Rightarrow> int"
  kcf :: kconf
  vcf :: vconf
  mcf :: mconf
  fsx :: "'s fs_ext"
  vmx :: "'s vm_ext"
  objops :: "'s obj_ops"
  sysx :: "'s sys_ext"
  abi_of :: abi
  irqs_of :: "('s \<Rightarrow> 's option) list"
  ctx_of :: ctx_setup
  userland_entry :: ptr
  stack_size :: nat
  regs_size :: nat

subsection \<open>Copying arguments\<close>

definition get_args :: "'a vm_st_scheme sys_env \<Rightarrow> 'x layout \<Rightarrow> u32 \<Rightarrow> 'a vm_st_scheme
    \<Rightarrow> ((int \<times> 'x) \<times> 'a vm_st_scheme) option" where
  "get_args Z l uaddr s = do {
     ((err, bytes), s) \<leftarrow> copy_from_user (errnos Z) (mcf Z) (objops Z) uaddr (lsize l) s;
     Some ((err, ldec l bytes), s)
   }"

definition put_user :: "'a vm_st_scheme sys_env \<Rightarrow> u32 \<Rightarrow> 8 word list \<Rightarrow> u32 \<Rightarrow> 'a vm_st_scheme
    \<Rightarrow> (int \<times> 'a vm_st_scheme) option" where
  "put_user Z uaddr bytes nbytes s = copy_to_user (errnos Z) (mcf Z) (objops Z) uaddr bytes nbytes s"

text \<open>A string that the kernel has copied is used up to its first null byte.\<close>

definition c_string :: "8 word list \<Rightarrow> string option" where
  "c_string bytes = (if 0 \<in> set bytes then Some (map (\<lambda>b. char_of (unat b)) (takeWhile (\<lambda>b. b \<noteq> 0) bytes)) else None)"

definition get_str :: "'a vm_st_scheme sys_env \<Rightarrow> argstr \<Rightarrow> 'a vm_st_scheme
    \<Rightarrow> (8 word list option \<times> 'a vm_st_scheme) option" where
  "get_str Z u s = user_strdup (errnos Z) (mcf Z) (objops Z) (kmalloc_ok (sysx Z) (as_len u + 1) s) u s"

definition fail_with :: "int \<Rightarrow> 'a vm_st_scheme \<Rightarrow> (int \<times> 'a vm_st_scheme) option" where
  "fail_with e s = do { s \<leftarrow> set_errno e s; Some (- 1, s) }"

definition ret_errno :: "int \<Rightarrow> 'a vm_st_scheme \<Rightarrow> (int \<times> 'a vm_st_scheme) option" where
  "ret_errno err s = (if err < 0 then fail_with (- err) s else Some (err, s))"

text \<open>
  In \<^verbatim>\<open>user_vecdup\<close> the result of a failure after the strings' array has been allocated and before it has
  been written is \<open>None\<close>: the clean-up reads the array, which nobody has set. The strings copied before
  a failing one are freed.
\<close>

primrec vec_strings :: "'a vm_st_scheme sys_env \<Rightarrow> argstr list \<Rightarrow> 'a vm_st_scheme
    \<Rightarrow> (8 word list list option \<times> 'a vm_st_scheme) option" where
  "vec_strings Z [] s = Some (Some [], s)"
| "vec_strings Z (u # us) s = do {
     (str, s) \<leftarrow> get_str Z u s;
     case str of
       None \<Rightarrow> Some (None, s)
     | Some bytes \<Rightarrow> do {
         (rest, s) \<leftarrow> vec_strings Z us s;
         Some (map_option (\<lambda>strs. bytes # strs) rest, s)
       }
   }"

definition argstr_at :: "abi \<Rightarrow> 8 word list \<Rightarrow> nat \<Rightarrow> argstr" where
  "argstr_at A bytes i = (let n = unat (lsize (argstr_l (lay A))) in ldec (argstr_l (lay A)) (take n (drop (i * n) bytes)))"

definition user_vecdup :: "'a vm_st_scheme sys_env \<Rightarrow> argvec \<Rightarrow> 'a vm_st_scheme
    \<Rightarrow> (8 word list list option \<times> 'a vm_st_scheme) option" where
  "user_vecdup Z uvec s = do {
     let n = av_len uvec + 1;
     let size = n * lsize (argstr_l (lay (abi_of Z)));
     if \<not> kmalloc_ok (sysx Z) size s \<or> \<not> kmalloc_ok (sysx Z) (n * ptr_size (abi_of Z)) s
     then do { s \<leftarrow> set_errno (errnos Z ENOMEM) s; Some (None, s) }
     else do {
       ((ret, temp_kvec), s) \<leftarrow> copy_from_user (errnos Z) (mcf Z) (objops Z) (av_vec uvec) size s;
       if ret < 0 then None
       else do {
         (kvec, s) \<leftarrow> vec_strings Z (map (argstr_at (abi_of Z) temp_kvec) [0..<unat (av_len uvec)]) s;
         case kvec of
           None \<Rightarrow> do {
             t \<leftarrow> curthr s;
             thr \<leftarrow> threads s t;
             s \<leftarrow> set_errno (kt_errno thr) s;
             Some (None, s)
           }
         | Some strs \<Rightarrow> Some (Some strs, s)
       }
     }
   }"

subsection \<open>Files\<close>

text \<open>
  The buffer of \<^verbatim>\<open>sys_read\<close> and \<^verbatim>\<open>sys_write\<close> is one page, and nothing checks that there is one. When
  \<^verbatim>\<open>vmmap_read\<close> has copied fewer bytes than \<^verbatim>\<open>sys_write\<close> writes, the rest of the page is unset.
\<close>

definition in_buffer :: "'a vm_st_scheme sys_env \<Rightarrow> ptr option \<Rightarrow> 8 word list \<Rightarrow> bool" where
  "in_buffer Z buf bytes \<longleftrightarrow> bytes = [] \<or> buf \<noteq> None \<and> length bytes \<le> PAGE_SIZE (mcf Z)"

definition sys_read :: "'a vm_st_scheme sys_env \<Rightarrow> u32 \<Rightarrow> 'a vm_st_scheme \<Rightarrow> (int \<times> 'a vm_st_scheme) option" where
  "sys_read Z arg s = do {
     ((retVal, readArgs), s) \<leftarrow> get_args Z (read_l (lay (abi_of Z))) arg s;
     if retVal < 0 then fail_with (- retVal) s
     else do {
       let buf = page_alloc (vmx Z) s;
       ((bytes, dat), s) \<leftarrow> do_read (errnos Z) (vcf Z) (fsx Z) (read_fd readArgs) (read_nbytes readArgs) s;
       _ \<leftarrow> kassert (in_buffer Z buf dat);
       if bytes < 0 then fail_with (- bytes) s
       else do {
         (ubuf, s) \<leftarrow> ld_user (sysx Z) (arg + read_buf_off (abi_of Z)) s;
         (retVal, s) \<leftarrow> put_user Z ubuf dat (of_int bytes) s;
         if retVal < 0 then fail_with (- retVal) s else Some (bytes, s)
       }
     }
   }"

definition sys_write :: "'a vm_st_scheme sys_env \<Rightarrow> u32 \<Rightarrow> 'a vm_st_scheme \<Rightarrow> (int \<times> 'a vm_st_scheme) option" where
  "sys_write Z arg s = do {
     ((retVal, writeArgs), s) \<leftarrow> get_args Z (write_l (lay (abi_of Z))) arg s;
     if retVal < 0 then fail_with (- retVal) s
     else do {
       let buf = page_alloc (vmx Z) s;
       ((retVal, dat), s) \<leftarrow> copy_from_user (errnos Z) (mcf Z) (objops Z) (write_buf writeArgs) (write_nbytes writeArgs) s;
       _ \<leftarrow> kassert (in_buffer Z buf dat);
       if retVal < 0 then fail_with (- retVal) s
       else do {
         _ \<leftarrow> kassert (length dat = unat (write_nbytes writeArgs));
         (bytes, s) \<leftarrow> do_write (errnos Z) (vcf Z) (fsx Z) (write_fd writeArgs) dat s;
         if bytes < 0 then fail_with (- bytes) s else Some (bytes, s)
       }
     }
   }"

text \<open>\<open>getdents_loop Z fd dirp i n total s\<close> is the loop of \<^verbatim>\<open>sys_getdents\<close> with \<open>n\<close> rounds left; its result is that of the call.
  The sum of the sizes is an \<^verbatim>\<open>int\<close>, and the addition is undefined when it overflows.\<close>

fun getdents_loop :: "'a vm_st_scheme sys_env \<Rightarrow> int \<Rightarrow> u32 \<Rightarrow> nat \<Rightarrow> nat \<Rightarrow> int \<Rightarrow> 'a vm_st_scheme
    \<Rightarrow> (int \<times> 'a vm_st_scheme) option" where
  "getdents_loop Z fd dirp i 0 totalBytes s = Some (totalBytes, s)"
| "getdents_loop Z fd dirp i (Suc n) totalBytes s = do {
     let dir = dirent_out (sysx Z) fd s;
     (bytes, s) \<leftarrow> do_getdent (errnos Z) (vcf Z) (fsx Z) fd s;
     if bytes > 0 then do {
       (retVal, s) \<leftarrow> put_user Z (dirp + of_nat i * of_int (DIRENT_SIZE (vcf Z))) dir (of_int bytes) s;
       if retVal < 0 then fail_with (- retVal) s
       else do {
         _ \<leftarrow> kassert (totalBytes + bytes < 2 ^ 31);
         getdents_loop Z fd dirp (Suc i) n (totalBytes + bytes) s
       }
     }
     else if bytes < 0 then fail_with (- bytes) s
     else do {
       s \<leftarrow> set_errno (- bytes) s;
       Some (totalBytes, s)
     }
   }"

definition sys_getdents :: "'a vm_st_scheme sys_env \<Rightarrow> u32 \<Rightarrow> 'a vm_st_scheme \<Rightarrow> (int \<times> 'a vm_st_scheme) option" where
  "sys_getdents Z arg s = do {
     ((retVal, a), s) \<leftarrow> get_args Z (getdents_l (lay (abi_of Z))) arg s;
     if retVal < 0 then fail_with (- retVal) s
     else do {
       let num = sint (gd_count a div of_int (DIRENT_SIZE (vcf Z)));
       getdents_loop Z (gd_fd a) (gd_dirp a) 0 (nat num) 0 s
     }
   }"

definition sys_close :: "'a vm_st_scheme sys_env \<Rightarrow> int \<Rightarrow> 'a vm_st_scheme \<Rightarrow> (int \<times> 'a vm_st_scheme) option" where
  "sys_close Z fd s = do {
     (err, s) \<leftarrow> do_close (errnos Z) (vcf Z) (fsx Z) fd s;
     ret_errno err s
   }"

definition sys_dup :: "'a vm_st_scheme sys_env \<Rightarrow> int \<Rightarrow> 'a vm_st_scheme \<Rightarrow> (int \<times> 'a vm_st_scheme) option" where
  "sys_dup Z fd s = do {
     (err, s) \<leftarrow> do_dup (errnos Z) (vcf Z) (fsx Z) fd s;
     ret_errno err s
   }"

definition sys_dup2 :: "'a vm_st_scheme sys_env \<Rightarrow> u32 \<Rightarrow> 'a vm_st_scheme \<Rightarrow> (int \<times> 'a vm_st_scheme) option" where
  "sys_dup2 Z arg s = do {
     ((err, a), s) \<leftarrow> get_args Z (dup2_l (lay (abi_of Z))) arg s;
     if err < 0 then fail_with (- err) s
     else do {
       (err, s) \<leftarrow> do_dup2 (errnos Z) (vcf Z) (fsx Z) (d2_ofd a) (d2_nfd a) s;
       ret_errno err s
     }
   }"

definition sys_lseek :: "'a vm_st_scheme sys_env \<Rightarrow> u32 \<Rightarrow> 'a vm_st_scheme \<Rightarrow> (int \<times> 'a vm_st_scheme) option" where
  "sys_lseek Z arg s = do {
     ((err, a), s) \<leftarrow> get_args Z (lseek_l (lay (abi_of Z))) arg s;
     if err < 0 then fail_with (- err) s
     else do {
       (err, s) \<leftarrow> do_lseek (errnos Z) (vcf Z) (fsx Z) (ls_fd a) (ls_offset a) (ls_whence a) s;
       ret_errno err s
     }
   }"

subsection \<open>Paths\<close>

text \<open>
  \<open>path_call Z f u s\<close> copies the string \<open>u\<close> from user memory and calls \<open>f\<close> on it, as the calls with one path do.
\<close>

definition path_call :: "'a vm_st_scheme sys_env \<Rightarrow> (string \<Rightarrow> 'a vm_st_scheme \<Rightarrow> (int \<times> 'a vm_st_scheme) option) \<Rightarrow> argstr
    \<Rightarrow> 'a vm_st_scheme \<Rightarrow> (int \<times> 'a vm_st_scheme) option" where
  "path_call Z f u s = do {
     (path, s) \<leftarrow> get_str Z u s;
     case path of
       None \<Rightarrow> fail_with (errnos Z EINVAL) s
     | Some bytes \<Rightarrow> do {
         p \<leftarrow> c_string bytes;
         (err, s) \<leftarrow> f p s;
         ret_errno err s
       }
   }"

definition sys_mkdir :: "'a vm_st_scheme sys_env \<Rightarrow> u32 \<Rightarrow> 'a vm_st_scheme \<Rightarrow> (int \<times> 'a vm_st_scheme) option" where
  "sys_mkdir Z arg s = do {
     ((err, kern_args), s) \<leftarrow> get_args Z (mkdir_l (lay (abi_of Z))) arg s;
     if err < 0 then fail_with (- err) s
     else path_call Z (do_mkdir (errnos Z) (vcf Z) (fsx Z)) (mkdir_path kern_args) s
   }"

definition sys_rmdir :: "'a vm_st_scheme sys_env \<Rightarrow> u32 \<Rightarrow> 'a vm_st_scheme \<Rightarrow> (int \<times> 'a vm_st_scheme) option" where
  "sys_rmdir Z arg s = do {
     ((err, kern_args), s) \<leftarrow> get_args Z (argstr_l (lay (abi_of Z))) arg s;
     if err < 0 then fail_with (- err) s
     else path_call Z (do_rmdir (errnos Z) (vcf Z) (fsx Z)) kern_args s
   }"

definition sys_unlink :: "'a vm_st_scheme sys_env \<Rightarrow> u32 \<Rightarrow> 'a vm_st_scheme \<Rightarrow> (int \<times> 'a vm_st_scheme) option" where
  "sys_unlink Z arg s = do {
     ((err, kern_args), s) \<leftarrow> get_args Z (argstr_l (lay (abi_of Z))) arg s;
     if err < 0 then fail_with (- err) s
     else path_call Z (do_unlink (errnos Z) (vcf Z) (fsx Z)) kern_args s
   }"

definition sys_chdir :: "'a vm_st_scheme sys_env \<Rightarrow> u32 \<Rightarrow> 'a vm_st_scheme \<Rightarrow> (int \<times> 'a vm_st_scheme) option" where
  "sys_chdir Z arg s = do {
     ((err, kern_args), s) \<leftarrow> get_args Z (argstr_l (lay (abi_of Z))) arg s;
     if err < 0 then fail_with (- err) s
     else path_call Z (do_chdir (errnos Z) (vcf Z) (fsx Z)) kern_args s
   }"

definition sys_open :: "'a vm_st_scheme sys_env \<Rightarrow> u32 \<Rightarrow> 'a vm_st_scheme \<Rightarrow> (int \<times> 'a vm_st_scheme) option" where
  "sys_open Z arg s = do {
     ((err, kern_args), s) \<leftarrow> get_args Z (open_l (lay (abi_of Z))) arg s;
     if err < 0 then fail_with (- err) s
     else path_call Z (\<lambda>path. do_open (errnos Z) (vcf Z) (fsx Z) path (open_flags kern_args)) (open_filename kern_args) s
   }"

text \<open>The calls with two paths copy one after the other; \<open>u\<close> is the first to be copied.\<close>

definition two_path_call :: "'a vm_st_scheme sys_env \<Rightarrow> (string \<Rightarrow> string \<Rightarrow> 'a vm_st_scheme \<Rightarrow> (int \<times> 'a vm_st_scheme) option)
    \<Rightarrow> argstr \<Rightarrow> argstr \<Rightarrow> 'a vm_st_scheme \<Rightarrow> (int \<times> 'a vm_st_scheme) option" where
  "two_path_call Z f u w s = do {
     (str, s) \<leftarrow> get_str Z u s;
     case str of
       None \<Rightarrow> fail_with (errnos Z EINVAL) s
     | Some bytes \<Rightarrow> do {
         (str2, s) \<leftarrow> get_str Z w s;
         case str2 of
           None \<Rightarrow> fail_with (errnos Z EINVAL) s
         | Some bytes2 \<Rightarrow> do {
             p \<leftarrow> c_string bytes;
             q \<leftarrow> c_string bytes2;
             (err, s) \<leftarrow> f p q s;
             ret_errno err s
           }
       }
   }"

definition sys_link :: "'a vm_st_scheme sys_env \<Rightarrow> u32 \<Rightarrow> 'a vm_st_scheme \<Rightarrow> (int \<times> 'a vm_st_scheme) option" where
  "sys_link Z arg s = do {
     ((err, kern_args), s) \<leftarrow> get_args Z (link_l (lay (abi_of Z))) arg s;
     if err < 0 then fail_with (- err) s
     else two_path_call Z (\<lambda>to from. do_link (errnos Z) (vcf Z) (fsx Z) from to) (link_to kern_args) (link_from kern_args) s
   }"

definition sys_rename :: "'a vm_st_scheme sys_env \<Rightarrow> u32 \<Rightarrow> 'a vm_st_scheme \<Rightarrow> (int \<times> 'a vm_st_scheme) option" where
  "sys_rename Z arg s = do {
     ((err, kern_args), s) \<leftarrow> get_args Z (rename_l (lay (abi_of Z))) arg s;
     if err < 0 then fail_with (- err) s
     else two_path_call Z (\<lambda>oldname newname. do_rename (errnos Z) (vcf Z) (fsx Z) oldname newname)
            (rn_oldname kern_args) (rn_newname kern_args) s
   }"

definition sys_mount :: "'a vm_st_scheme sys_env \<Rightarrow> u32 \<Rightarrow> 'a vm_st_scheme \<Rightarrow> (int \<times> 'a vm_st_scheme) option" where
  "sys_mount Z arg s = do {
     ((err, kern_args), s) \<leftarrow> get_args Z (mount_l (lay (abi_of Z))) arg s;
     if err < 0 then fail_with (errnos Z EFAULT) s
     else do {
       (source, s) \<leftarrow> get_str Z (mnt_spec kern_args) s;
       (target, s) \<leftarrow> get_str Z (mnt_dir kern_args) s;
       case target of
         None \<Rightarrow> fail_with (errnos Z EINVAL) s
       | Some tbytes \<Rightarrow> do {
           (type, s) \<leftarrow> get_str Z (mnt_fstype kern_args) s;
           case type of
             None \<Rightarrow> fail_with (errnos Z EINVAL) s
           | Some ybytes \<Rightarrow> do {
               src \<leftarrow> (case source of None \<Rightarrow> Some None | Some bytes \<Rightarrow> map_option Some (c_string bytes));
               t \<leftarrow> c_string tbytes;
               y \<leftarrow> c_string ybytes;
               (ret, s) \<leftarrow> do_mount (sysx Z) src t y s;
               if ret \<noteq> 0 then fail_with (- ret) s else Some (0, s)
             }
         }
     }
   }"

definition sys_umount :: "'a vm_st_scheme sys_env \<Rightarrow> u32 \<Rightarrow> 'a vm_st_scheme \<Rightarrow> (int \<times> 'a vm_st_scheme) option" where
  "sys_umount Z input s = do {
     ((err, kstr), s) \<leftarrow> get_args Z (argstr_l (lay (abi_of Z))) input s;
     if err < 0 then fail_with (errnos Z EFAULT) s
     else do {
       (target, s) \<leftarrow> get_str Z kstr s;
       case target of
         None \<Rightarrow> fail_with (errnos Z EINVAL) s
       | Some bytes \<Rightarrow> do {
           t \<leftarrow> c_string bytes;
           (ret, s) \<leftarrow> do_umount (sysx Z) t s;
           if ret \<noteq> 0 then fail_with (- ret) s else Some (0, s)
         }
     }
   }"

definition sys_stat :: "'a vm_st_scheme sys_env \<Rightarrow> u32 \<Rightarrow> 'a vm_st_scheme \<Rightarrow> (int \<times> 'a vm_st_scheme) option" where
  "sys_stat Z arg s = do {
     ((err, kern_args), s) \<leftarrow> get_args Z (stat_l (lay (abi_of Z))) arg s;
     if err < 0 then fail_with (errnos Z EFAULT) s
     else do {
       (path, s) \<leftarrow> get_str Z (st_path kern_args) s;
       case path of
         None \<Rightarrow> fail_with (errnos Z EINVAL) s
       | Some bytes \<Rightarrow> do {
           p \<leftarrow> c_string bytes;
           let buf = stat_out (sysx Z) p s;
           (ret, s) \<leftarrow> do_stat (errnos Z) (vcf Z) (fsx Z) p s;
           (ret, s) \<leftarrow> (if ret = 0 then put_user Z (st_buf kern_args) buf (stat_size (abi_of Z)) s else Some (ret, s));
           if ret \<noteq> 0 then fail_with (- ret) s else Some (0, s)
         }
     }
   }"

subsection \<open>Memory\<close>

definition sys_munmap :: "'a vm_st_scheme sys_env \<Rightarrow> u32 \<Rightarrow> 'a vm_st_scheme \<Rightarrow> (int \<times> 'a vm_st_scheme) option" where
  "sys_munmap Z arg s = do {
     ((err, kargs), s) \<leftarrow> get_args Z (munmap_l (lay (abi_of Z))) arg s;
     if err \<noteq> 0 then fail_with (errnos Z EFAULT) s
     else do {
       (err, s) \<leftarrow> do_munmap (errnos Z) (mcf Z) (vmx Z) (objops Z) (mu_addr kargs) (mu_len kargs) s;
       if err < 0 then fail_with (- err) s else Some (0, s)
     }
   }"

definition MAP_FAILED :: u32 where
  "MAP_FAILED = - 1"

definition sys_mmap :: "'a vm_st_scheme sys_env \<Rightarrow> u32 \<Rightarrow> 'a vm_st_scheme \<Rightarrow> (u32 \<times> 'a vm_st_scheme) option" where
  "sys_mmap Z arg s = do {
     ((err, kargs), s) \<leftarrow> get_args Z (mmap_l (lay (abi_of Z))) arg s;
     if err < 0 then do { s \<leftarrow> set_errno (errnos Z EFAULT) s; Some (MAP_FAILED, s) }
     else do {
       ((err, ret), s) \<leftarrow> do_mmap (errnos Z) (vcf Z) (mcf Z) (fsx Z) (vmx Z) (objops Z) (mma_addr kargs) (mma_len kargs)
          (mma_prot kargs) (mma_flags kargs) (mma_fd kargs) (mma_off kargs) s;
       if err < 0 then do { s \<leftarrow> set_errno (- err) s; Some (MAP_FAILED, s) }
       else do { r \<leftarrow> ret; Some (r, s) }
     }
   }"

definition sys_brk :: "'a vm_st_scheme sys_env \<Rightarrow> u32 \<Rightarrow> 'a vm_st_scheme \<Rightarrow> (u32 \<times> 'a vm_st_scheme) option" where
  "sys_brk Z addr s = do {
     ((err, ret), s) \<leftarrow> do_brk (errnos Z) (mcf Z) (vmx Z) (objops Z) addr s;
     if err = 0 then do { r \<leftarrow> ret; Some (r, s) }
     else do { s \<leftarrow> set_errno (- err) s; Some (- 1, s) }
   }"

definition sys_sync :: "'a vm_st_scheme sys_env \<Rightarrow> 'a vm_st_scheme \<Rightarrow> 'a vm_st_scheme option" where
  "sys_sync Z s = pframe_clean_all (mcf Z) (vmx Z) (objops Z) (alloc_list s) s"

subsection \<open>Processes\<close>

definition sys_waitpid :: "'a vm_st_scheme sys_env \<Rightarrow> u32 \<Rightarrow> 'a vm_st_scheme \<Rightarrow> (int outcome \<times> 'a vm_st_scheme) option" where
  "sys_waitpid Z args s = do {
     ((err, kargs), s) \<leftarrow> get_args Z (waitpid_l (lay (abi_of Z))) args s;
     if err < 0 then do { (r, s) \<leftarrow> fail_with (errnos Z EFAULT) s; Some (Returned r, s) }
     else do {
       ((r, status), s) \<leftarrow> do_waitpid (errnos Z) (irqs_of Z) (wpa_pid kargs) True s;
       case r of
         Blocked \<Rightarrow> Some (Blocked, s)
       | Returned p \<Rightarrow>
           if p < 0 then do { (r, s) \<leftarrow> fail_with (- p) s; Some (Returned r, s) }
           else if wpa_status kargs \<noteq> 0 then do {
             st \<leftarrow> status;
             let bytes = int_bytes (abi_of Z) st;
             (err, s) \<leftarrow> put_user Z (wpa_status kargs) bytes (of_nat (length bytes)) s;
             if err < 0 then do { (r, s) \<leftarrow> fail_with (errnos Z EFAULT) s; Some (Returned r, s) }
             else Some (Returned p, s)
           } else Some (Returned p, s)
     }
   }"

definition sys_halt :: "'a vm_st_scheme sys_env \<Rightarrow> 'a vm_st_scheme \<Rightarrow> (unit outcome \<times> 'a vm_st_scheme) option" where
  "sys_halt Z s = proc_kill_all (irqs_of Z) s"

definition sys_fork :: "'a vm_st_scheme sys_env \<Rightarrow> regs \<Rightarrow> 'a vm_st_scheme \<Rightarrow> ((int \<times> regs) \<times> 'a vm_st_scheme) option" where
  "sys_fork Z regs s = (case fork_alloc (sysx Z) s of (pslab, pagedir, tslab, kstack) \<Rightarrow> do {
     ((ret, regs, _), s) \<leftarrow> do_fork (kcf Z) (vcf Z) (mcf Z) (vmx Z) (objops Z) (ctx_of Z) (userland_entry Z) (stack_size Z) (regs_size Z)
        pslab pagedir tslab kstack regs s;
     (ret, s) \<leftarrow> ret_errno ret s;
     Some ((ret, regs), s)
   })"

text \<open>A null vector of \<^verbatim>\<open>execve\<close> stays null; \<open>vec_arg\<close> says whether to go on, and with what.\<close>

definition vec_arg :: "'a vm_st_scheme sys_env \<Rightarrow> argvec \<Rightarrow> 'a vm_st_scheme
    \<Rightarrow> (8 word list list option option \<times> 'a vm_st_scheme) option" where
  "vec_arg Z v s =
     (if av_vec v = 0 then Some (Some None, s)
      else do {
        (kvec, s) \<leftarrow> user_vecdup Z v s;
        Some (map_option Some kvec, s)
      })"

definition sys_execve :: "'a vm_st_scheme sys_env \<Rightarrow> u32 \<Rightarrow> regs \<Rightarrow> 'a vm_st_scheme
    \<Rightarrow> ((int \<times> regs) \<times> 'a vm_st_scheme) option" where
  "sys_execve Z args regs s = do {
     ((err, kern_args), s) \<leftarrow> get_args Z (execve_l (lay (abi_of Z))) args s;
     (regs, s) \<leftarrow>
       (if err < 0 then do { s \<leftarrow> set_errno (- err) s; Some (regs, s) }
        else do {
          (filename, s) \<leftarrow> get_str Z (ex_filename kern_args) s;
          case filename of
            None \<Rightarrow> Some (regs, s)
          | Some bytes \<Rightarrow> do {
              (argv, s) \<leftarrow> vec_arg Z (ex_argv kern_args) s;
              case argv of
                None \<Rightarrow> Some (regs, s)
              | Some kern_argv \<Rightarrow> do {
                  (envp, s) \<leftarrow> vec_arg Z (ex_envp kern_args) s;
                  case envp of
                    None \<Rightarrow> Some (regs, s)
                  | Some kern_envp \<Rightarrow> do {
                      ((err, regs), s) \<leftarrow> do_execve (sysx Z) bytes kern_argv kern_envp regs s;
                      s \<leftarrow> set_errno (- err) s;
                      Some (regs, s)
                    }
                }
            }
        });
     t \<leftarrow> curthr s;
     thr \<leftarrow> threads s t;
     Some ((if kt_errno thr \<noteq> 0 then - 1 else 0, regs), s)
   }"

subsection \<open>Others\<close>

definition sys_pipe :: "'a vm_st_scheme sys_env \<Rightarrow> u32 \<Rightarrow> 'a vm_st_scheme \<Rightarrow> (int \<times> 'a vm_st_scheme) option" where
  "sys_pipe Z arg s = do {
     ((ret, fd0, fd1), s) \<leftarrow> do_pipe (sysx Z) s;
     let bytes = int_bytes (abi_of Z) fd0 @ int_bytes (abi_of Z) fd1;
     (ret, s) \<leftarrow> (if ret = 0 then put_user Z arg bytes (of_nat (length bytes)) s else Some (ret, s));
     if ret \<noteq> 0 then fail_with (- ret) s else Some (0, s)
   }"

definition str_bytes :: "string \<Rightarrow> 8 word list" where
  "str_bytes str = map (\<lambda>c. of_nat (of_char c)) str @ [0]"

fun uname_copies :: "'a vm_st_scheme sys_env \<Rightarrow> u32 \<Rightarrow> (utsname_field \<times> string) list \<Rightarrow> 'a vm_st_scheme
    \<Rightarrow> (int \<times> 'a vm_st_scheme) option" where
  "uname_copies Z arg [] s = Some (0, s)"
| "uname_copies Z arg ((f, str) # fs) s = do {
     (ret, s) \<leftarrow> put_user Z (arg + uts_off (abi_of Z) f) (str_bytes str) (of_nat (length (str_bytes str))) s;
     if ret \<noteq> 0 then fail_with (- ret) s else uname_copies Z arg fs s
   }"

definition sys_uname :: "'a vm_st_scheme sys_env \<Rightarrow> u32 \<Rightarrow> 'a vm_st_scheme \<Rightarrow> (int \<times> 'a vm_st_scheme) option" where
  "sys_uname Z arg s = uname_copies Z arg [(Uts_sysname, ''Weenix''), (Uts_release, ''1.2''),
     (Uts_version, build_version (abi_of Z)), (Uts_nodename, []), (Uts_machine, [])] s"

definition sys_debug :: "'a vm_st_scheme sys_env \<Rightarrow> u32 \<Rightarrow> 'a vm_st_scheme \<Rightarrow> (int \<times> 'a vm_st_scheme) option" where
  "sys_debug Z arg s = do {
     ((err, kern_args), s) \<leftarrow> get_args Z (argstr_l (lay (abi_of Z))) arg s;
     if err < 0 then fail_with (- err) s
     else do {
       (_, s) \<leftarrow> get_str Z kern_args s;
       Some (0, s)
     }
   }"

partial_function (option) kshell_loop :: "'a vm_st_scheme sys_env \<Rightarrow> ptr \<Rightarrow> 'a vm_st_scheme \<Rightarrow> (int \<times> 'a vm_st_scheme) option" where
  "kshell_loop Z ksh s = do {
     (err, s) \<leftarrow> kshell_execute_next (sysx Z) ksh s;
     if err > 0 then kshell_loop Z ksh s else Some (err, s)
   }"

definition sys_kshell :: "'a vm_st_scheme sys_env \<Rightarrow> int \<Rightarrow> 'a vm_st_scheme \<Rightarrow> (int \<times> 'a vm_st_scheme) option" where
  "sys_kshell Z ttyid s = do {
     (ksh, s) \<leftarrow> kshell_create (sysx Z) ttyid s;
     case ksh of
       None \<Rightarrow> fail_with (errnos Z ENODEV) s
     | Some k \<Rightarrow> do {
         (err, s) \<leftarrow> kshell_loop Z k s;
         s \<leftarrow> kshell_destroy (sysx Z) k s;
         if err < 0 then fail_with (- err) s else Some (0, s)
       }
   }"

subsection \<open>Dispatch\<close>

text \<open>A call that does not block, with its outcome and the registers it leaves.\<close>

definition returned :: "regs \<Rightarrow> (int \<times> 's) option \<Rightarrow> ((int outcome \<times> regs) \<times> 's) option" where
  "returned regs r = map_option (\<lambda>(ret, s). ((Returned ret, regs), s)) r"

definition thr_yield :: "'a vm_st_scheme sys_env \<Rightarrow> 'a vm_st_scheme \<Rightarrow> (int outcome \<times> 'a vm_st_scheme) option" where
  "thr_yield Z s = do {
     t \<leftarrow> curthr s;
     s \<leftarrow> sched_make_runnable t s;
     s \<leftarrow> sched_switch (irqs_of Z) s;
     Some (if curthr s = Some t then Returned 0 else Blocked, s)
   }"

definition syscall_dispatch :: "'a vm_st_scheme sys_env \<Rightarrow> u32 \<Rightarrow> u32 \<Rightarrow> regs \<Rightarrow> 'a vm_st_scheme
    \<Rightarrow> ((int outcome \<times> regs) \<times> 'a vm_st_scheme) option" where
  "syscall_dispatch Z num args regs s =
     (let unknown = returned regs (fail_with (errnos Z ENOSYS) s) in
      case sysno (abi_of Z) num of
        None \<Rightarrow> unknown
      | Some c \<Rightarrow> (case c of
          SYS_waitpid \<Rightarrow> do { (r, s) \<leftarrow> sys_waitpid Z args s; Some ((r, regs), s) }
        | SYS_exit \<Rightarrow> do { s \<leftarrow> do_exit (irqs_of Z) (sint args) s; Some ((Blocked, regs), s) }
        | SYS_thr_exit \<Rightarrow> do { s \<leftarrow> kthread_exit (irqs_of Z) (sint args) s; Some ((Blocked, regs), s) }
        | SYS_thr_yield \<Rightarrow> do { (r, s) \<leftarrow> thr_yield Z s; Some ((r, regs), s) }
        | SYS_fork \<Rightarrow> do { ((ret, regs), s) \<leftarrow> sys_fork Z regs s; Some ((Returned ret, regs), s) }
        | SYS_getpid \<Rightarrow> do { (_, pr) \<leftarrow> cur_proc s; Some ((Returned (p_pid pr), regs), s) }
        | SYS_sync \<Rightarrow> do { s \<leftarrow> sys_sync Z s; Some ((Returned 0, regs), s) }
        | SYS_mount \<Rightarrow> (if mounting (abi_of Z) then returned regs (sys_mount Z args s) else unknown)
        | SYS_umount \<Rightarrow> (if mounting (abi_of Z) then returned regs (sys_umount Z args s) else unknown)
        | SYS_mmap \<Rightarrow> do { (r, s) \<leftarrow> sys_mmap Z args s; Some ((Returned (sint r), regs), s) }
        | SYS_munmap \<Rightarrow> returned regs (sys_munmap Z args s)
        | SYS_open \<Rightarrow> returned regs (sys_open Z args s)
        | SYS_close \<Rightarrow> returned regs (sys_close Z (sint args) s)
        | SYS_read \<Rightarrow> returned regs (sys_read Z args s)
        | SYS_write \<Rightarrow> returned regs (sys_write Z args s)
        | SYS_dup \<Rightarrow> returned regs (sys_dup Z (sint args) s)
        | SYS_dup2 \<Rightarrow> returned regs (sys_dup2 Z args s)
        | SYS_mkdir \<Rightarrow> returned regs (sys_mkdir Z args s)
        | SYS_rmdir \<Rightarrow> returned regs (sys_rmdir Z args s)
        | SYS_unlink \<Rightarrow> returned regs (sys_unlink Z args s)
        | SYS_link \<Rightarrow> returned regs (sys_link Z args s)
        | SYS_rename \<Rightarrow> returned regs (sys_rename Z args s)
        | SYS_chdir \<Rightarrow> returned regs (sys_chdir Z args s)
        | SYS_getdents \<Rightarrow> returned regs (sys_getdents Z args s)
        | SYS_brk \<Rightarrow> do { (r, s) \<leftarrow> sys_brk Z args s; Some ((Returned (sint r), regs), s) }
        | SYS_lseek \<Rightarrow> returned regs (sys_lseek Z args s)
        | SYS_halt \<Rightarrow> do {
            (r, s) \<leftarrow> sys_halt Z s;
            Some ((case r of Blocked \<Rightarrow> Blocked | Returned _ \<Rightarrow> Returned (- 1), regs), s)
          }
        | SYS_set_errno \<Rightarrow> do { s \<leftarrow> set_errno (sint args) s; Some ((Returned 0, regs), s) }
        | SYS_errno \<Rightarrow> do { t \<leftarrow> curthr s; thr \<leftarrow> threads s t; Some ((Returned (kt_errno thr), regs), s) }
        | SYS_execve \<Rightarrow> do { ((ret, regs), s) \<leftarrow> sys_execve Z args regs s; Some ((Returned ret, regs), s) }
        | SYS_stat \<Rightarrow> returned regs (sys_stat Z args s)
        | SYS_pipe \<Rightarrow> returned regs (sys_pipe Z args s)
        | SYS_uname \<Rightarrow> returned regs (sys_uname Z args s)
        | SYS_debug \<Rightarrow> returned regs (sys_debug Z args s)
        | SYS_kshell \<Rightarrow> returned regs (sys_kshell Z (sint args) s)))"

text \<open>A cancelled thread exits before or after the call; otherwise the result of the call is in \<open>r_eax\<close>.\<close>

definition cancelled :: "'a vm_st_scheme \<Rightarrow> int option option" where
  "cancelled s = do {
     t \<leftarrow> curthr s;
     thr \<leftarrow> threads s t;
     Some (if kt_cancelled thr then Some (kt_retval thr) else None)
   }"

definition syscall_handler :: "'a vm_st_scheme sys_env \<Rightarrow> regs \<Rightarrow> 'a vm_st_scheme
    \<Rightarrow> (regs outcome \<times> 'a vm_st_scheme) option" where
  "syscall_handler Z regs s = do {
     let num = of_int (r_eax regs);
     let args = r_edx regs;
     c \<leftarrow> cancelled s;
     case c of
       Some retval \<Rightarrow> do { s \<leftarrow> kthread_exit (irqs_of Z) retval s; Some (Blocked, s) }
     | None \<Rightarrow> do {
         ((r, regs), s) \<leftarrow> syscall_dispatch Z num args regs s;
         case r of
           Blocked \<Rightarrow> Some (Blocked, s)
         | Returned ret \<Rightarrow> do {
             c \<leftarrow> cancelled s;
             case c of
               Some retval \<Rightarrow> do { s \<leftarrow> kthread_exit (irqs_of Z) retval s; Some (Blocked, s) }
             | None \<Rightarrow> Some (Returned (regs\<lparr>r_eax := ret\<rparr>), s)
           }
       }
   }"

end
