(* ===== verification/Kmain.thy ===== *)
theory Kmain
  imports Syscall Boot
begin

section \<open>The page-out daemon, the idle process and the init process\<close>

text \<open>
  The rest of \<^verbatim>\<open>K3/pframe.c\<close> (starting and stopping the page-out daemon, and \<^verbatim>\<open>pframe_shutdown\<close>),
  \<^verbatim>\<open>vnode_flush_all\<close> of \<^verbatim>\<open>K3/vnode.c\<close>, which needs the page cache, and the bodies of the idle and init processes in \<^verbatim>\<open>K2/kmain.c\<close>. The static variables \<^verbatim>\<open>pageoutd\<close> and \<^verbatim>\<open>pageoutd_thr\<close>
  extend the state. A function that waits for a process has the outcome \<open>Blocked\<close> when another thread runs.
  \<open>kmain_ext\<close> is the code these functions call outside the repository, the options of the build, and the
  addresses of the functions that new threads run.
\<close>

record pageout_st = vm_st +
  pageoutd :: "ptr option"
  pageoutd_thr :: "tid option"

record 's kmain_ext =
  init_call_all :: "'s \<Rightarrow> 's option"
  vfs_shutdown :: "'s \<Rightarrow> (int \<times> 's) option"
  kshell_add_command :: "string \<Rightarrow> 's \<Rightarrow> 's option"
  has_vfs :: bool
  has_s5fs :: bool
  has_drivers :: bool
  MKDEVID :: "nat \<Rightarrow> nat \<Rightarrow> u32"
  func_addr :: "string \<Rightarrow> ptr"

text \<open>Every process that the kernel starts gets one thread.\<close>

definition new_process :: "'a vm_st_scheme sys_env \<Rightarrow> 'b kmain_ext \<Rightarrow> string \<Rightarrow> string \<Rightarrow> int \<Rightarrow> 'a vm_st_scheme
    \<Rightarrow> ((ptr \<times> tid) \<times> 'a vm_st_scheme) option" where
  "new_process Z B name func arg1 s = (case fork_alloc (sysx Z) s of (pslab, pagedir, tslab, kstack) \<Rightarrow> do {
     (p, s) \<leftarrow> proc_create (kcf Z) pslab pagedir name s;
     (k, s) \<leftarrow> kthread_create (ctx_of Z) tslab kstack (Some p) (Some (func_addr B func)) arg1 None s;
     Some ((p, k), s)
   })"

subsection \<open>The page-out daemon\<close>

definition pageoutd_init :: "'a pageout_st_scheme sys_env \<Rightarrow> 'b kmain_ext \<Rightarrow> 'a pageout_st_scheme \<Rightarrow> 'a pageout_st_scheme option" where
  "pageoutd_init Z B s = do {
     let s = sched_queue_init Pageoutd_waitq s;
     (_, pr) \<leftarrow> cur_proc s;
     _ \<leftarrow> kassert (PID_IDLE = p_pid pr);
     ((p, k), s) \<leftarrow> new_process Z B ''pageoutd'' ''pageoutd_run'' 0 s;
     let s = s\<lparr>pageoutd := Some p, pageoutd_thr := Some k\<rparr>;
     sched_make_runnable k s
   }"

definition pageoutd_exit :: "'a pageout_st_scheme sys_env \<Rightarrow> 'a pageout_st_scheme
    \<Rightarrow> (unit outcome \<times> 'a pageout_st_scheme) option" where
  "pageoutd_exit Z s = do {
     k \<leftarrow> pageoutd_thr s;
     (r, s) \<leftarrow> kthread_cancel (irqs_of Z) k 0 s;
     case r of Blocked \<Rightarrow> Some (Blocked, s) | Returned _ \<Rightarrow> Some (Returned (), s\<lparr>pageoutd_thr := None\<rparr>)
   }"

text \<open>
  One round of the endless loop of \<^verbatim>\<open>pageoutd_run\<close>. When the daemon has been cancelled it exits; otherwise
  it sleeps until someone needs memory, and goes on with \<open>pageoutd_resume\<close>.
\<close>

definition pageoutd_run :: "'a vm_st_scheme sys_env \<Rightarrow> 'a vm_st_scheme \<Rightarrow> 'a vm_st_scheme option" where
  "pageoutd_run Z s = do {
     s \<leftarrow> pageoutd_round (mcf Z) (vmx Z) (objops Z) s;
     (r, s) \<leftarrow> sched_cancellable_sleep_on (errnos Z) (irqs_of Z) Pageoutd_waitq s;
     case r of
       Blocked \<Rightarrow> Some s
     | Returned e \<Rightarrow> if e \<noteq> 0 then kthread_exit (irqs_of Z) 0 s else None
   }"

definition pageoutd_resume :: "'a vm_st_scheme sys_env \<Rightarrow> 'a vm_st_scheme \<Rightarrow> 'a vm_st_scheme option" where
  "pageoutd_resume Z s = do {
     e \<leftarrow> sched_cancellable_sleep_on_resume (errnos Z) s;
     if e \<noteq> 0 then kthread_exit (irqs_of Z) 0 s else pageoutd_run Z s
   }"

fun free_frames :: "'a vm_st_scheme sys_env \<Rightarrow> ptr list \<Rightarrow> 'a vm_st_scheme \<Rightarrow> 'a vm_st_scheme option" where
  "free_frames Z [] s = Some s"
| "free_frames Z (pf # pfs) s = do {
     p \<leftarrow> pframes s pf;
     _ \<leftarrow> kassert (\<not> pf_dirty p \<and> \<not> pf_busy p \<and> \<not> pframe_is_pinned p);
     s \<leftarrow> pframe_free (mcf Z) (vmx Z) (objops Z) pf s;
     free_frames Z pfs s
   }"

definition pframe_shutdown :: "'a pageout_st_scheme sys_env \<Rightarrow> 'a pageout_st_scheme
    \<Rightarrow> (unit outcome \<times> 'a pageout_st_scheme) option" where
  "pframe_shutdown Z s = do {
     (_, pr) \<leftarrow> cur_proc s;
     _ \<leftarrow> kassert (PID_IDLE = p_pid pr);
     (r, s) \<leftarrow> pageoutd_exit Z s;
     case r of
       Blocked \<Rightarrow> Some (Blocked, s)
     | Returned _ \<Rightarrow> do {
         d \<leftarrow> pageoutd s;
         dp \<leftarrow> procs s d;
         let pid = p_pid dp;
         ((w, _), s) \<leftarrow> do_waitpid (errnos Z) (irqs_of Z) (- 1) False s;
         case w of
           Blocked \<Rightarrow> Some (Blocked, s)
         | Returned child \<Rightarrow> do {
             _ \<leftarrow> kassert (pid = child);
             _ \<leftarrow> kassert (npinned s = 0);
             s \<leftarrow> pframe_clean_all (mcf Z) (vmx Z) (objops Z) (alloc_list s) s;
             s \<leftarrow> free_frames Z (alloc_list s) s;
             Some (Returned (), s)
           }
       }
   }"

subsection \<open>Flushing vnodes\<close>

text \<open>
  A vnode and the memory object inside it are at the same address. The argument \<^verbatim>\<open>fs\<close> of \<^verbatim>\<open>vnode_flush_all\<close> is not
  used: the pages of the vnodes of all file systems are flushed.
\<close>

fun find_dirty :: "(ptr \<Rightarrow> pframe option) \<Rightarrow> ptr list \<Rightarrow> ptr option option" where
  "find_dirty P [] = Some None"
| "find_dirty P (pf # pfs) = do { p \<leftarrow> P pf; if pf_dirty p then Some (Some pf) else find_dirty P pfs }"

fun find_dirty_vnode :: "ptr list \<Rightarrow> 'a vm_st_scheme \<Rightarrow> ptr option option" where
  "find_dirty_vnode [] s = Some None"
| "find_dirty_vnode (v # vs) s = do {
     m \<leftarrow> mmobjs s v;
     d \<leftarrow> find_dirty (pframes s) (mmo_respages m);
     case d of Some pf \<Rightarrow> Some (Some pf) | None \<Rightarrow> find_dirty_vnode vs s
   }"

partial_function (option) flush_clean :: "'a vm_st_scheme sys_env \<Rightarrow> 'a vm_st_scheme \<Rightarrow> 'a vm_st_scheme option" where
  "flush_clean Z s = do {
     d \<leftarrow> find_dirty_vnode (vnode_inuse_list s) s;
     case d of
       None \<Rightarrow> Some s
     | Some pf \<Rightarrow> do {
         (err, s) \<leftarrow> pframe_clean (mcf Z) (vmx Z) (objops Z) pf s;
         _ \<leftarrow> kassert (err = 0);
         flush_clean Z s
       }
   }"

fun uncache_pages :: "'a vm_st_scheme sys_env \<Rightarrow> ptr list \<Rightarrow> 'a vm_st_scheme \<Rightarrow> 'a vm_st_scheme option" where
  "uncache_pages Z [] s = Some s"
| "uncache_pages Z (pf # pfs) s = do {
     p \<leftarrow> pframes s pf;
     _ \<leftarrow> kassert (\<not> pf_dirty p);
     s \<leftarrow> pframe_free (mcf Z) (vmx Z) (objops Z) pf s;
     uncache_pages Z pfs s
   }"

fun uncache_vnodes :: "'a vm_st_scheme sys_env \<Rightarrow> ptr list \<Rightarrow> 'a vm_st_scheme \<Rightarrow> 'a vm_st_scheme option" where
  "uncache_vnodes Z [] s = Some s"
| "uncache_vnodes Z (v # vs) s = do {
     m \<leftarrow> mmobjs s v;
     s \<leftarrow> uncache_pages Z (mmo_respages m) s;
     uncache_vnodes Z vs s
   }"

definition vnode_flush_all :: "'a vm_st_scheme sys_env \<Rightarrow> ptr \<Rightarrow> 'a vm_st_scheme \<Rightarrow> 'a vm_st_scheme option" where
  "vnode_flush_all Z fs s = do {
     s \<leftarrow> flush_clean Z s;
     uncache_vnodes Z (vnode_inuse_list s) s
   }"

subsection \<open>The idle process\<close>

definition set_cwd :: "ptr \<Rightarrow> 'a vfs_st_scheme \<Rightarrow> 'a vfs_st_scheme option" where
  "set_cwd p s = do {
     s \<leftarrow> proc_upd p (\<lambda>pr. pr\<lparr>p_cwd := vfs_root_vn s\<rparr>) s;
     r \<leftarrow> vfs_root_vn s;
     vref r s
   }"

definition make_devices :: "'a vm_st_scheme sys_env \<Rightarrow> 'b kmain_ext \<Rightarrow> 'a vm_st_scheme \<Rightarrow> 'a vm_st_scheme option" where
  "make_devices Z B s = do {
     (_, s) \<leftarrow> do_mkdir (errnos Z) (vcf Z) (fsx Z) ''/dev'' s;
     (_, s) \<leftarrow> do_mknod (errnos Z) (vcf Z) (fsx Z) ''/dev/null'' S_IFCHR (MKDEVID B 1 0) s;
     (_, s) \<leftarrow> do_mknod (errnos Z) (vcf Z) (fsx Z) ''/dev/zero'' S_IFCHR (MKDEVID B 1 1) s;
     (_, s) \<leftarrow> do_mknod (errnos Z) (vcf Z) (fsx Z) ''/dev/tty0'' S_IFCHR (MKDEVID B 2 0) s;
     Some s
   }"

text \<open>\<open>idleproc_finish\<close> is what \<^verbatim>\<open>idleproc_run\<close> does once \<^verbatim>\<open>do_waitpid\<close> has returned.\<close>

definition idleproc_finish :: "'a pageout_st_scheme sys_env \<Rightarrow> 'a pageout_st_scheme kmain_ext \<Rightarrow> int \<Rightarrow> 'a pageout_st_scheme
    \<Rightarrow> (unit outcome \<times> 'a pageout_st_scheme) option" where
  "idleproc_finish Z B child s = do {
     _ \<leftarrow> kassert (PID_INIT = child);
     s \<leftarrow> (if has_vfs B then do {
             (_, pr) \<leftarrow> cur_proc s;
             cwd \<leftarrow> p_cwd pr;
             s \<leftarrow> vput (fsx Z) cwd s;
             (err, s) \<leftarrow> vfs_shutdown B s;
             _ \<leftarrow> kassert (err = 0);
             Some s
           } else Some s);
     if has_s5fs B then pframe_shutdown Z s else Some (Returned (), s)
   }"

definition idleproc_run :: "'a pageout_st_scheme sys_env \<Rightarrow> 'a pageout_st_scheme kmain_ext \<Rightarrow> 'a pageout_st_scheme
    \<Rightarrow> (unit outcome \<times> 'a pageout_st_scheme) option" where
  "idleproc_run Z B s = (case fork_alloc (sysx Z) s of (pslab, pagedir, tslab, kstack) \<Rightarrow> do {
     (initthr, s) \<leftarrow> initproc_create (kcf Z) (ctx_of Z) pslab pagedir tslab kstack (Some (func_addr B ''initproc_run'')) s;
     s \<leftarrow> init_call_all B s;
     s \<leftarrow> (if has_vfs B then do {
             cp \<leftarrow> curproc s;
             s \<leftarrow> set_cwd cp s;
             thr \<leftarrow> threads s initthr;
             ip \<leftarrow> kt_proc thr;
             s \<leftarrow> set_cwd ip s;
             make_devices Z B s
           } else Some s);
     s \<leftarrow> sched_make_runnable initthr s;
     ((w, _), s) \<leftarrow> do_waitpid (errnos Z) (irqs_of Z) (- 1) True s;
     case w of Blocked \<Rightarrow> Some (Blocked, s) | Returned child \<Rightarrow> idleproc_finish Z B child s
   })"

subsection \<open>The init process\<close>

text \<open>The test commands of the kernel shell start a process and wait for it.\<close>

definition run_test :: "'a vm_st_scheme sys_env \<Rightarrow> 'b kmain_ext \<Rightarrow> string \<Rightarrow> string \<Rightarrow> int \<Rightarrow> 'a vm_st_scheme
    \<Rightarrow> (int outcome \<times> 'a vm_st_scheme) option" where
  "run_test Z B name func arg1 s = do {
     ((p, k), s) \<leftarrow> new_process Z B name func arg1 s;
     s \<leftarrow> sched_make_runnable k s;
     pr \<leftarrow> procs s p;
     ((w, _), s) \<leftarrow> do_waitpid (errnos Z) (irqs_of Z) (p_pid pr) True s;
     Some (case w of Blocked \<Rightarrow> Blocked | Returned _ \<Rightarrow> Returned 0, s)
   }"

definition do_sunghan :: "'a vm_st_scheme sys_env \<Rightarrow> 'b kmain_ext \<Rightarrow> ptr option \<Rightarrow> 'a vm_st_scheme
    \<Rightarrow> (int outcome \<times> 'a vm_st_scheme) option" where
  "do_sunghan Z B kshell s = do {
     _ \<leftarrow> kassert (kshell \<noteq> None);
     run_test Z B ''sunghan'' ''sunghan_test'' 0 s
   }"

definition do_sunghan_deadlock :: "'a vm_st_scheme sys_env \<Rightarrow> 'b kmain_ext \<Rightarrow> ptr option \<Rightarrow> 'a vm_st_scheme
    \<Rightarrow> (int outcome \<times> 'a vm_st_scheme) option" where
  "do_sunghan_deadlock Z B kshell s = do {
     _ \<leftarrow> kassert (kshell \<noteq> None);
     run_test Z B ''deadlock'' ''sunghan_deadlock_test'' 0 s
   }"

definition do_faber :: "'a vm_st_scheme sys_env \<Rightarrow> 'b kmain_ext \<Rightarrow> ptr option \<Rightarrow> 'a vm_st_scheme
    \<Rightarrow> (int outcome \<times> 'a vm_st_scheme) option" where
  "do_faber Z B kshell s = do {
     _ \<leftarrow> kassert (kshell \<noteq> None);
     run_test Z B ''faber'' ''faber_thread_test'' 0 s
   }"

definition do_vfs_test :: "'a vm_st_scheme sys_env \<Rightarrow> 'b kmain_ext \<Rightarrow> 'a vm_st_scheme
    \<Rightarrow> (int outcome \<times> 'a vm_st_scheme) option" where
  "do_vfs_test Z B s = run_test Z B ''vfstest'' ''vfstest_main'' 1 s"

partial_function (option) shell_loop :: "'a vm_st_scheme sys_env \<Rightarrow> ptr \<Rightarrow> 'a vm_st_scheme \<Rightarrow> 'a vm_st_scheme option" where
  "shell_loop Z kshell s = do {
     (r, s) \<leftarrow> kshell_execute_next (sysx Z) kshell s;
     if r \<noteq> 0 then shell_loop Z kshell s else Some s
   }"

partial_function (option) wait_children :: "'a vm_st_scheme sys_env \<Rightarrow> 'a vm_st_scheme \<Rightarrow> (unit outcome \<times> 'a vm_st_scheme) option" where
  "wait_children Z s = do {
     ((w, _), s) \<leftarrow> do_waitpid (errnos Z) (irqs_of Z) (- 1) True s;
     case w of
       Blocked \<Rightarrow> Some (Blocked, s)
     | Returned pid \<Rightarrow> if pid \<noteq> - errnos Z ECHILD then wait_children Z s else Some (Returned (), s)
   }"

fun add_commands :: "'s kmain_ext \<Rightarrow> string list \<Rightarrow> 's \<Rightarrow> 's option" where
  "add_commands B [] s = Some s"
| "add_commands B (c # cs) s = do { s \<leftarrow> kshell_add_command B c s; add_commands B cs s }"

definition initproc_run :: "'a vm_st_scheme sys_env \<Rightarrow> 'a vm_st_scheme kmain_ext \<Rightarrow> 'a vm_st_scheme
    \<Rightarrow> (unit outcome \<times> 'a vm_st_scheme) option" where
  "initproc_run Z B s = do {
     s \<leftarrow> (if has_drivers B then do {
             s \<leftarrow> add_commands B [''sunghan'', ''deadlock'', ''faber''] s;
             s \<leftarrow> (if has_vfs B then add_commands B [''vfstest'', ''thrtest'', ''dirtest''] s else Some s);
             (ksh, s) \<leftarrow> kshell_create (sysx Z) 0 s;
             k \<leftarrow> ksh;
             s \<leftarrow> shell_loop Z k s;
             kshell_destroy (sysx Z) k s
           } else Some s);
     wait_children Z s
   }"

subsection \<open>Starting up\<close>

text \<open>
  \<^verbatim>\<open>hw_init\<close> are the initialisation functions outside the repository, by name; \<open>slab_allocator_create\<close> makes the
  allocators that the components keep, which are named by the type of their objects. \<^verbatim>\<open>kmain\<close> switches to the context of
  \<^verbatim>\<open>bootstrap\<close> and does not come back; the state that \<open>kmain\<close> returns is that in which the thread of the idle process
  starts with \<^verbatim>\<open>idleproc_run\<close>. With \<^verbatim>\<open>gdb_wait\<close> set the kernel waits for the debugger.
\<close>

record 's boot_ext =
  hw_init :: "string \<Rightarrow> 's \<Rightarrow> 's option"
  slab_allocator_create :: "string \<Rightarrow> ptr option"
  boot_stack :: "ptr option"
  has_vm :: bool
  gdb_wait :: bool

fun hw_inits :: "'s boot_ext \<Rightarrow> string list \<Rightarrow> 's \<Rightarrow> 's option" where
  "hw_inits K [] s = Some s"
| "hw_inits K (f # fs) s = do { s \<leftarrow> hw_init K f s; hw_inits K fs s }"

definition anon_init :: "'s boot_ext \<Rightarrow> 's \<Rightarrow> 's option" where
  "anon_init K s = do { _ \<leftarrow> kassert (slab_allocator_create K ''anon_slab'' \<noteq> None); Some s }"

definition shadow_init :: "'s boot_ext \<Rightarrow> 's \<Rightarrow> 's option" where
  "shadow_init K s = do { _ \<leftarrow> kassert (slab_allocator_create K ''shadow_slab'' \<noteq> None); Some s }"

definition vmmap_init :: "'s boot_ext \<Rightarrow> 's \<Rightarrow> 's option" where
  "vmmap_init K s = do {
     _ \<leftarrow> kassert (slab_allocator_create K ''vmmap'' \<noteq> None);
     _ \<leftarrow> kassert (slab_allocator_create K ''vmarea'' \<noteq> None);
     Some s
   }"

definition kthread_init :: "'s boot_ext \<Rightarrow> 's \<Rightarrow> 's option" where
  "kthread_init K s = do { _ \<leftarrow> kassert (slab_allocator_create K ''kthread'' \<noteq> None); Some s }"

definition kmain :: "'a vm_st_scheme sys_env \<Rightarrow> 'b kmain_ext \<Rightarrow> 'a vm_st_scheme boot_ext \<Rightarrow> 'a vm_st_scheme \<Rightarrow> 'a vm_st_scheme option" where
  "kmain Z B K s = do {
     s \<leftarrow> hw_inits K [''dbg_init'', ''page_init'', ''pt_init'', ''slab_init''] s;
     s \<leftarrow> pframe_init (vmx Z) (slab_allocator_create K ''pframe'') s;
     s \<leftarrow> hw_inits K [''acpi_init'', ''apic_init'', ''pci_init'', ''intr_init'', ''gdt_init''] s;
     s \<leftarrow> (if has_vm K then do { s \<leftarrow> anon_init K s; shadow_init K s } else Some s);
     s \<leftarrow> vmmap_init K s;
     let s = proc_init s;
     _ \<leftarrow> kassert (slab_allocator_create K ''proc'' \<noteq> None);
     s \<leftarrow> kthread_init K s;
     s \<leftarrow> (if has_drivers B then hw_inits K [''bytedev_init'', ''blockdev_init''] s else Some s);
     _ \<leftarrow> kassert (boot_stack K \<noteq> None);
     _ \<leftarrow> kassert (\<not> gdb_wait K);
     s \<leftarrow> hw_init K ''pt_template_init'' s;
     case fork_alloc (sysx Z) s of (pslab, pagedir, tslab, kstack) \<Rightarrow>
       bootstrap (kcf Z) (ctx_of Z) pslab pagedir tslab kstack (Some (func_addr B ''idleproc_run'')) s
   }"

end
