(* ===== verification/Sys_Props.thy ===== *)
theory Sys_Props
  imports Kmain Vm_Demo
begin

section \<open>Properties of system calls\<close>

text \<open>
  What a system call returns to the user: a result that is not negative, or -1. A call is \<open>errno_call\<close> when
  -1 always comes with a positive error number in the thread. The functions are followed with rules for
  \<open>results\<close>, which says this of all the ways a function can return.
\<close>

definition errno_of :: "'a vm_st_scheme \<Rightarrow> int option" where
  "errno_of s = do { t \<leftarrow> curthr s; k \<leftarrow> threads s t; Some (kt_errno k) }"

definition result_ok :: "bool \<Rightarrow> int \<Rightarrow> 'a vm_st_scheme \<Rightarrow> bool" where
  "result_ok strict r s \<longleftrightarrow> 0 \<le> r \<or> r = - 1 \<and> (strict \<longrightarrow> (\<exists>e > 0. errno_of s = Some e))"

definition results :: "bool \<Rightarrow> (int \<times> 'a vm_st_scheme) option \<Rightarrow> bool" where
  "results strict m \<longleftrightarrow> (\<forall>r s. m = Some (r, s) \<longrightarrow> result_ok strict r s)"

subsection \<open>Rules\<close>

lemma results_bind: "(\<And>x. results b (f x)) \<Longrightarrow> results b (Option.bind m f)"
  by (auto simp: results_def bind_eq_Some_conv)

lemma results_flow:
  "results b (f t) \<Longrightarrow> results b (Let t f)" "(\<And>x y. results b (g x y)) \<Longrightarrow> results b (case_prod g p)"
  "(\<And>x y. results b (h x y s)) \<Longrightarrow> results b (case_prod h q s)"
  "(c \<Longrightarrow> results b x) \<Longrightarrow> (\<not> c \<Longrightarrow> results b y) \<Longrightarrow> results b (if c then x else y)"
  "results b n \<Longrightarrow> (\<And>v. results b (l v)) \<Longrightarrow> results b (case r of None \<Rightarrow> n | Some v \<Rightarrow> l v)"
  by (auto split: prod.split option.split)

lemma results_ret: "results b None" "0 \<le> r \<Longrightarrow> results b (Some (r, s))" "results False (Some (- 1, s))"
  by (simp_all add: results_def result_ok_def)

lemma results_fail: "0 < e \<Longrightarrow> results b (fail_with e s)" "results False (fail_with e' s)"
  by (auto simp: results_def result_ok_def fail_with_def set_errno_def thr_upd_def errno_of_def bind_eq_Some_conv)

lemma results_ret_errno: "results b (ret_errno err s)"
  by (simp add: ret_errno_def results_flow results_fail results_ret)

lemmas results_rules = results_ret results_fail results_ret_errno results_flow results_bind

subsection \<open>The calls\<close>

lemma results_paths: "errno_ok (errnos Z) \<Longrightarrow> results b (path_call Z f u s)" "errno_ok (errnos Z) \<Longrightarrow> results b (two_path_call Z g u w s)"
  unfolding path_call_def two_path_call_def by (rule results_rules | simp add: errno_pos)+

lemma results_getdents_loop: "0 \<le> tot \<Longrightarrow> results b (getdents_loop Z fd dirp i n tot s)"
proof (induction n arbitrary: i tot s)
  case (Suc n)
  then show ?case unfolding getdents_loop.simps by (intro results_flow results_bind results_fail results_ret Suc.IH) simp_all
qed (simp add: results_ret)

lemma results_files:
  "results b (sys_read Z a s)" "results b (sys_write Z a s)" "results b (sys_getdents Z a s)" "results b (sys_close Z fd s)"
  "results b (sys_dup Z fd s)" "results b (sys_dup2 Z a s)" "results b (sys_lseek Z a s)"
  unfolding sys_read_def sys_write_def sys_getdents_def sys_close_def sys_dup_def sys_dup2_def sys_lseek_def
  by (rule results_rules results_getdents_loop | simp)+

lemma results_path_calls:
  assumes "errno_ok (errnos Z)"
  shows "results b (sys_mkdir Z a s)" "results b (sys_rmdir Z a s)" "results b (sys_unlink Z a s)" "results b (sys_chdir Z a s)"
    "results b (sys_open Z a s)" "results b (sys_link Z a s)" "results b (sys_rename Z a s)"
  unfolding sys_mkdir_def sys_rmdir_def sys_unlink_def sys_chdir_def sys_open_def sys_link_def sys_rename_def
  by (rule results_rules results_paths assms | simp)+

lemma results_uname: "results False (uname_copies Z a fs s)"
proof (induction fs arbitrary: s)
  case (Cons x fs)
  then show ?case by (cases x) (simp only: uname_copies.simps, intro results_flow results_bind results_fail, assumption)
qed (simp add: results_ret)

lemma results_others:
  "results False (sys_mount Z a s)" "results False (sys_umount Z a s)" "results False (sys_stat Z a s)" "results False (sys_pipe Z a s)"
  "results False (sys_uname Z a s)"
  unfolding sys_mount_def sys_umount_def sys_stat_def sys_pipe_def sys_uname_def by (rule results_rules results_uname | simp)+

lemma results_strict_others:
  assumes "errno_ok (errnos Z)"
  shows "results b (sys_munmap Z a s)" "results b (sys_debug Z a s)" "results b (sys_kshell Z tty s)"
  unfolding sys_munmap_def sys_debug_def sys_kshell_def by (rule results_rules | simp add: errno_pos [OF assms])+

text \<open>The same for a function that may block.\<close>

definition outcomes :: "bool \<Rightarrow> (int outcome \<times> 'a vm_st_scheme) option \<Rightarrow> bool" where
  "outcomes strict m \<longleftrightarrow> (\<forall>r s. m = Some (Returned r, s) \<longrightarrow> result_ok strict r s)"

lemma outcomes_rules:
  "results b k \<Longrightarrow> outcomes b (Option.bind k (\<lambda>(r, s). Some (Returned r, s)))"
  "outcomes b None" "0 \<le> r \<Longrightarrow> outcomes b (Some (Returned r, s))" "outcomes b (Some (Blocked, s))"
  "outcomes b (f t) \<Longrightarrow> outcomes b (Let t f)" "(\<And>x y. outcomes b (g x y)) \<Longrightarrow> outcomes b (case_prod g p)"
  "(\<And>x y. outcomes b (h x y s)) \<Longrightarrow> outcomes b (case_prod h q s)"
  "(c \<Longrightarrow> outcomes b x) \<Longrightarrow> (\<not> c \<Longrightarrow> outcomes b y) \<Longrightarrow> outcomes b (if c then x else y)"
  "(\<And>v. outcomes b (l v)) \<Longrightarrow> outcomes b n \<Longrightarrow> outcomes b (case w of Returned v \<Rightarrow> l v | Blocked \<Rightarrow> n)"
  by (auto simp: outcomes_def results_def result_ok_def bind_eq_Some_conv split: prod.split outcome.split)

lemma outcomes_bind: "(\<And>x. outcomes b (f x)) \<Longrightarrow> outcomes b (Option.bind m f)"
  by (auto simp: outcomes_def bind_eq_Some_conv)

lemma outcomes_waitpid: "errno_ok (errnos Z) \<Longrightarrow> outcomes b (sys_waitpid Z a s)"
  unfolding sys_waitpid_def by (rule outcomes_rules outcomes_bind results_fail | simp add: errno_pos)+

lemma outcomes_yield: "outcomes b (thr_yield Z s)"
  unfolding thr_yield_def by (intro outcomes_bind) (auto simp: outcomes_def result_ok_def split: if_split_asm)

lemma sys_fork_result: "sys_fork Z regs s = Some ((r, g), s') \<Longrightarrow> result_ok b r s'"
  using results_ret_errno [of b] by (auto simp: sys_fork_def bind_eq_Some_conv results_def split: prod.split_asm)

lemma sys_execve_result: "sys_execve Z a regs s = Some ((r, g), s') \<Longrightarrow> result_ok False r s'"
  by (auto simp: sys_execve_def bind_eq_Some_conv result_ok_def split: if_split_asm)

definition errno_calls :: "sysnum set" where
  "errno_calls = {SYS_waitpid, SYS_fork, SYS_munmap, SYS_open, SYS_close, SYS_read, SYS_write, SYS_dup, SYS_dup2, SYS_mkdir, SYS_rmdir,
     SYS_unlink, SYS_link, SYS_rename, SYS_chdir, SYS_getdents, SYS_lseek, SYS_debug, SYS_kshell}"

lemma returned_results: "returned g m = Some ((Returned r, g'), s') \<Longrightarrow> results b m \<Longrightarrow> result_ok b r s'"
  by (auto simp: returned_def results_def)

lemma outcomesD: "outcomes b m \<Longrightarrow> m = Some (Returned r, s) \<Longrightarrow> result_ok b r s"
  by (simp add: outcomes_def)

lemma set_errno_of: "set_errno e s = Some s' \<Longrightarrow> errno_of s' = Some e"
  by (auto simp: set_errno_def thr_upd_def errno_of_def bind_eq_Some_conv)

lemma sys_mmap_result:
  assumes "errno_ok (errnos Z)" "sys_mmap Z args s = Some (r, s')"
  shows "r = - 1 \<and> (\<exists>e > 0. errno_of s' = Some e) \<or> (\<exists>n a s1 k. get_args Z (mmap_l (lay (abi_of Z))) args s = Some ((n, a), s1) \<and> 0 \<le> n \<and>
     do_mmap (errnos Z) (vcf Z) (mcf Z) (fsx Z) (vmx Z) (objops Z) (mma_addr a) (mma_len a) (mma_prot a) (mma_flags a) (mma_fd a) (mma_off a) s1
       = Some ((k, Some r), s') \<and> 0 \<le> k)"
proof -
  obtain n a s1 where a: "get_args Z (mmap_l (lay (abi_of Z))) args s = Some ((n, a), s1)" using assms(2) by (auto simp: sys_mmap_def bind_eq_Some_conv)
  show ?thesis
  proof (cases "n < 0")
    case True
    then have "r = - 1 \<and> set_errno (errnos Z EFAULT) s1 = Some s'" using assms(2) a by (auto simp: sys_mmap_def bind_eq_Some_conv MAP_FAILED_def)
    then show ?thesis using set_errno_of [of "errnos Z EFAULT" s1 s'] errno_pos [OF assms(1)] by blast
  next
    case False
    with assms(2) a obtain k ret s2 where k: "do_mmap (errnos Z) (vcf Z) (mcf Z) (fsx Z) (vmx Z) (objops Z) (mma_addr a) (mma_len a) (mma_prot a)
        (mma_flags a) (mma_fd a) (mma_off a) s1 = Some ((k, ret), s2)" by (auto simp: sys_mmap_def bind_eq_Some_conv)
    then have "k < 0 \<and> r = - 1 \<and> set_errno (- k) s2 = Some s' \<or> 0 \<le> k \<and> ret = Some r \<and> s' = s2"
      using assms(2) a False by (cases "k < 0") (auto simp: sys_mmap_def bind_eq_Some_conv MAP_FAILED_def)
    then show ?thesis
    proof
      assume "k < 0 \<and> r = - 1 \<and> set_errno (- k) s2 = Some s'"
      then show ?thesis using set_errno_of [of "- k" s2 s'] by force
    next
      assume "0 \<le> k \<and> ret = Some r \<and> s' = s2"
      then show ?thesis using a False k by (intro disjI2 exI conjI) (assumption | simp)+
    qed
  qed
qed

lemma do_brk_errors: "do_brk E C X T addr s = Some ((k, ret), s') \<Longrightarrow> k = 0 \<or> k = - E ENOMEM"
  by (auto simp: do_brk_def bind_eq_Some_conv Let_def split: if_split_asm)

lemma sys_brk_result:
  assumes "errno_ok (errnos Z)" "sys_brk Z addr s = Some (r, s')"
  shows "r = - 1 \<and> errno_of s' = Some (errnos Z ENOMEM) \<or> do_brk (errnos Z) (mcf Z) (vmx Z) (objops Z) addr s = Some ((0, Some r), s')"
proof -
  obtain k ret s1 where k: "do_brk (errnos Z) (mcf Z) (vmx Z) (objops Z) addr s = Some ((k, ret), s1)"
    using assms(2) by (auto simp: sys_brk_def bind_eq_Some_conv)
  then have "k = 0 \<and> ret = Some r \<and> s' = s1 \<or> k \<noteq> 0 \<and> r = - 1 \<and> set_errno (- k) s1 = Some s'"
    using assms(2) by (cases "k = 0") (auto simp: sys_brk_def bind_eq_Some_conv)
  then show ?thesis using k do_brk_errors [OF k] set_errno_of [of "- k" s1 s'] by auto
qed

lemma unit_outcome: "(w :: unit outcome) \<noteq> Blocked \<Longrightarrow> w = Returned ()"
  by (cases w) simp_all

lemma result_ok_simps: "result_ok b 0 s" "result_ok False (- 1) s"
  by (simp_all add: result_ok_def)

text \<open>
  C15: No system call shows the user a raw error code. An unknown number gives -1 and ENOSYS. mmap gives the address
  that do_mmap returned, or -1 with a positive error number in the thread, and brk gives the break that do_brk
  returned, or -1 with ENOMEM. getpid gives the pid of the process and errno the error number of the thread, and both
  change nothing. Any other call that returns gives a result that is not negative, or -1, and for the calls in \<open>errno_calls\<close> -1
  comes with a positive error number in the thread.
\<close>

theorem syscall_results:
  assumes "errno_ok (errnos Z)" "syscall_dispatch Z num args regs s = Some ((Returned r, regs'), s')"
  shows "case sysno (abi_of Z) num of None \<Rightarrow> r = - 1 \<and> errno_of s' = Some (errnos Z ENOSYS)
     | Some c \<Rightarrow>
        (c = SYS_getpid \<longrightarrow> s' = s \<and> (\<exists>p pr. cur_proc s = Some (p, pr) \<and> r = p_pid pr)) \<and>
        (c = SYS_errno \<longrightarrow> s' = s \<and> errno_of s = Some r) \<and>
        (c = SYS_mmap \<longrightarrow> r = - 1 \<and> (\<exists>e > 0. errno_of s' = Some e) \<or>
          (\<exists>n a s1 k ret. get_args Z (mmap_l (lay (abi_of Z))) args s = Some ((n, a), s1) \<and> 0 \<le> n \<and>
             do_mmap (errnos Z) (vcf Z) (mcf Z) (fsx Z) (vmx Z) (objops Z) (mma_addr a) (mma_len a) (mma_prot a) (mma_flags a) (mma_fd a) (mma_off a) s1
               = Some ((k, Some ret), s') \<and> 0 \<le> k \<and> r = sint ret)) \<and>
        (c = SYS_brk \<longrightarrow> r = - 1 \<and> errno_of s' = Some (errnos Z ENOMEM) \<or>
          (\<exists>ret. do_brk (errnos Z) (mcf Z) (vmx Z) (objops Z) args s = Some ((0, Some ret), s') \<and> r = sint ret)) \<and>
        (c \<notin> {SYS_getpid, SYS_mmap, SYS_brk, SYS_errno} \<longrightarrow>
          0 \<le> r \<or> r = - 1 \<and> (c \<in> errno_calls \<longrightarrow> (\<exists>e > 0. errno_of s' = Some e)))"
proof (cases "sysno (abi_of Z) num")
  case None
  with assms(2) show ?thesis
    by (auto simp: syscall_dispatch_def returned_def fail_with_def set_errno_def thr_upd_def errno_of_def bind_eq_Some_conv)
next
  case (Some c)
  note res = results_files results_path_calls [OF assms(1)] results_others results_strict_others [OF assms(1)]
  note rules = res [THEN returned_results [rotated]] results_fail(2) [THEN returned_results [rotated]]
    outcomesD [OF outcomes_waitpid [OF assms(1)]] outcomesD [OF outcomes_yield] sys_fork_result sys_execve_result
  note run = assms(2) [unfolded syscall_dispatch_def Let_def Some option.case]
  have "result_ok (c \<in> errno_calls) r s'" if "c \<notin> {SYS_getpid, SYS_mmap, SYS_brk, SYS_errno}"
    using run that unfolding errno_calls_def
    by (cases c; hypsubst; simp only: sysnum.case) (auto simp: bind_eq_Some_conv result_ok_simps split: if_split_asm outcome.split_asm elim: rules dest: unit_outcome)
  moreover have "s' = s \<and> (\<exists>p pr. cur_proc s = Some (p, pr) \<and> r = p_pid pr)" if "c = SYS_getpid"
    using run unfolding that sysnum.case by (auto simp: bind_eq_Some_conv)
  moreover have "s' = s \<and> errno_of s = Some r" if "c = SYS_errno"
    using run unfolding that sysnum.case by (auto simp: bind_eq_Some_conv errno_of_def)
  moreover obtain w where "sys_mmap Z args s = Some (w, s')" "r = sint w" if "c = SYS_mmap"
    using run by (cases "c = SYS_mmap") (auto simp: bind_eq_Some_conv)
  moreover obtain b where "sys_brk Z args s = Some (b, s')" "r = sint b" if "c = SYS_brk"
    using run by (cases "c = SYS_brk") (auto simp: bind_eq_Some_conv)
  ultimately show ?thesis using sys_mmap_result [OF assms(1), of args s w s'] sys_brk_result [OF assms(1), of args s b s']
    unfolding Some option.case result_ok_def by (metis sint_n1)
qed

text \<open>An environment in which calls can be run: every layout reads a constant.\<close>

definition fixed :: "'x \<Rightarrow> 'x layout" where
  "fixed x = \<lparr>lsize = 4, ldec = \<lambda>_. x\<rparr>"

definition demo_str :: argstr where
  "demo_str = \<lparr>as_str = 32, as_len = 3\<rparr>"

definition demo_layouts :: layouts where
  "demo_layouts = \<lparr>read_l = fixed \<lparr>read_fd = 0, read_buf = 36, read_nbytes = 4\<rparr>, write_l = fixed \<lparr>write_fd = 0, write_buf = 36, write_nbytes = 4\<rparr>,
     getdents_l = fixed \<lparr>gd_fd = 0, gd_dirp = 36, gd_count = 40\<rparr>, mount_l = fixed \<lparr>mnt_spec = demo_str, mnt_dir = demo_str, mnt_fstype = demo_str\<rparr>,
     dup2_l = fixed \<lparr>d2_ofd = 0, d2_nfd = 1\<rparr>, argstr_l = fixed demo_str, mkdir_l = fixed \<lparr>mkdir_path = demo_str\<rparr>,
     link_l = fixed \<lparr>link_to = demo_str, link_from = demo_str\<rparr>, rename_l = fixed \<lparr>rn_oldname = demo_str, rn_newname = demo_str\<rparr>,
     lseek_l = fixed \<lparr>ls_fd = 0, ls_offset = 0, ls_whence = 0\<rparr>, open_l = fixed \<lparr>open_filename = demo_str, open_flags = 0\<rparr>,
     munmap_l = fixed \<lparr>mu_addr = 32, mu_len = 4\<rparr>, mmap_l = fixed \<lparr>mma_addr = 0, mma_len = 4, mma_prot = 1, mma_flags = 10, mma_fd = - 1, mma_off = 0\<rparr>,
     waitpid_l = fixed \<lparr>wpa_pid = - 1, wpa_status = 0\<rparr>, stat_l = fixed \<lparr>st_path = demo_str, st_buf = 36\<rparr>,
     execve_l = fixed \<lparr>ex_filename = demo_str, ex_argv = \<lparr>av_vec = 0, av_len = 0\<rparr>, ex_envp = \<lparr>av_vec = 0, av_len = 0\<rparr>\<rparr>\<rparr>"

definition demo_abi :: abi where
  "demo_abi = \<lparr>sysno = \<lambda>n. if n = 6 then Some SYS_close else if n = 3 then Some SYS_read else None, mounting = False, lay = demo_layouts,
     read_buf_off = 4, uts_off = \<lambda>_. 0, int_bytes = \<lambda>_. [0, 0, 0, 0], stat_size = 4, ptr_size = 4, build_version = ''1''\<rparr>"

definition demo_sysx :: "'a vm_st_scheme sys_ext" where
  "demo_sysx = \<lparr>ld_user = \<lambda>_ s. Some (36, s), kmalloc_ok = \<lambda>_ _. True, dirent_out = \<lambda>_ _. [], stat_out = \<lambda>_ _. [0, 0, 0, 0],
     do_mount = \<lambda>_ _ _ s. Some (0, s), do_umount = \<lambda>_ s. Some (0, s), do_pipe = \<lambda>s. Some ((- 24, 0, 0), s),
     do_execve = \<lambda>_ _ _ g s. Some ((- 2, g), s), kshell_create = \<lambda>_ s. Some (None, s), kshell_execute_next = \<lambda>_ s. Some (0, s),
     kshell_destroy = \<lambda>_ s. Some s, fork_alloc = \<lambda>_. (None, None, None, None)\<rparr>"

definition demo_fsx :: "'a vm_st_scheme fs_ext" where
  "demo_fsx = \<lparr>fget = \<lambda>_ s. Some (None, s), fput = \<lambda>_ s. Some s, op_read = \<lambda>_ _ _ s. Some ((0, []), s), op_write = \<lambda>_ _ _ s. Some (0, s),
     op_lookup = \<lambda>_ _ s. Some ((- 2, None), s), op_create = \<lambda>_ _ s. Some ((- 2, None), s), op_mknod = \<lambda>_ _ _ _ s. Some (0, s),
     op_mkdir = \<lambda>_ _ s. Some (0, s), op_rmdir = \<lambda>_ _ s. Some (0, s), op_unlink = \<lambda>_ _ s. Some (0, s), op_link = \<lambda>_ _ _ s. Some (0, s),
     op_readdir = \<lambda>_ _ s. Some (0, s), op_stat = \<lambda>_ _ s. Some (0, s), read_vnode = \<lambda>_ s. Some s, query_vnode = \<lambda>_ _. True,
     delete_vnode = None, name_match = \<lambda>_ _ _. False, free_respages = \<lambda>_ s. Some s, vn_mmobj_init = \<lambda>_ s. s, bytedev_lookup = \<lambda>_. None,
     blockdev_lookup = \<lambda>_. None, cd_read = \<lambda>_ _ _ s. Some ((0, []), s), cd_write = \<lambda>_ _ _ s. Some (0, s)\<rparr>"

definition demo_sys :: "'a vm_st_scheme sys_env" where
  "demo_sys = \<lparr>errnos = errno_std, kcf = \<lparr>PROC_MAX_COUNT = 8, PROC_NAME_LEN = 16\<rparr>, vcf = demo_conf, mcf = demo_mconf, fsx = demo_fsx,
     vmx = demo_vm, objops = obj_ops_n errno_std demo_mconf demo_vm 4, sysx = demo_sysx, abi_of = demo_abi, irqs_of = [],
     ctx_of = \<lambda>_ _ _ _ _. \<lparr>c_eip = 0, c_esp = 0, c_pdptr = None\<rparr>, userland_entry = 5, stack_size = 64, regs_size = 16\<rparr>"

theorem syscall_results_witness:
  "\<exists>r s'. syscall_dispatch demo_sys 6 99 \<lparr>r_eax = 6, r_edx = 99\<rparr> vmdemo = Some ((Returned r, \<lparr>r_eax = 6, r_edx = 99\<rparr>), s') \<and> r < 0 \<and>
     r = - 1 \<and> (\<exists>e > 0. errno_of s' = Some e)"
proof -
  let ?g = "\<lparr>r_eax = 6, r_edx = 99\<rparr> :: regs"
  have c: "sysno (abi_of demo_sys) 6 = Some SYS_close" "vcf demo_sys = demo_conf" "errnos demo_sys = errno_std"
    by (simp_all add: demo_sys_def demo_abi_def)
  have "curthr vmdemo = Some 1" "threads vmdemo 1 = Some (thr0 10)" by (simp_all add: vmdemo_def)
  then obtain r s' where run: "syscall_dispatch demo_sys 6 99 ?g vmdemo = Some ((Returned r, ?g), s')" "r < 0"
    by (simp add: syscall_dispatch_def c sys_close_def do_close_def fd_valid_def demo_conf_def ret_errno_def fail_with_def set_errno_def thr_upd_def
        returned_def errno_pos [OF errno_std_ok])
  have "errno_ok (errnos (demo_sys :: vm_st sys_env))" "sysno (abi_of (demo_sys :: vm_st sys_env)) 6 = Some SYS_close"
    by (simp_all add: demo_sys_def demo_abi_def errno_std_ok)
  with syscall_results [OF _ run(1)] run(2) have "r = - 1 \<and> (\<exists>e > 0. errno_of s' = Some e)" by (simp add: errno_calls_def)
  with run show ?thesis by blast
qed

subsection \<open>Shutting down\<close>

lemma kthread_cancel_procs: "kthread_cancel irqs t v s = Some (Returned (), s') \<Longrightarrow> procs s' = procs s"
  by (auto simp: kthread_cancel_def sched_cancel_def thr_upd_def ktqueue_remove_def sched_make_runnable_def ktqueue_enqueue_def
      bind_eq_Some_conv Let_def split: if_split_asm)

lemma waitpid_null_status: "do_waitpid E irqs (- 1) False s = Some ((Returned c, st), s') \<Longrightarrow> c = - E ECHILD"
  by (auto simp: do_waitpid_def waitpid_any_def bind_eq_Some_conv split: if_split_asm option.split_asm)

lemma wait_null_status: "waitpid_any irqs False s = None \<or> (\<exists>st s'. waitpid_any irqs False s = Some ((Blocked, st), s'))"
  by (cases "waitpid_any irqs False s") (auto simp: waitpid_any_def bind_eq_Some_conv split: option.split_asm)

lemma case_returned:
  "(case w of Returned v \<Rightarrow> f v | Blocked \<Rightarrow> Some (Blocked, s)) = Some (Returned u, s') \<longleftrightarrow>
   (\<exists>v. w = Returned v \<and> f v = Some (Returned u, s'))"
  by (cases w) simp_all

lemma pageoutd_exit_procs: "pageoutd_exit Z s = Some (Returned (), s') \<Longrightarrow> procs s' = procs s"
  by (auto simp: pageoutd_exit_def bind_eq_Some_conv case_returned dest: kthread_cancel_procs)

lemma shutdown_waits:
  assumes "pframe_shutdown Z s = Some (Returned (), s')"
  shows "\<exists>s1 d dp st s2. pageoutd_exit Z s = Some (Returned (), s1) \<and> procs s1 d = Some dp \<and>
    do_waitpid (errnos Z) (irqs_of Z) (- 1) False s1 = Some ((Returned (p_pid dp), st), s2)"
  using assms by (auto simp: pframe_shutdown_def bind_eq_Some_conv Let_def case_returned split: if_split_asm)

lemma wait_dead:
  assumes "curproc t = Some q" "procs t q = Some qr" "find_child (procs t) (\<lambda>c. p_state c = PROC_DEAD) (p_children qr) = Some (Some d)"
    "procs t d = Some dp" "p_pagedir dp \<noteq> None" "reap d t = Some t'"
  shows "waitpid_any irqs False t = None \<and> waitpid_any irqs True t = Some ((Returned (p_pid dp), Some (p_status dp)), t')"
  using assms by (simp add: waitpid_any_def)

text \<open>
  C39: pframe_shutdown never gets past its wait for the page-out daemon. It passes a null pointer for the status, and
  do_waitpid stores the status of a dead child unconditionally. The call is made by the idle process and the daemon
  has been cancelled, so that the wait is reached. Then pframe_shutdown does not return. When no child is dead
  yet the idle process sleeps; and once it has been woken by the death of a child, the next round of the wait faults
  at the store, whereas with a pointer to a status it would free the child and return its pid.
\<close>

theorem pframe_shutdown_stuck:
  assumes "errno_ok (errnos Z)" "\<forall>p pr. procs s p = Some pr \<longrightarrow> 0 \<le> p_pid pr" "cur_proc s = Some (q, pr)" "p_pid pr = PID_IDLE"
    and exit: "pageoutd_exit Z s = Some (Returned (), s1)" and "curproc s1 = Some q" and d: "pageoutd s1 = Some d" "procs s1 d = Some dp"
  shows "(\<forall>s'. pframe_shutdown Z s \<noteq> Some (Returned (), s')) \<and>
    (\<forall>s2. p_children pr \<noteq> [] \<longrightarrow> find_child (procs s1) (\<lambda>c. p_state c = PROC_DEAD) (p_children pr) = Some None \<longrightarrow>
       sched_sleep_on (irqs_of Z) (P_wait q) s1 = Some s2 \<longrightarrow> pframe_shutdown Z s = Some (Blocked, s2)) \<and>
    (\<forall>t qr c cr t'. curproc t = Some q \<longrightarrow> procs t q = Some qr \<longrightarrow>
       find_child (procs t) (\<lambda>c. p_state c = PROC_DEAD) (p_children qr) = Some (Some c) \<longrightarrow> procs t c = Some cr \<longrightarrow> p_pagedir cr \<noteq> None \<longrightarrow>
       reap c t = Some t' \<longrightarrow> waitpid_any (irqs_of Z) False t = None \<and>
         waitpid_any (irqs_of Z) True t = Some ((Returned (p_pid cr), Some (p_status cr)), t'))"
proof (intro conjI allI impI, goal_cases)
  case (1 s')
  show ?case
  proof
    assume r: "pframe_shutdown Z s = Some (Returned (), s')"
    obtain s1 d dp st s2 where ex: "pageoutd_exit Z s = Some (Returned (), s1)" and d: "procs s1 d = Some dp"
      and w: "do_waitpid (errnos Z) (irqs_of Z) (- 1) False s1 = Some ((Returned (p_pid dp), st), s2)"
      using shutdown_waits [OF r] by (elim exE conjE) (rule that)
    from d assms(2) pageoutd_exit_procs [OF ex] have "0 \<le> p_pid dp" by metis
    with waitpid_null_status [OF w] errno_pos [OF assms(1), of ECHILD] show False by simp
  qed
next
  case (2 s2)
  have "procs s1 q = Some pr" using pageoutd_exit_procs [OF exit] assms(3) by (auto simp: cur_proc_def bind_eq_Some_conv)
  then show ?case using 2 assms(3,4,6) exit d by (simp add: pframe_shutdown_def do_waitpid_def waitpid_any_def)
qed (simp_all add: wait_dead)

text \<open>The idle process 11 and the page-out daemon 12, whose thread sleeps until memory is needed.\<close>

definition shut_demo :: pageout_st where
  "shut_demo = vm_st.extend (vmdemo\<lparr>threads := [1 \<mapsto> thr0 11, 2 \<mapsto> thr_on Pageoutd_waitq KT_SLEEP_CANCELLABLE 12],
     queues := (\<lambda>_. \<lparr>tq_list = [], tq_size = 0\<rparr>)(Pageoutd_waitq := \<lparr>tq_list = [2], tq_size = 1\<rparr>), curproc := Some 11,
     procs := [11 \<mapsto> demo_proc\<lparr>p_pid := 0, p_comm := ''idle'', p_threads := [1], p_children := [12], p_pagedir := Some 100\<rparr>,
               12 \<mapsto> demo_proc\<lparr>p_pid := 2, p_comm := ''pageoutd'', p_threads := [2], p_pproc := Some 11, p_child_link := Some 11, p_pagedir := Some 101\<rparr>],
     proc_list := [11, 12]\<rparr>) (pageout_st.fields (Some 12) (Some 2))"

lemma case_some: "case_option False P m \<longleftrightarrow> (\<exists>x. m = Some x \<and> P x)"
  by (cases m) simp_all

lemma shut_demo_run:
  "\<exists>x. pageoutd_exit demo_sys shut_demo = Some x \<and> fst x = Returned () \<and> curproc (snd x) = Some 11 \<and> pageoutd (snd x) = Some 12 \<and>
     map_option p_state (procs (snd x) 12) = Some PROC_RUNNING \<and>
     (\<exists>s2. sched_sleep_on [] (P_wait 11) (snd x) = Some s2 \<and>
       (\<exists>t. pageoutd_resume demo_sys s2 = Some t \<and> curproc t = Some 11 \<and> map_option p_children (procs t 11) = Some [12] \<and>
          map_option p_state (procs t 12) = Some PROC_DEAD \<and> map_option p_pagedir (procs t 12) = Some (Some 101) \<and>
          map_option p_pid (procs t 12) = Some 2 \<and> reap 12 t \<noteq> None))"
  unfolding case_some [symmetric] by code_simp

theorem pframe_shutdown_stuck_witness:
  "\<exists>s2 t t' st. pframe_shutdown demo_sys shut_demo = Some (Blocked, s2) \<and> pageoutd_resume demo_sys s2 = Some t \<and>
     waitpid_any [] False t = None \<and> waitpid_any [] True t = Some ((Returned 2, st), t')"
proof -
  obtain x s2 t where x: "pageoutd_exit demo_sys shut_demo = Some x" "fst x = Returned ()" "curproc (snd x) = Some 11" "pageoutd (snd x) = Some 12"
    and s1: "map_option p_state (procs (snd x) 12) = Some PROC_RUNNING" and sl: "sched_sleep_on [] (P_wait 11) (snd x) = Some s2"
    and t: "pageoutd_resume demo_sys s2 = Some t" "curproc t = Some 11" "map_option p_children (procs t 11) = Some [12]"
      "map_option p_state (procs t 12) = Some PROC_DEAD" "map_option p_pagedir (procs t 12) = Some (Some 101)"
      "map_option p_pid (procs t 12) = Some 2" "reap 12 t \<noteq> None"
    using shut_demo_run by (elim exE conjE) (rule that)
  obtain s1 where s1': "x = (Returned (), s1)" using x(2) by (metis prod.collapse)
  have ex: "pageoutd_exit demo_sys shut_demo = Some (Returned (), s1)" "curproc s1 = Some 11" "pageoutd s1 = Some 12"
    using x unfolding s1' by simp_all
  let ?pr = "demo_proc\<lparr>p_pid := 0, p_comm := ''idle'', p_threads := [1], p_children := [12], p_pagedir := Some 100\<rparr>"
  have ps: "procs shut_demo = [11 \<mapsto> ?pr, 12 \<mapsto> demo_proc\<lparr>p_pid := 2, p_comm := ''pageoutd'', p_threads := [2], p_pproc := Some 11,
      p_child_link := Some 11, p_pagedir := Some 101\<rparr>]" "curproc shut_demo = Some 11"
    by (simp_all add: shut_demo_def vmdemo_def vm_st.defs pageout_st.defs)
  have Z: "errno_ok (errnos (demo_sys :: pageout_st sys_env))" "irqs_of (demo_sys :: pageout_st sys_env) = []" by (simp_all add: demo_sys_def errno_std_ok)
  have idle: "cur_proc shut_demo = Some (11, ?pr)" "p_pid ?pr = PID_IDLE" by (simp_all add: cur_proc_def ps PID_IDLE_def)
  have pos: "\<forall>p pr. procs shut_demo p = Some pr \<longrightarrow> 0 \<le> p_pid pr" by (simp add: ps demo_proc_def)
  obtain dp where dp: "procs s1 12 = Some dp" "p_state dp = PROC_RUNNING" using s1 by (auto simp: s1')
  obtain qr cr t' where tr: "procs t 11 = Some qr" "p_children qr = [12]" "procs t 12 = Some cr" "p_state cr = PROC_DEAD" "p_pagedir cr \<noteq> None" "p_pid cr = 2"
    "reap 12 t = Some t'" using t by auto
  note stuck = pframe_shutdown_stuck [OF Z(1) pos idle ex dp(1), unfolded Z(2)]
  have "pframe_shutdown demo_sys shut_demo = Some (Blocked, s2)" using stuck sl [unfolded s1'] dp by simp
  moreover have "waitpid_any [] False t = None \<and> waitpid_any [] True t = Some ((Returned (p_pid cr), Some (p_status cr)), t')"
    using stuck [THEN conjunct2, THEN conjunct2, rule_format, of t qr 12 cr t'] t(2) tr by simp
  ultimately show ?thesis using t(1) tr(6) by auto
qed

end
