(* ===== verification/Kmain_Props.thy ===== *)
theory Kmain_Props
  imports Sys_Props Vm_Inv
begin

section \<open>Starting up\<close>

text \<open>
  From \<^verbatim>\<open>kmain\<close> to the creation of the init process. Before \<^verbatim>\<open>kmain\<close> there are no threads, processes and page frames. The
  initialisation functions outside the repository set up hardware and allocators, and leave the state of
  the model alone.
\<close>

definition boot_ok_ext :: "'s boot_ext \<Rightarrow> bool" where
  "boot_ok_ext K \<longleftrightarrow> (\<forall>f s. hw_init K f s = Some s) \<and> (\<forall>n. slab_allocator_create K n \<noteq> None) \<and> boot_stack K \<noteq> None \<and> \<not> gdb_wait K"

lemma hw_inits_id: "boot_ok_ext K \<Longrightarrow> hw_inits K fs s = Some s"
  by (induction fs) (simp_all add: boot_ok_ext_def)

lemma boot_stI:
  assumes "threads s = Map.empty" "queues s = (\<lambda>_. \<lparr>tq_list = [], tq_size = 0\<rparr>)" "curthr s = None" "curproc s = None" "ipl s = IPL_HIGH"
    "km_holder s = Map.empty" "procs s = Map.empty" "proc_list s = []" "proc_initproc s = None" "next_pid s = 0"
  shows "s = boot_st (proc_st.more s)"
  using assms by (cases s rule: proc_st.cases_scheme) (simp add: boot_st_def)

lemma pframe_init_boot: "\<exists>y. pframe_init X (Some a) (boot_st x) = Some (boot_st y)"
proof -
  obtain s where s: "pframe_init X (Some a) (boot_st x) = Some s" by (simp add: pframe_init_def Let_def)
  have "s = boot_st (proc_st.more s)"
    by (rule boot_stI) (use s in \<open>auto simp: pframe_init_def boot_st_def sched_queue_init_def Let_def fun_eq_iff\<close>)
  with s show ?thesis by metis
qed

lemma init_lists: "pframe_init X al s = Some s' \<Longrightarrow> alloc_list s' = [] \<and> pinned_list s' = []"
  by (auto simp: pframe_init_def Let_def sched_queue_init_def split: if_split_asm)

lemma kmain_idle:
  assumes "boot_ok_ext K" "2 < PROC_MAX_COUNT (kcf Z)" "k0 \<noteq> None" "pframe_init (vmx Z) (slab_allocator_create K ''pframe'') (boot_st x) = Some (boot_st y)"
    and "\<And>s. procs s = Map.empty \<Longrightarrow> fork_alloc (sysx Z) s = (Some (p0, obj0), pd0, Some (t0, tobj0), k0)"
  shows "kmain Z B K (boot_st x) = Some (idle_st (kcf Z) (ctx_of Z) p0 obj0 pd0 t0 tobj0 k0 (Some (func_addr B ''idleproc_run'')) y)"
proof -
  note K = assms(1) [unfolded boot_ok_ext_def]
  have "procs (proc_init (boot_st y)) = Map.empty" by (simp add: proc_init_def boot_st_def)
  note al = assms(5) [OF this]
  show ?thesis using K bootstrap_idle(1) [OF assms(2,3)]
    by (simp add: kmain_def hw_inits_id [OF assms(1)] anon_init_def shadow_init_def vmmap_init_def kthread_init_def assms(4) al Let_def)
qed

lemma idle_cache: "frames_ok C (idle_st C' cs p0 obj0 pd0 t0 tobj0 k0 f0 y) = frames_ok C (boot_st y)"
  "cache_ok C (idle_st C' cs p0 obj0 pd0 t0 tobj0 k0 f0 y) = cache_ok C (boot_st y)"
  by (rule frames_ok_same cache_ok_same same_cacheI; simp add: same_frames_def idle_st_def)+

text \<open>
  C18: Starting up establishes the invariants. With memory available kmain comes to the idle process: it has process
  id 0 and the current thread, and the frames of the page cache are well-formed and none is in use; when there are no memory objects
  yet, the invariant of the whole page cache holds. After initproc_create the init process has process id 1, is the
  child of the idle process, is recorded as the init process and has one thread, which is not yet queued;
  the process table is well-formed. Nothing up to here uses the run queue: it is empty whatever its memory holds at
  this point, once the idle process has called sched_init, which it does next.
\<close>

theorem kmain_boots:
  assumes "boot_ok_ext K" "2 < PROC_MAX_COUNT (kcf Z)" "pframes (boot_st x) = Map.empty" "p0 \<noteq> p1" "t0 \<noteq> t1" "k0 \<noteq> None" "k1 \<noteq> None"
    and "\<forall>s. procs s = Map.empty \<longrightarrow> fork_alloc (sysx Z) s = (Some (p0, obj0), pd0, Some (t0, tobj0), k0)"
  shows "\<exists>s1 s2 r0 r1. kmain Z B K (boot_st x) = Some s1 \<and> frames_ok (mcf Z) s1 \<and> alloc_list s1 = [] \<and> pinned_list s1 = [] \<and>
     (mmobjs (boot_st x) = Map.empty \<longrightarrow> cache_ok (mcf Z) s1) \<and>
     initproc_create (kcf Z) (ctx_of Z) (Some (p1, obj1)) pd1 (Some (t1, tobj1)) k1 f1 s1 = Some (t1, s2) \<and>
     proc_ok (kcf Z) s2 \<and> running s2 \<and> curthr s2 = Some t0 \<and> curproc s2 = Some p0 \<and> proc_initproc s2 = Some p1 \<and>
     procs s2 p0 = Some r0 \<and> p_pid r0 = PID_IDLE \<and> p_children r0 = [p1] \<and> p_threads r0 = [t0] \<and>
     procs s2 p1 = Some r1 \<and> p_pid r1 = PID_INIT \<and> p_pproc r1 = Some p0 \<and> p_threads r1 = [t1] \<and> unqueued t1 s2 \<and>
     (\<forall>junk. sched_init (s2\<lparr>queues := (queues s2)(Kt_runq := junk)\<rparr>) = s2)"
proof -
  obtain a where a: "slab_allocator_create K ''pframe'' = Some a" using assms(1) unfolding boot_ok_ext_def by blast
  obtain y where y: "pframe_init (vmx Z) (slab_allocator_create K ''pframe'') (boot_st x) = Some (boot_st y)" unfolding a using pframe_init_boot by metis
  let ?s1 = "idle_st (kcf Z) (ctx_of Z) p0 obj0 pd0 t0 tobj0 k0 (Some (func_addr B ''idleproc_run'')) y"
  have run: "kmain Z B K (boot_st x) = Some ?s1" using assms(8) by (intro kmain_idle [OF assms(1,2,6) y]) blast
  have fr: "frames_ok (mcf Z) ?s1" unfolding idle_cache using init_frames [OF y assms(3)] by blast
  have cache: "mmobjs (boot_st x) = Map.empty \<longrightarrow> cache_ok (mcf Z) ?s1" unfolding idle_cache using init_cache [OF y assms(3)] by blast
  have "alloc_list (boot_st y) = [] \<and> pinned_list (boot_st y) = []" using init_lists [OF y] .
  then have lists: "alloc_list ?s1 = []" "pinned_list ?s1 = []" by (simp_all add: idle_st_def)
  have rq: "sched_init (s\<lparr>queues := (queues s)(Kt_runq := junk)\<rparr>) = s" if "queues s Kt_runq = \<lparr>tq_list = [], tq_size = 0\<rparr>" for junk and s :: "'a vm_st_scheme"
    using that by (cases s) (simp add: sched_init_def sched_queue_init_def fun_upd_idem)
  obtain s2 r0 r1 where s2: "initproc_create (kcf Z) (ctx_of Z) (Some (p1, obj1)) pd1 (Some (t1, tobj1)) k1 f1 ?s1 = Some (t1, s2)"
    "proc_ok (kcf Z) s2" "running s2" "curthr s2 = Some t0" "curproc s2 = Some p0" "proc_initproc s2 = Some p1"
    "procs s2 p0 = Some r0" "p_pid r0 = PID_IDLE" "p_children r0 = [p1]" "p_threads r0 = [t0]"
    "procs s2 p1 = Some r1" "p_pid r1 = PID_INIT" "p_pproc r1 = Some p0" "p_threads r1 = [t1]" "unqueued t1 s2"
    "queues s2 Kt_runq = \<lparr>tq_list = [], tq_size = 0\<rparr>"
    using initproc_first [OF assms(2,4-7), where cs = "ctx_of Z" and ?obj1.0 = obj1 and ?pd1.0 = pd1 and ?tobj1.0 = tobj1 and ?f1.0 = f1 and ?obj0.0 = obj0
      and ?pd0.0 = pd0 and ?tobj0.0 = tobj0 and ?f0.0 = "Some (func_addr B ''idleproc_run'')" and x = y] by (elim exE conjE) (rule that)
  from s2 run fr cache lists rq [OF s2(16)] show ?thesis by (intro exI conjI allI) assumption+
qed

definition demo_boot :: "'s boot_ext" where
  "demo_boot = \<lparr>hw_init = \<lambda>_ s. Some s, slab_allocator_create = \<lambda>_. Some 1, boot_stack = Some 2, has_vm = True, gdb_wait = False\<rparr>"

definition demo_kmain :: "'s kmain_ext" where
  "demo_kmain = \<lparr>init_call_all = \<lambda>s. Some s, vfs_shutdown = \<lambda>s. Some (0, s), kshell_add_command = \<lambda>_ s. Some s, has_vfs = True,
     has_s5fs = True, has_drivers = True, MKDEVID = \<lambda>a b. of_nat (256 * a + b), func_addr = \<lambda>f. 300\<rparr>"

definition boot_sys :: "vm_st sys_env" where
  "boot_sys = demo_sys\<lparr>sysx := demo_sysx\<lparr>fork_alloc := \<lambda>_. (Some (10, demo_proc), Some 100, Some (1, thr0 0), Some 200)\<rparr>\<rparr>"

theorem kmain_boots_witness:
  "\<exists>s1 s2 r1. kmain boot_sys demo_kmain demo_boot (boot_st (proc_st.more (vmdemo\<lparr>pframes := Map.empty, mmobjs := Map.empty\<rparr>))) = Some s1 \<and> cache_ok demo_mconf s1 \<and>
     initproc_create (kcf boot_sys) (ctx_of boot_sys) (Some (11, demo_proc)) (Some 101) (Some (2, thr0 0)) (Some 201) (Some 301) s1 = Some (2, s2) \<and>
     curproc s2 = Some 10 \<and> procs s2 11 = Some r1 \<and> p_pid r1 = 1"
proof -
  have "boot_ok_ext demo_boot" by (simp add: boot_ok_ext_def demo_boot_def)
  moreover have "2 < PROC_MAX_COUNT (kcf boot_sys)" "mcf boot_sys = demo_mconf" by (simp_all add: boot_sys_def demo_sys_def)
  moreover have "pframes (boot_st (proc_st.more (vmdemo\<lparr>pframes := Map.empty, mmobjs := Map.empty\<rparr>))) = Map.empty"
    "mmobjs (boot_st (proc_st.more (vmdemo\<lparr>pframes := Map.empty, mmobjs := Map.empty\<rparr>))) = Map.empty" by (simp_all add: boot_st_def vmdemo_def)
  moreover have "fork_alloc (sysx boot_sys) s = (Some (10, demo_proc), Some 100, Some (1, thr0 0), Some 200)" for s by (simp add: boot_sys_def)
  ultimately show ?thesis
    using kmain_boots [of demo_boot boot_sys "proc_st.more (vmdemo\<lparr>pframes := Map.empty, mmobjs := Map.empty\<rparr>)" 10 11 1 2 "Some 200" "Some 201"] by (fastforce simp: PID_INIT_def)
qed

end
