(* ===== verification/Spec2Isabelle.thy ===== *)
theory Spec2Isabelle
  imports Vm_Props Vm_Calls Vm_Fork Vm_User Vm_Vnode Info Kmain_Props
begin

text \<open>
  \<^bold>\<open>A verification of the Weenix kernel: processes and threads, the virtual file system, virtual memory.\<close>

  The repository holds the parts of the Weenix teaching kernel that its author wrote, in three stages: \<^verbatim>\<open>K1\<close>
  (scheduler, mutexes, processes, threads, start-up), \<^verbatim>\<open>K2\<close> (path names, file system calls) and \<^verbatim>\<open>K3\<close> (page frames,
  memory objects, address spaces, system calls). The headers, the drivers, the file systems below the VFS, the
  page tables, the slab and page allocators and the kernel shell are not in the repository.

  \<^bold>\<open>How the code is modelled.\<close> A kernel function is a function from the kernel state to an optional result and
  state. \<open>None\<close> stands for a run that does not come back in a regular way: a failed \<^verbatim>\<open>KASSERT\<close>, a panic, a null or
  dangling pointer dereferenced, a variable read before it is set, an endless wait. Errors of the source are
  values: results are integers, negative error numbers \<open>- E ENOENT\<close> with \<open>E\<close> any injective choice of positive numbers
  (\<open>errno_ok\<close>). A function that goes to sleep returns \<open>Blocked\<close>; what it does when it is woken up is a definition of
  its own (\<open>\<dots>_resume\<close>, \<open>waitpid_any\<close>). Signed arithmetic that overflows is undefined in C, and \<open>None\<close> where it can happen. Objects on the heap are entries of stores, maps from pointers to records; freeing an
  object removes its entry. Page numbers, addresses, flags and offsets are words of 32 bits. The state grows with
  the layers, as a chain of records: \<open>sched_st\<close> (threads, queues, current thread and process, interrupt level), \<open>mutex_st\<close>,
  \<open>proc_st\<close>, \<open>vfs_st\<close>, \<open>vm_st\<close>, \<open>pageout_st\<close>; functions are polymorphic in the rest of the record, so that those of a lower
  layer apply in the higher ones.

  Code outside the repository is an argument: \<open>fs_ext\<close> (the operations of the file system and of devices, \<^verbatim>\<open>fget\<close> and
  \<^verbatim>\<open>fput\<close>), \<open>vm_ext\<close> (page tables, allocators, \<^verbatim>\<open>mmobj.h\<close>, the page operations of vnodes, \<open>vm_sleep\<close>), \<open>sys_ext\<close> and \<open>abi\<close> (layout of
  the arguments of system calls, pipes, mounting, the loader), \<open>kmain_ext\<close> and \<open>boot_ext\<close> (start-up of the hardware, the
  shell), \<open>info_ext\<close> (formatting). Constants of missing headers are the fields of \<open>kconf\<close>, \<open>vconf\<close> and \<open>mconf\<close>. What a
  theorem needs of such code is a hypothesis with a name: \<open>fs_ok\<close>, \<open>env_ok\<close>, \<open>ext_frame\<close>, \<open>slab_fresh\<close>, \<open>cache_ext\<close>, \<open>fork_ext\<close>.
  Interrupts are lists of state changes that arrive while \<^verbatim>\<open>sched_switch\<close> waits.

  \<^bold>\<open>The theories.\<close>

  \<^item> \<open>Prelude\<close>: kernel results, error numbers, constants, generic lemmas; the locales \<open>step_system\<close> (an invariant of a
    step relation holds along runs), interpreted for the scheduler (\<open>sched\<close>), mutexes (\<open>mtx\<close>), file descriptors (\<open>fds\<close>) and the
    page cache (\<open>pcache\<close>), and \<open>fifo_queue\<close>, interpreted for thread queues (\<open>ktq\<close>).
  \<^item> \<open>Sched\<close> (\<^verbatim>\<open>K1/sched.c\<close>, \<^verbatim>\<open>K1/sched_helper.c\<close>) and \<open>Sched_Run\<close>: queues, switching, sleeping, waking up, cancelling;
    the invariant of the queues along every run of scheduler operations; what each operation does, in order of
    arrival; that the wait for interrupts ends; the interrupt level is kept with the thread.
  \<^item> \<open>Kmutex\<close> (\<^verbatim>\<open>K1/kmutex.c\<close>): the mutex invariant along every run, and that \<^verbatim>\<open>kmutex_lock\<close> is left only by the holder; how
    a thread that is cancelled after it was handed the mutex leaves \<^verbatim>\<open>kmutex_lock_cancellable\<close> with the mutex held.
  \<^item> \<open>Proc\<close> (\<^verbatim>\<open>K1/proc.c\<close>, \<^verbatim>\<open>K1/kthread.c\<close>, \<^verbatim>\<open>kthread_clone\<close> of \<^verbatim>\<open>K3/kthread.c\<close>), \<open>Proc_Tree\<close>, \<open>Proc_Props\<close>: the process tree and its
    invariant, process ids, exit and wait.
  \<^item> \<open>Boot\<close> (\<^verbatim>\<open>bootstrap\<close>, \<^verbatim>\<open>initproc_create\<close> of \<^verbatim>\<open>K1/kmain.c\<close>): the first two processes.
  \<^item> \<open>Vfs\<close> (\<^verbatim>\<open>K3/vnode.c\<close>), \<open>Namev\<close> (\<^verbatim>\<open>K2/namev.c\<close>), \<open>Vfs_Syscall\<close> (\<^verbatim>\<open>K2/open.c\<close>, \<^verbatim>\<open>K2/vfs_syscall.c\<close>); \<open>Vfs_Refs\<close>, \<open>Namev_Props\<close>, \<open>Vfs_Path\<close>,
    \<open>Vfs_Files\<close>, \<open>Vfs_Io\<close>, \<open>Vfs_Props\<close>: path resolution equals a walk over components, every call that takes a path drops
    the vnode references it takes, the counts of open files agree with the tables of descriptors along every run
    of calls, and the results of single calls.
  \<^item> \<open>Pframe\<close> (\<^verbatim>\<open>K3/pframe.c\<close>), \<open>Mmobj\<close> (\<^verbatim>\<open>K3/anon.c\<close>, \<^verbatim>\<open>K3/shadow.c\<close>), \<open>Vmmap\<close> (\<^verbatim>\<open>K3/vmmap.c\<close>), \<open>Vm_Syscall\<close> (\<^verbatim>\<open>K3/mmap.c\<close>, \<^verbatim>\<open>brk.c\<close>, \<^verbatim>\<open>access.c\<close>,
    \<^verbatim>\<open>pagefault.c\<close>, \<^verbatim>\<open>fork.c\<close>).
  \<^item> \<open>Vm_Areas\<close>, \<open>Vm_Frame\<close>, \<open>Vm_Maps\<close>, \<open>Vm_Demo\<close>, \<open>Vm_Props\<close>, \<open>Vm_Calls\<close>: an address space as a partial function from pages to
    mappings, which \<^verbatim>\<open>vmmap_remove\<close>, \<^verbatim>\<open>vmmap_map\<close>, \<^verbatim>\<open>do_munmap\<close> and \<^verbatim>\<open>do_brk\<close> refine; the page cache leaves address spaces alone (rules for \<open>keepS\<close>, \<open>keepP\<close>).
  \<^item> \<open>Vm_Cache\<close>, \<open>Vm_Shadow\<close>, \<open>Vm_Fork\<close>: what a chain of shadow objects shows as a page; lookups for reading and writing
    are correct and private; fork isolates parent and child.
  \<^item> \<open>Vm_Inv\<close>: the type invariant of the page cache along every run of its operations (rules for \<open>okS\<close>, \<open>okP\<close>): the frames with
    their hash chains, lists and counters (\<open>frames_ok\<close>), and the lists of resident pages of the memory objects (\<open>res_ok\<close>).
  \<^item> \<open>Vm_Vnode\<close>: the parts of \<^verbatim>\<open>vget\<close> and \<^verbatim>\<open>vput\<close> of \<^verbatim>\<open>K3/vnode.c\<close> that run in the page cache, entries of \<open>fs_ext\<close> in the layers below. The
    loop of \<^verbatim>\<open>vput\<close> over the resident pages of an unlinked vnode returns and leaves no page and one reference; in
    the theories of the file system this is a hypothesis, a part of \<open>fs_ok\<close>.
  \<^item> \<open>Vm_User\<close>: the locale \<open>page_source\<close>, the contract of a memory object, interpreted for shadow chains (\<open>shadow\<close>) and anonymous
    objects (\<open>anon\<close>); on it the copying of user memory and the handling of page faults.
  \<^item> \<open>Info\<close>: \<^verbatim>\<open>proc_info\<close>, \<^verbatim>\<open>proc_list_info\<close>, \<^verbatim>\<open>vmmap_mapping_info\<close>: printing stays in the buffer.
  \<^item> \<open>Syscall\<close> (\<^verbatim>\<open>K3/syscall.c\<close>, \<^verbatim>\<open>user_vecdup\<close>), \<open>Kmain\<close> (\<^verbatim>\<open>K2/kmain.c\<close>, the page-out daemon, \<^verbatim>\<open>pframe_shutdown\<close>, \<^verbatim>\<open>vnode_flush_all\<close>),
    \<open>Sys_Props\<close>, \<open>Kmain_Props\<close>: the results of system calls (rules for \<open>results\<close>), shutting down, starting up.

  The operations of a memory object call the page cache, which calls operations of memory objects. The model ties
  this knot with a depth: in \<open>obj_ops_n E C X d\<close> calls nest at most \<open>d\<close> deep, and a deeper call is \<open>None\<close>. Theorems about
  lookups are for every depth from a small number on (four for a write through a shadow object: lookup, fill,
  lookup in the bottom object, fill), and so say that the calls end; the invariants hold for every depth. The
  loops that may not end (searching process ids, path names, chains, \<^verbatim>\<open>goto clean\<close>, page loops with wrap-around) are
  \<open>partial_function\<close>s, with \<open>None\<close> for an endless run; that they return is part of the theorems about them.

  Properties are numbered C1 to C40 where they are proved. Each has a witness: an instance with concrete values, on
  small states (\<open>demo\<close>, \<open>pdemo\<close>, \<open>vdemo\<close>, \<open>vmdemo\<close>, \<open>forkdemo\<close>) and a small file system and memory (\<open>demo_fs\<close>, \<open>demo_vm\<close>).

  \<^bold>\<open>Not modelled.\<close> Debug output and hooks (\<^verbatim>\<open>dbg\<close>, \<^verbatim>\<open>GDB_CALL_HOOK\<close>); halting the machine (\<^verbatim>\<open>hard_shutdown\<close>); the translation
  look-aside buffer; functions whose body is \<^verbatim>\<open>NOT_YET_IMPLEMENTED\<close> in the source (the multi-threading extension,
  \<^verbatim>\<open>lookup_name\<close>, \<^verbatim>\<open>lookup_dirpath\<close>, \<^verbatim>\<open>do_mount\<close>, \<^verbatim>\<open>do_umount\<close>); \<^verbatim>\<open>alloc_stack\<close> and \<^verbatim>\<open>free_stack\<close>, calls of the page allocator. \<^verbatim>\<open>syscall_init\<close> only registers an interrupt handler.
  \<^verbatim>\<open>init_call_all\<close> is outside the repository; of the functions it calls, \<^verbatim>\<open>sched_init\<close>, \<^verbatim>\<open>vnode_init\<close> and \<^verbatim>\<open>pageoutd_init\<close> are modelled. Files
  that occur in two stages (\<^verbatim>\<open>vnode.c\<close>, \<^verbatim>\<open>kthread.c\<close>, \<^verbatim>\<open>kmain.c\<close>) are modelled once, in their later version, apart from the
  process start-up, which is the same in both. Machine memory is modelled at the level of the stores, so an
  overflow of a kernel buffer (\<^verbatim>\<open>sys_read\<close>) appears only where its bound is written out. Kernel code is not
  preempted, except by the interrupts just described.
\<close>

end
